(* ===== verification/Prelude.thy ===== *)
theory Prelude
  imports Main "HOL-Library.Word" "HOL-Library.Sublist"
begin

text \<open>
  The shared vocabulary of the development: machine integers and their saturating
  arithmetic, the \<open>Result\<close> type with the early return of the \<open>?\<close> operator, the parts of
  \<open>std::str\<close> the components call (ASCII folding, substring search, splitting, trimming,
  UTF-8 validation), and generic facts on lists and options.

  A Rust \<open>&str\<close>, \<open>String\<close> or \<open>&[u8]\<close> is a \<^typ>\<open>string\<close>, a list of bytes: \<^typ>\<open>char\<close> has exactly
  256 values, so \<open>len()\<close> is \<^const>\<open>length\<close>. Unsigned counters that saturate or wrap in the source
  keep their width as words; lengths, indices (\<open>usize\<close>) and clock readings are \<^typ>\<open>nat\<close>, with
  the saturation of the source written out.
\<close>

unbundle bit_operations_syntax

section \<open>Collections of simplification facts\<close>

named_theorems rust_arith \<open>saturating arithmetic on machine integers\<close>
named_theorems rust_str \<open>operations of std::str on byte strings\<close>
named_theorems rust_res \<open>Result values and the early return\<close>

section \<open>Machine integers\<close>

type_synonym u8 = "8 word"
type_synonym u16 = "16 word"
type_synonym u32 = "32 word"
type_synonym u64 = "64 word"
type_synonym usize = nat

definition sat_add :: "'a::len word \<Rightarrow> 'a word \<Rightarrow> 'a word" where
  "sat_add a b = (if unat a + unat b < 2 ^ LENGTH('a) then a + b else - 1)"

definition sat_sub :: "'a::len word \<Rightarrow> 'a word \<Rightarrow> 'a word" where
  "sat_sub a b = (if a < b then 0 else a - b)"

definition usize_max :: usize where
  "usize_max = 2 ^ 64 - 1"

definition sat_add_usize :: "usize \<Rightarrow> usize \<Rightarrow> usize" where
  "sat_add_usize a b = min (a + b) usize_max"

definition u64_max :: nat where
  "u64_max = 2 ^ 64 - 1"

definition sat_add_u64 :: "nat \<Rightarrow> nat \<Rightarrow> nat" where
  "sat_add_u64 a b = min (a + b) u64_max"

lemma unat_sat_add [rust_arith]:
  "unat (sat_add a (b :: 'a::len word)) = min (unat a + unat b) (2 ^ LENGTH('a) - 1)"
proof (cases "unat a + unat b < 2 ^ LENGTH('a)")
  case True
  then show ?thesis
    by (simp add: sat_add_def unat_word_ariths)
next
  case False
  have "unat (- 1 :: 'a word) = 2 ^ LENGTH('a) - 1"
    by (simp add: unsigned_minus_1_eq_mask mask_eq_exp_minus_1)
  with False show ?thesis
    by (simp add: sat_add_def)
qed

lemma unat_sat_sub [rust_arith]: "unat (sat_sub a b) = unat a - unat b"
  by (auto simp: sat_sub_def word_less_nat_alt unat_sub word_le_nat_alt)

lemma sat_add_0 [simp]: "sat_add 0 b = b" "sat_add a 0 = a"
  by (simp_all add: sat_add_def)

lemma sat_add_mono: "unat a \<le> unat b \<Longrightarrow> unat (sat_add a c) \<le> unat (sat_add b c)"
  by (simp add: rust_arith)

lemma unat_less_exp: "unat (a :: 'a::len word) < 2 ^ LENGTH('a)"
  by (rule unsigned_less)

lemma le_sat_add1: "unat a \<le> unat (sat_add a b)"
  unfolding unat_sat_add using unat_less_exp [of a] by linarith

section \<open>Results\<close>

datatype ('a, 'e) result = is_Ok: Ok (ok: 'a) | is_Err: Err (err: 'e)

primrec result_bind :: "('a, 'e) result \<Rightarrow> ('a \<Rightarrow> ('b, 'e) result) \<Rightarrow> ('b, 'e) result" where
  "result_bind (Ok x) f = f x"
| "result_bind (Err e) f = Err e"

primrec map_err :: "('e \<Rightarrow> 'f) \<Rightarrow> ('a, 'e) result \<Rightarrow> ('a, 'f) result" where
  "map_err f (Ok x) = Ok x"
| "map_err f (Err e) = Err (f e)"

primrec result_ok :: "('a, 'e) result \<Rightarrow> 'a option" where
  "result_ok (Ok x) = Some x"
| "result_ok (Err e) = None"

text \<open>A loop that pushes \<open>f(x)?\<close> for every element: it stops at the first error.\<close>

fun try_map :: "('a \<Rightarrow> ('b, 'e) result) \<Rightarrow> 'a list \<Rightarrow> ('b list, 'e) result" where
  "try_map f [] = Ok []"
| "try_map f (x # xs) =
     (case f x of
        Err e \<Rightarrow> Err e
      | Ok y \<Rightarrow> (case try_map f xs of Err e \<Rightarrow> Err e | Ok ys \<Rightarrow> Ok (y # ys)))"

lemma result_bind_Ok [rust_res]:
  "result_bind r f = Ok y \<longleftrightarrow> (\<exists>x. r = Ok x \<and> f x = Ok y)"
  by (cases r) auto

lemma map_err_Ok [rust_res]: "map_err f r = Ok y \<longleftrightarrow> r = Ok y"
  by (cases r) auto

lemma try_map_Ok:
  "try_map f xs = Ok ys \<longleftrightarrow> list_all2 (\<lambda>x y. f x = Ok y) xs ys"
proof
  show "try_map f xs = Ok ys \<Longrightarrow> list_all2 (\<lambda>x y. f x = Ok y) xs ys"
    by (induction xs arbitrary: ys) (auto split: result.splits)
  show "list_all2 (\<lambda>x y. f x = Ok y) xs ys \<Longrightarrow> try_map f xs = Ok ys"
    by (induction rule: list_all2_induct) auto
qed

lemma try_map_Err:
  "try_map f xs = Err e \<Longrightarrow> \<exists>x\<in>set xs. f x = Err e"
  by (induction xs) (auto split: result.splits)

section \<open>Byte strings\<close>

definition byte_of :: "char \<Rightarrow> nat" where
  "byte_of c = of_char c"

definition ascii_lower :: "char \<Rightarrow> char" where
  "ascii_lower c = (if 65 \<le> byte_of c \<and> byte_of c \<le> 90 then char_of (byte_of c + 32) else c)"

definition to_ascii_lowercase :: "string \<Rightarrow> string" where
  "to_ascii_lowercase s = map ascii_lower s"

definition eq_ignore_ascii_case :: "string \<Rightarrow> string \<Rightarrow> bool" where
  "eq_ignore_ascii_case a b \<longleftrightarrow> to_ascii_lowercase a = to_ascii_lowercase b"

definition str_contains :: "string \<Rightarrow> string \<Rightarrow> bool" where
  "str_contains hay needle \<longleftrightarrow> sublist needle hay"

definition is_ascii_digit :: "char \<Rightarrow> bool" where
  "is_ascii_digit c \<longleftrightarrow> 48 \<le> byte_of c \<and> byte_of c \<le> 57"

definition is_ascii_hexdigit :: "char \<Rightarrow> bool" where
  "is_ascii_hexdigit c \<longleftrightarrow> is_ascii_digit c \<or>
     65 \<le> byte_of c \<and> byte_of c \<le> 70 \<or> 97 \<le> byte_of c \<and> byte_of c \<le> 102"

text \<open>\<open>str::split_once\<close> on a one-byte delimiter, \<open>str::trim\<close> (the Unicode white-space characters in
  their UTF-8 forms, dropped at both ends), \<open>str::strip_prefix\<close>.\<close>

fun split_once :: "char \<Rightarrow> string \<Rightarrow> (string \<times> string) option" where
  "split_once d [] = None"
| "split_once d (c # cs) =
     (if c = d then Some ([], cs) else map_option (apfst (Cons c)) (split_once d cs))"

definition ws_forms :: "string list" where
  "ws_forms = map (map char_of)
     ([[9], [10], [11], [12], [13], [32], [0xC2, 0x85], [0xC2, 0xA0], [0xE1, 0x9A, 0x80],
       [0xE2, 0x80, 0xA8], [0xE2, 0x80, 0xA9], [0xE2, 0x80, 0xAF], [0xE2, 0x81, 0x9F],
       [0xE3, 0x80, 0x80]] @ map (\<lambda>k. [0xE2, 0x80, 0x80 + k]) [0..<11 :: nat])"

function drop_forms :: "string list \<Rightarrow> string \<Rightarrow> string" where
  "drop_forms forms s =
     (case find (\<lambda>w. w \<noteq> [] \<and> prefix w s) forms of
        None \<Rightarrow> s
      | Some w \<Rightarrow> drop_forms forms (drop (length w) s))"
  by pat_completeness auto
termination
proof (relation "measure (length \<circ> snd)")
  fix forms :: "string list" and s w
  assume "find (\<lambda>w. w \<noteq> [] \<and> prefix w s) forms = Some w"
  then have "w \<noteq> []" and "prefix w s"
    by (auto simp: find_Some_iff)
  then show "((forms, drop (length w) s), (forms, s)) \<in> measure (length \<circ> snd)"
    by (cases s) auto
qed simp

declare drop_forms.simps [simp del]

definition str_trim :: "string \<Rightarrow> string" where
  "str_trim s = rev (drop_forms (map rev ws_forms) (rev (drop_forms ws_forms s)))"

fun strip_prefix :: "string \<Rightarrow> string \<Rightarrow> string option" where
  "strip_prefix [] s = Some s"
| "strip_prefix (p # ps) [] = None"
| "strip_prefix (p # ps) (c # cs) = (if p = c then strip_prefix ps cs else None)"

text \<open>\<open>str::split\<close> on a one-byte separator, and \<open>[T]::join\<close>.\<close>

fun split_on :: "char \<Rightarrow> string \<Rightarrow> string list" where
  "split_on d [] = [[]]"
| "split_on d (c # cs) =
     (if c = d then [] # split_on d cs
      else (case split_on d cs of [] \<Rightarrow> [[c]] | w # ws \<Rightarrow> (c # w) # ws))"

fun join_with :: "string \<Rightarrow> string list \<Rightarrow> string" where
  "join_with sep [] = []"
| "join_with sep [w] = w"
| "join_with sep (w # ws) = w @ sep @ join_with sep ws"

lemma byte_of_less [simp]: "byte_of c < 256"
  by (simp add: byte_of_def)

lemma byte_of_char_of [simp]: "n < 256 \<Longrightarrow> byte_of (char_of n) = n"
  by (simp add: byte_of_def)

lemma byte_of_eq_iff [simp]: "byte_of a = byte_of b \<longleftrightarrow> a = b"
  by (simp add: byte_of_def)

lemma str_trim_Nil: "str_trim [] = []"
proof -
  have "find (\<lambda>w. w \<noteq> [] \<and> prefix w []) forms = None" for forms :: "string list"
    by (auto simp: find_None_iff)
  then have "drop_forms forms [] = []" for forms by (simp add: drop_forms.simps [of forms "[]"])
  then show ?thesis by (simp add: str_trim_def)
qed

lemma ascii_lower_idem [simp]: "ascii_lower (ascii_lower c) = ascii_lower c"
  by (auto simp: ascii_lower_def)

lemma to_ascii_lowercase_idem [simp]:
  "to_ascii_lowercase (to_ascii_lowercase s) = to_ascii_lowercase s"
  by (simp add: to_ascii_lowercase_def)

lemma length_to_ascii_lowercase [simp]: "length (to_ascii_lowercase s) = length s"
  by (simp add: to_ascii_lowercase_def)

lemma to_ascii_lowercase_append [rust_str]:
  "to_ascii_lowercase (a @ b) = to_ascii_lowercase a @ to_ascii_lowercase b"
  by (simp add: to_ascii_lowercase_def)

lemma sublist_map_mono: "sublist xs ys \<Longrightarrow> sublist (map f xs) (map f ys)"
  unfolding sublist_def by (metis map_append)

lemma str_contains_lowercase:
  "str_contains hay needle \<Longrightarrow>
     str_contains (to_ascii_lowercase hay) (to_ascii_lowercase needle)"
  by (simp add: str_contains_def to_ascii_lowercase_def sublist_map_mono)

lemma split_once_Some:
  "split_once d s = Some (a, b) \<longleftrightarrow> s = a @ d # b \<and> d \<notin> set a"
proof (induction s arbitrary: a)
  case Nil
  then show ?case by simp
next
  case (Cons c s)
  then show ?case by (cases a) auto
qed

lemma split_once_None: "split_once d s = None \<longleftrightarrow> d \<notin> set s"
  by (induction s) auto

lemma strip_prefix_Some [rust_str]: "strip_prefix p s = Some r \<longleftrightarrow> s = p @ r"
  by (induction p s rule: strip_prefix.induct) auto

lemma split_on_not_Nil [simp]: "split_on d s \<noteq> []"
  by (induction s) (auto split: list.splits)

lemma join_split: "join_with [d] (split_on d s) = s"
proof (induction s)
  case Nil
  then show ?case by simp
next
  case (Cons c s)
  obtain w ws where "split_on d s = w # ws"
    by (cases "split_on d s") auto
  with Cons show ?case by (cases ws) auto
qed

end
