(* ===== verification/Host_Policy.thy ===== *)
theory Host_Policy
  imports Prelude
begin

text \<open>
  \<open>crates/pingap-domainstate\<close>: the registered-host classification (\<open>HostPolicy\<close> of
  \<open>store.rs\<close>, the label of \<open>hosts.rs\<close>). The process-global policy is an argument; replacing it
  (\<open>set_registered_hosts\<close>) is building another one. The slot numbers keep their 32 bits,
  with \<open>u32::MAX\<close> the shared overflow slot.
\<close>

section \<open>Definitions\<close>

type_synonym slot = u32

definition OVERFLOW :: slot where
  "OVERFLOW = - 1"

definition OVERFLOW_NAME :: string where
  "OVERFLOW_NAME = ''<unregistered-host>''"

record host_policy =
  hp_names :: "string list"
  hp_index :: "(string \<times> slot) list"

definition is_overflow :: "slot \<Rightarrow> bool" where
  "is_overflow d \<longleftrightarrow> d = OVERFLOW"

definition normalise :: "string \<Rightarrow> string" where
  "normalise host =
     (let trimmed = str_trim host;
          without_port =
            (if CHR '']'' \<in> set trimmed
             then rev (dropWhile (\<lambda>c. c \<noteq> CHR '']'') (rev trimmed))
             else takeWhile (\<lambda>c. c \<noteq> CHR '':'') trimmed)
      in to_ascii_lowercase without_port)"

definition host_policy_add :: "host_policy \<Rightarrow> string \<Rightarrow> host_policy" where
  "host_policy_add p host =
     (let key = normalise host in
      if key = [] \<or> map_of (hp_index p) key \<noteq> None then p
      else p\<lparr>hp_names := hp_names p @ [key],
             hp_index := (key, word_of_nat (length (hp_names p))) # hp_index p\<rparr>)"

definition host_policy_new :: "string list \<Rightarrow> host_policy" where
  "host_policy_new hosts = foldl host_policy_add \<lparr>hp_names = [], hp_index = []\<rparr> hosts"

definition classify :: "host_policy \<Rightarrow> string \<Rightarrow> slot" where
  "classify p host =
     (case map_of (hp_index p) host of
        Some s \<Rightarrow> s
      | None \<Rightarrow> (case map_of (hp_index p) (normalise host) of Some s \<Rightarrow> s | None \<Rightarrow> OVERFLOW))"

definition registered :: "host_policy \<Rightarrow> usize" where
  "registered p = length (hp_names p)"

definition domain_name :: "host_policy \<Rightarrow> slot \<Rightarrow> string" where
  "domain_name p d =
     (if is_overflow d then OVERFLOW_NAME
      else if unat d < length (hp_names p) then hp_names p ! unat d else OVERFLOW_NAME)"

definition host_label :: "host_policy \<Rightarrow> string \<Rightarrow> string" where
  "host_label p host = domain_name p (classify p host)"

section \<open>The index and the names agree\<close>

definition policy_ok :: "host_policy \<Rightarrow> bool" where
  "policy_ok p \<longleftrightarrow>
     distinct (hp_names p) \<and> [] \<notin> set (hp_names p) \<and>
     (\<forall>k. map_of (hp_index p) k =
        (if k \<in> set (hp_names p)
         then Some (word_of_nat (length (takeWhile (\<lambda>n. n \<noteq> k) (hp_names p)))) else None))"

lemma takeWhile_neq_append:
  "takeWhile (\<lambda>n. n \<noteq> k) (xs @ [y]) =
     (if k \<in> set xs then takeWhile (\<lambda>n. n \<noteq> k) xs else if y = k then xs else xs @ [y])"
  by (induction xs) auto

lemma host_policy_add_ok:
  assumes "policy_ok p"
  shows "policy_ok (host_policy_add p host)"
    and "set (hp_names (host_policy_add p host)) = set (hp_names p) \<union> ({normalise host} - {[]})"
    and "length (hp_names (host_policy_add p host)) \<le> Suc (length (hp_names p))"
proof -
  show "policy_ok (host_policy_add p host)"
    using assms
    by (auto simp: policy_ok_def host_policy_add_def Let_def takeWhile_neq_append)
  show "set (hp_names (host_policy_add p host)) = set (hp_names p) \<union> ({normalise host} - {[]})"
    using assms
    by (auto simp: policy_ok_def host_policy_add_def Let_def split: if_splits)
  show "length (hp_names (host_policy_add p host)) \<le> Suc (length (hp_names p))"
    by (simp add: host_policy_add_def Let_def)
qed

lemma host_policy_fold:
  assumes "policy_ok p"
  shows "policy_ok (foldl host_policy_add p hosts) \<and>
    set (hp_names (foldl host_policy_add p hosts)) =
      set (hp_names p) \<union> (normalise ` set hosts - {[]}) \<and>
    length (hp_names (foldl host_policy_add p hosts)) \<le> length (hp_names p) + length hosts"
  using assms
proof (induction hosts arbitrary: p)
  case Nil
  then show ?case by simp
next
  case (Cons h hosts)
  from Cons.IH [OF host_policy_add_ok(1) [OF Cons.prems, of h]]
    host_policy_add_ok(2,3) [OF Cons.prems, of h]
  show ?case by auto
qed

lemma host_policy_new_ok:
  shows "policy_ok (host_policy_new hosts)"
    and "set (hp_names (host_policy_new hosts)) = normalise ` set hosts - {[]}"
    and "length (hp_names (host_policy_new hosts)) \<le> length hosts"
proof -
  have "policy_ok \<lparr>hp_names = [], hp_index = []\<rparr>" by (simp add: policy_ok_def)
  from host_policy_fold [OF this, of hosts]
  show "policy_ok (host_policy_new hosts)"
    and "set (hp_names (host_policy_new hosts)) = normalise ` set hosts - {[]}"
    and "length (hp_names (host_policy_new hosts)) \<le> length hosts"
    by (simp_all add: host_policy_new_def)
qed

lemma takeWhile_neq_nth:
  "k \<in> set xs \<Longrightarrow> length (takeWhile (\<lambda>n. n \<noteq> k) xs) < length xs \<and>
     xs ! length (takeWhile (\<lambda>n. n \<noteq> k) xs) = k"
  by (induction xs) auto

lemma domain_name_index:
  assumes ok: "policy_ok p" and len: "length (hp_names p) < 2 ^ 32 - 1"
    and ix: "map_of (hp_index p) k = Some s"
  shows "domain_name p s = k" and "\<not> is_overflow s"
proof -
  let ?i = "length (takeWhile (\<lambda>n. n \<noteq> k) (hp_names p))"
  from ok ix have k: "k \<in> set (hp_names p)" and s: "s = word_of_nat ?i"
    by (auto simp: policy_ok_def split: if_splits)
  from takeWhile_neq_nth [OF k] len have i: "?i < 2 ^ 32 - 1" "?i < length (hp_names p)"
    "hp_names p ! ?i = k" by auto
  then have u: "unat s = ?i"
    by (simp add: s unat_of_nat)
  have "unat (OVERFLOW :: slot) = 2 ^ 32 - 1"
    by (simp add: OVERFLOW_def unsigned_minus_1_eq_mask mask_eq_exp_minus_1)
  with u i show "\<not> is_overflow s" by (auto simp: is_overflow_def)
  with u i show "domain_name p s = k" by (simp add: domain_name_def)
qed

lemma domain_name_OVERFLOW [simp]: "domain_name p OVERFLOW = OVERFLOW_NAME"
  by (simp add: domain_name_def is_overflow_def)

lemma host_label_cases:
  assumes "policy_ok p" and "length (hp_names p) < 2 ^ 32 - 1"
  shows "host_label p host =
     (if host \<in> set (hp_names p) then host
      else if normalise host \<in> set (hp_names p) then normalise host
      else OVERFLOW_NAME)"
proof -
  have ix: "map_of (hp_index p) k \<noteq> None \<longleftrightarrow> k \<in> set (hp_names p)" for k
    using assms(1) by (auto simp: policy_ok_def)
  show ?thesis
    using ix [of host] ix [of "normalise host"] domain_name_index(1) [OF assms]
    by (auto simp: host_label_def classify_def split: option.splits)
qed

end
