(* ===== verification/Scoped_Store.thy ===== *)
theory Scoped_Store
  imports Host_Policy "HOL-Library.AList"
begin

text \<open>
  \<open>crates/pingap-domainstate/src/store.rs\<close>: the bounded, domain-keyed, expiring container
  every stateful control keeps its entries in. One operation is one lock hold in the source,
  so it is one function on the store here; the clock reading is an argument. A \<open>HashMap\<close> is an
  association list with distinct keys.
\<close>

section \<open>The container\<close>

type_synonym millis = nat

datatype Full = Domains | Entries

record 'v entry =
  e_value :: 'v
  e_expires_at :: millis

record 'v bucket =
  b_entries :: "(string \<times> 'v entry) list"
  b_earliest :: "millis option"

record limits =
  max_domains :: usize
  max_entries_per_domain :: usize

record counters =
  overflow_ops :: u64
  domain_saturation :: u64
  entry_saturation :: u64
  expired_reclaimed :: u64

record 'v store =
  st_hosts :: host_policy
  st_limits :: limits
  st_counters :: counters
  st_domains :: "(slot \<times> 'v bucket) list"
  st_overflow :: "'v bucket"

definition limits_default :: limits where
  "limits_default = \<lparr>max_domains = 256, max_entries_per_domain = 5000\<rparr>"

definition counters_zero :: counters where
  "counters_zero = \<lparr>overflow_ops = 0, domain_saturation = 0, entry_saturation = 0,
     expired_reclaimed = 0\<rparr>"

definition bucket_default :: "'v bucket" where
  "bucket_default = \<lparr>b_entries = [], b_earliest = None\<rparr>"

definition with_clock :: "host_policy \<Rightarrow> limits \<Rightarrow> 'v store" where
  "with_clock hosts limits =
     \<lparr>st_hosts = hosts, st_limits = limits, st_counters = counters_zero,
      st_domains = [], st_overflow = bucket_default\<rparr>"

section \<open>Helpers\<close>

definition live_entry :: "millis \<Rightarrow> 'v entry \<Rightarrow> bool" where
  "live_entry now e \<longleftrightarrow> now < e_expires_at e"

definition reclaim :: "(string \<times> 'v entry) list \<Rightarrow> millis \<Rightarrow> (string \<times> 'v entry) list" where
  "reclaim es now = filter (\<lambda>(k, e). live_entry now e) es"

definition reclaimed_count :: "(string \<times> 'v entry) list \<Rightarrow> millis \<Rightarrow> nat" where
  "reclaimed_count es now = length es - length (reclaim es now)"

definition min_expiry :: "(string \<times> 'v entry) list \<Rightarrow> millis option" where
  "min_expiry es = (if es = [] then None else Some (Min (set (map (e_expires_at \<circ> snd) es))))"

definition duration_ms :: "nat \<Rightarrow> millis" where
  "duration_ms ttl = min ttl u64_max"

definition bump_expired :: "'v store \<Rightarrow> nat \<Rightarrow> 'v store" where
  "bump_expired s n = s\<lparr>st_counters :=
     (st_counters s)\<lparr>expired_reclaimed := expired_reclaimed (st_counters s) + word_of_nat n\<rparr>\<rparr>"

definition note_overflow :: "'v store \<Rightarrow> slot \<Rightarrow> 'v store" where
  "note_overflow s d =
     (if is_overflow d
      then s\<lparr>st_counters := (st_counters s)\<lparr>overflow_ops := overflow_ops (st_counters s) + 1\<rparr>\<rparr>
      else s)"

definition peek :: "'v store \<Rightarrow> slot \<Rightarrow> 'v bucket option" where
  "peek s d = (if is_overflow d then Some (st_overflow s) else map_of (st_domains s) d)"

definition put_bucket :: "'v store \<Rightarrow> slot \<Rightarrow> 'v bucket \<Rightarrow> 'v store" where
  "put_bucket s d b =
     (if is_overflow d then s\<lparr>st_overflow := b\<rparr>
      else s\<lparr>st_domains := AList.update d b (st_domains s)\<rparr>)"

definition admit :: "'v store \<Rightarrow> slot \<Rightarrow> ('v bucket, Full) result \<times> 'v store" where
  "admit s d =
     (if is_overflow d then (Ok (st_overflow s), s)
      else (let at_cap = max_domains (st_limits s) \<le> length (st_domains s) in
            case map_of (st_domains s) d of
              Some b \<Rightarrow> (Ok b, s)
            | None \<Rightarrow>
                if at_cap
                then (Err Domains, s\<lparr>st_counters := (st_counters s)\<lparr>domain_saturation :=
                        domain_saturation (st_counters s) + 1\<rparr>\<rparr>)
                else (Ok bucket_default, put_bucket s d bucket_default)))"

definition drop_if_empty :: "'v store \<Rightarrow> slot \<Rightarrow> 'v store" where
  "drop_if_empty s d =
     (if is_overflow d then s
      else (case map_of (st_domains s) d of
              Some b \<Rightarrow> if b_entries b = [] then s\<lparr>st_domains := AList.delete d (st_domains s)\<rparr> else s
            | None \<Rightarrow> s))"

text \<open>The reclaim every reader runs when the entry it looked up had expired.\<close>

definition sweep :: "millis \<Rightarrow> 'v store \<Rightarrow> slot \<Rightarrow> 'v bucket \<Rightarrow> 'v store" where
  "sweep now s d b =
     drop_if_empty
       (bump_expired
          (put_bucket s d (b\<lparr>b_entries := reclaim (b_entries b) now,
                             b_earliest := min_expiry (reclaim (b_entries b) now)\<rparr>))
          (reclaimed_count (b_entries b) now)) d"

definition expired_at :: "millis \<Rightarrow> 'v bucket \<Rightarrow> string \<Rightarrow> bool" where
  "expired_at now b identity =
     (case map_of (b_entries b) identity of Some e \<Rightarrow> e_expires_at e \<le> now | None \<Rightarrow> False)"

definition found_at :: "millis \<Rightarrow> 'v bucket \<Rightarrow> string \<Rightarrow> 'v entry option" where
  "found_at now b identity =
     (case map_of (b_entries b) identity of
        Some e \<Rightarrow> if now < e_expires_at e then Some e else None
      | None \<Rightarrow> None)"

section \<open>Operations\<close>

definition store_insert ::
  "millis \<Rightarrow> 'v store \<Rightarrow> slot \<Rightarrow> string \<Rightarrow> 'v \<Rightarrow> nat \<Rightarrow> (unit, Full) result \<times> 'v store" where
  "store_insert now s0 d identity v ttl =
     (let s = note_overflow s0 d;
          expires_at = sat_add_u64 now (duration_ms ttl) in
      case admit s d of
        (Err e, s) \<Rightarrow> (Err e, s)
      | (Ok b, s) \<Rightarrow>
          (let refreshing = map_of (b_entries b) identity \<noteq> None;
               b = b\<lparr>b_entries := AList.delete identity (b_entries b)\<rparr>;
               cap = max_entries_per_domain (st_limits s);
               full = \<not> refreshing \<and> cap \<le> length (b_entries b);
               scan = (case b_earliest b of None \<Rightarrow> True | Some earliest \<Rightarrow> earliest \<le> now);
               b' = (if full \<and> scan
                     then b\<lparr>b_entries := reclaim (b_entries b) now,
                            b_earliest := min_expiry (reclaim (b_entries b) now)\<rparr>
                     else b);
               s = (if full \<and> scan then bump_expired s (reclaimed_count (b_entries b) now) else s) in
           if full \<and> cap \<le> length (b_entries b')
           then (Err Entries,
                 put_bucket (s\<lparr>st_counters := (st_counters s)\<lparr>entry_saturation :=
                   entry_saturation (st_counters s) + 1\<rparr>\<rparr>) d b')
           else (Ok (),
                 put_bucket s d
                   (b'\<lparr>b_earliest := Some (case b_earliest b' of
                         None \<Rightarrow> expires_at | Some earliest \<Rightarrow> min earliest expires_at),
                       b_entries := AList.update identity
                         \<lparr>e_value = v, e_expires_at = expires_at\<rparr> (b_entries b')\<rparr>))))"

definition store_with ::
  "millis \<Rightarrow> 'v store \<Rightarrow> slot \<Rightarrow> string \<Rightarrow> ('v \<Rightarrow> 'r) \<Rightarrow> 'r option \<times> 'v store" where
  "store_with now s0 d identity read =
     (let s = note_overflow s0 d in
      case peek s d of
        None \<Rightarrow> (None, s)
      | Some b \<Rightarrow>
          (map_option (\<lambda>e. read (e_value e)) (found_at now b identity),
           if expired_at now b identity then sweep now s d b else s))"

definition store_get :: "millis \<Rightarrow> 'v store \<Rightarrow> slot \<Rightarrow> string \<Rightarrow> 'v option \<times> 'v store" where
  "store_get now s d identity = store_with now s d identity (\<lambda>v. v)"

definition store_update ::
  "millis \<Rightarrow> 'v store \<Rightarrow> slot \<Rightarrow> string \<Rightarrow> ('v \<Rightarrow> 'r \<times> 'v) \<Rightarrow> 'r option \<times> 'v store" where
  "store_update now s0 d identity change =
     (let s = note_overflow s0 d in
      case peek s d of
        None \<Rightarrow> (None, s)
      | Some b \<Rightarrow>
          (case found_at now b identity of
             Some e \<Rightarrow>
               (Some (fst (change (e_value e))),
                put_bucket s d (b\<lparr>b_entries := AList.update identity
                  (e\<lparr>e_value := snd (change (e_value e))\<rparr>) (b_entries b)\<rparr>))
           | None \<Rightarrow> (None, if expired_at now b identity then sweep now s d b else s)))"

definition store_remove :: "millis \<Rightarrow> 'v store \<Rightarrow> slot \<Rightarrow> string \<Rightarrow> 'v option \<times> 'v store" where
  "store_remove now s0 d identity =
     (let s = note_overflow s0 d in
      case peek s d of
        None \<Rightarrow> (None, s)
      | Some b \<Rightarrow>
          (let s' = put_bucket s d (b\<lparr>b_entries := AList.delete identity (b_entries b)\<rparr>) in
           case map_of (b_entries b) identity of
             Some e \<Rightarrow>
               if now < e_expires_at e then (Some (e_value e), drop_if_empty s' d)
               else (None, drop_if_empty (bump_expired s' 1) d)
           | None \<Rightarrow> (None, drop_if_empty s' d)))"

definition store_contains :: "millis \<Rightarrow> 'v store \<Rightarrow> slot \<Rightarrow> string \<Rightarrow> bool \<times> 'v store" where
  "store_contains now s0 d identity =
     (let s = note_overflow s0 d in
      case peek s d of
        None \<Rightarrow> (False, s)
      | Some b \<Rightarrow>
          (found_at now b identity \<noteq> None,
           if expired_at now b identity then sweep now s d b else s))"

definition store_entries :: "millis \<Rightarrow> 'v store \<Rightarrow> slot \<Rightarrow> usize \<times> 'v store" where
  "store_entries now s0 d =
     (let s = note_overflow s0 d in
      case peek s d of
        None \<Rightarrow> (0, s)
      | Some b \<Rightarrow>
          (length (reclaim (b_entries b) now),
           drop_if_empty
             (bump_expired (put_bucket s d (b\<lparr>b_entries := reclaim (b_entries b) now\<rparr>))
                (reclaimed_count (b_entries b) now)) d))"

definition domains_live :: "'v store \<Rightarrow> usize" where
  "domains_live s = length (st_domains s)"

definition sweep_bucket :: "millis \<Rightarrow> 'v bucket \<Rightarrow> 'v bucket" where
  "sweep_bucket now b =
     b\<lparr>b_entries := reclaim (b_entries b) now,
       b_earliest := min_expiry (reclaim (b_entries b) now)\<rparr>"

definition store_total_entries :: "millis \<Rightarrow> 'v store \<Rightarrow> usize \<times> 'v store" where
  "store_total_entries now s =
     (let ovf = sweep_bucket now (st_overflow s);
          is_dead = (\<lambda>(sl :: slot, b :: 'v bucket). list_all (\<lambda>(_, e). e_expires_at e \<le> now) (b_entries b));
          dead = filter is_dead (st_domains s);
          kept = filter (Not \<circ> is_dead) (st_domains s);
          kept' = map (apsnd (sweep_bucket now)) kept;
          reclaimed = reclaimed_count (b_entries (st_overflow s)) now
            + sum_list (map (\<lambda>(_, b). length (b_entries b)) dead)
            + sum_list (map (\<lambda>(_, b). reclaimed_count (b_entries b) now) kept)
      in (length (b_entries ovf) + sum_list (map (\<lambda>(_, b). length (b_entries b)) kept'),
          bump_expired (s\<lparr>st_overflow := ovf, st_domains := kept'\<rparr>) reclaimed))"

definition store_visit :: "millis \<Rightarrow> 'v store \<Rightarrow> slot \<Rightarrow> (string \<times> 'v) list" where
  "store_visit now s d =
     (case peek s d of
        None \<Rightarrow> []
      | Some b \<Rightarrow> map (\<lambda>(k, e). (k, e_value e)) (filter (\<lambda>(k, e). now < e_expires_at e) (b_entries b)))"

fun retain_entries ::
  "millis \<Rightarrow> (string \<Rightarrow> 'v \<Rightarrow> bool \<times> 'v) \<Rightarrow> (string \<times> 'v entry) list \<Rightarrow> (string \<times> 'v entry) list" where
  "retain_entries now keep [] = []"
| "retain_entries now keep ((k, e) # es) =
     (if now < e_expires_at e \<and> fst (keep k (e_value e))
      then (k, e\<lparr>e_value := snd (keep k (e_value e))\<rparr>) # retain_entries now keep es
      else retain_entries now keep es)"

definition store_retain ::
  "millis \<Rightarrow> 'v store \<Rightarrow> slot \<Rightarrow> (string \<Rightarrow> 'v \<Rightarrow> bool \<times> 'v) \<Rightarrow> 'v store" where
  "store_retain now s d keep =
     (case peek s d of
        None \<Rightarrow> drop_if_empty s d
      | Some b \<Rightarrow>
          (let es = retain_entries now keep (b_entries b) in
           drop_if_empty (put_bucket s d (b\<lparr>b_entries := es, b_earliest := min_expiry es\<rparr>)) d))"

end
