(* ===== verification/Scoped_Store_Inv.thy ===== *)
theory Scoped_Store_Inv
  imports Scoped_Store
begin

text \<open>
  What the container guarantees: the bounds and the one-sided expiry guard are an
  invariant of every operation, and seen through its accessors (\<open>view\<close>) the container is
  an ordinary map from (domain, identity) to payloads that forgets an entry at its deadline.
\<close>

section \<open>Association lists\<close>

lemma length_update:
  "length (AList.update k v al) = (if map_of al k = None then Suc (length al) else length al)"
  by (induction al) auto

lemma map_of_filter_distinct:
  "distinct (map fst al) \<Longrightarrow>
     map_of (filter P al) k = (case map_of al k of Some v \<Rightarrow> if P (k, v) then Some v else None | None \<Rightarrow> None)"
proof (induction al)
  case (Cons a al)
  have "map_of (filter P al) (fst a) = None"
    using Cons.prems by (auto simp: map_of_eq_None_iff)
  with Cons show ?case by (cases a) (auto simp: map_of_eq_None_iff)
qed simp

lemma distinct_map_filter_fst: "distinct (map fst al) \<Longrightarrow> distinct (map fst (filter P al))"
  by (induction al) auto

lemma set_delete_subset: "set (AList.delete k al) \<subseteq> set al"
  by (auto simp: AList.delete_eq)

lemma set_update_subset: "set (AList.update k v al) \<subseteq> insert (k, v) (set al)"
  by (induction al) auto

section \<open>The invariant\<close>

definition bucket_ok :: "usize \<Rightarrow> 'v bucket \<Rightarrow> bool" where
  "bucket_ok cap b \<longleftrightarrow>
     distinct (map fst (b_entries b)) \<and> length (b_entries b) \<le> cap \<and>
     (\<forall>(k, e)\<in>set (b_entries b). \<exists>m. b_earliest b = Some m \<and> m \<le> e_expires_at e)"

definition store_cap :: "'v store \<Rightarrow> usize" where
  "store_cap s = max_entries_per_domain (st_limits s)"

definition store_ok :: "'v store \<Rightarrow> bool" where
  "store_ok s \<longleftrightarrow>
     distinct (map fst (st_domains s)) \<and> map_of (st_domains s) OVERFLOW = None \<and>
     length (st_domains s) \<le> max_domains (st_limits s) \<and>
     (\<forall>d b. map_of (st_domains s) d = Some b \<longrightarrow> bucket_ok (store_cap s) b) \<and>
     bucket_ok (store_cap s) (st_overflow s)"

definition view :: "'v store \<Rightarrow> millis \<Rightarrow> slot \<Rightarrow> string \<Rightarrow> 'v option" where
  "view s now d identity =
     (case peek s d of None \<Rightarrow> None | Some b \<Rightarrow> map_option e_value (found_at now b identity))"

definition store_bucket :: "'v store \<Rightarrow> slot \<Rightarrow> 'v bucket" where
  "store_bucket s d = (case peek s d of Some b \<Rightarrow> b | None \<Rightarrow> bucket_default)"

lemma with_clock_ok: "store_ok (with_clock hosts limits)"
  by (simp add: store_ok_def with_clock_def bucket_ok_def bucket_default_def)

lemma min_expiry_le: "(k, e) \<in> set es \<Longrightarrow> \<exists>m. min_expiry es = Some m \<and> m \<le> e_expires_at e"
  by (force simp: min_expiry_def intro: Min_le)

lemma bucket_ok_default [simp]: "bucket_ok cap bucket_default"
  by (simp add: bucket_ok_def bucket_default_def)

lemma length_reclaim_le: "length (reclaim es now) \<le> length es"
  by (simp add: reclaim_def)

lemma set_reclaim: "set (reclaim es now) = {(k, e). (k, e) \<in> set es \<and> live_entry now e}"
  by (auto simp: reclaim_def)

lemma distinct_reclaim: "distinct (map fst es) \<Longrightarrow> distinct (map fst (reclaim es now))"
  by (simp add: reclaim_def distinct_map_filter_fst)

lemma bucket_ok_sweep:
  assumes "bucket_ok cap b"
  shows "bucket_ok cap (sweep_bucket now b)"
proof -
  have "\<forall>(k, e)\<in>set (reclaim (b_entries b) now).
      \<exists>m. min_expiry (reclaim (b_entries b) now) = Some m \<and> m \<le> e_expires_at e"
    using min_expiry_le by fast
  with assms length_reclaim_le [of "b_entries b" now] show ?thesis
    by (simp add: bucket_ok_def sweep_bucket_def distinct_reclaim)
qed

lemma bucket_ok_delete:
  "bucket_ok cap b \<Longrightarrow> bucket_ok cap (b\<lparr>b_entries := AList.delete k (b_entries b)\<rparr>)"
  using AList.length_delete_le [of k "b_entries b"] set_delete_subset [of k "b_entries b"]
  by (auto simp: bucket_ok_def AList.distinct_delete)

lemma bucket_ok_reclaim:
  "bucket_ok cap b \<Longrightarrow> bucket_ok cap (b\<lparr>b_entries := reclaim (b_entries b) now\<rparr>)"
  using length_reclaim_le [of "b_entries b" now]
  by (auto simp: bucket_ok_def distinct_reclaim set_reclaim)

lemma bucket_ok_insert:
  assumes "bucket_ok cap b" and "map_of (b_entries b) k \<noteq> None \<or> length (b_entries b) < cap"
  shows "bucket_ok cap (b\<lparr>b_earliest := Some (case b_earliest b of None \<Rightarrow> x | Some m \<Rightarrow> min m x),
     b_entries := AList.update k \<lparr>e_value = v, e_expires_at = x\<rparr> (b_entries b)\<rparr>)"
  using assms set_update_subset [of k "\<lparr>e_value = v, e_expires_at = x\<rparr>" "b_entries b"]
  by (fastforce simp: bucket_ok_def AList.distinct_update length_update split: option.splits)

section \<open>Reading through the helpers\<close>

lemma peek_put_bucket: "peek (put_bucket s d b) d' = (if d' = d then Some b else peek s d')"
  by (auto simp: peek_def put_bucket_def is_overflow_def AList.update_conv')

lemma peek_note_overflow [simp]: "peek (note_overflow s d) = peek s"
  by (simp add: fun_eq_iff peek_def note_overflow_def)

lemma peek_bump_expired [simp]: "peek (bump_expired s n) = peek s"
  by (simp add: fun_eq_iff peek_def bump_expired_def)

lemma view_note_overflow [simp]: "view (note_overflow s d) = view s"
  and view_bump_expired [simp]: "view (bump_expired s n) = view s"
  by (simp_all add: fun_eq_iff view_def)

lemma peek_counters [simp]: "peek (s\<lparr>st_counters := c\<rparr>) = peek s"
  by (simp add: fun_eq_iff peek_def)

lemma view_put_bucket:
  "view (put_bucket s d b) now d' i =
     (if d' = d then map_option e_value (found_at now b i) else view s now d' i)"
  by (simp add: view_def peek_put_bucket)

lemma view_drop_if_empty [simp]: "view (drop_if_empty s d) now d' i = view s now d' i"
proof (cases "\<not> is_overflow d \<and> (\<exists>b. map_of (st_domains s) d = Some b \<and> b_entries b = [])")
  case True
  then have "drop_if_empty s d = s\<lparr>st_domains := AList.delete d (st_domains s)\<rparr>"
    by (auto simp: drop_if_empty_def)
  with True show ?thesis
    by (auto simp: view_def peek_def AList.delete_conv' found_at_def split: option.splits)
next
  case False
  then have "drop_if_empty s d = s"
    by (auto simp: drop_if_empty_def split: option.splits)
  then show ?thesis by simp
qed

lemma found_at_reclaim:
  "bucket_ok cap b \<Longrightarrow> now \<le> now' \<Longrightarrow>
     found_at now' (b\<lparr>b_entries := reclaim (b_entries b) now, b_earliest := m\<rparr>) i = found_at now' b i"
  by (auto simp: found_at_def reclaim_def bucket_ok_def map_of_filter_distinct live_entry_def
      split: option.splits)

lemma found_at_reclaim':
  "bucket_ok cap b \<Longrightarrow> now \<le> now' \<Longrightarrow>
     found_at now' (b\<lparr>b_entries := reclaim (b_entries b) now\<rparr>) i = found_at now' b i"
  by (auto simp: found_at_def reclaim_def bucket_ok_def map_of_filter_distinct live_entry_def
      split: option.splits)

section \<open>Every helper keeps the invariant\<close>

lemma store_ok_peek: "store_ok s \<Longrightarrow> peek s d = Some b \<Longrightarrow> bucket_ok (store_cap s) b"
  by (auto simp: store_ok_def peek_def split: if_splits dest!: map_of_SomeD)

lemma store_ok_counters: "store_ok (s\<lparr>st_counters := c\<rparr>) = store_ok s"
  by (simp add: store_ok_def store_cap_def)

lemma store_ok_note_overflow: "store_ok (note_overflow s d) = store_ok s"
  and store_ok_bump_expired: "store_ok (bump_expired s n) = store_ok s"
  by (simp_all add: note_overflow_def bump_expired_def store_ok_counters)

lemma limits_helpers [simp]:
  "st_limits (note_overflow s d) = st_limits s" "st_limits (bump_expired s n) = st_limits s"
  "st_limits (put_bucket s d b) = st_limits s" "st_limits (drop_if_empty s d) = st_limits s"
  by (simp_all add: note_overflow_def bump_expired_def put_bucket_def drop_if_empty_def
      split: option.splits)

lemma store_ok_put_bucket:
  assumes "store_ok s" and "bucket_ok (store_cap s) b"
    and "peek s d \<noteq> None \<or> length (st_domains s) < max_domains (st_limits s)"
  shows "store_ok (put_bucket s d b)"
proof (cases "is_overflow d")
  case True
  with assms show ?thesis
    by (simp add: put_bucket_def store_ok_def store_cap_def)
next
  case False
  with assms show ?thesis
    by (auto simp: put_bucket_def store_ok_def store_cap_def is_overflow_def length_update
        AList.distinct_update AList.update_conv' peek_def)
qed

lemma store_ok_drop_if_empty: "store_ok s \<Longrightarrow> store_ok (drop_if_empty s d)"
  using AList.length_delete_le [of d "st_domains s"]
  by (auto simp: drop_if_empty_def store_ok_def store_cap_def AList.distinct_delete AList.delete_conv'
      simp del: map_of_eq_Some_iff split: option.splits if_splits)

lemma store_ok_sweep:
  assumes "store_ok s" and "peek s d = Some b"
  shows "store_ok (sweep now s d b)"
proof -
  from store_ok_peek [OF assms] have "bucket_ok (store_cap s) b" .
  from bucket_ok_sweep [OF this, of now]
  have "store_ok (put_bucket s d (b\<lparr>b_entries := reclaim (b_entries b) now,
      b_earliest := min_expiry (reclaim (b_entries b) now)\<rparr>))"
    using assms by (intro store_ok_put_bucket) (auto simp: sweep_bucket_def)
  then show ?thesis
    by (simp add: sweep_def store_ok_drop_if_empty store_ok_bump_expired)
qed

lemma view_sweep:
  assumes "store_ok s" and "peek s d = Some b" and "now \<le> now'"
  shows "view (sweep now s d b) now' d' i = view s now' d' i"
  using found_at_reclaim [OF store_ok_peek [OF assms(1,2)] assms(3)] assms(2)
  by (auto simp: sweep_def view_put_bucket view_def [of s])

lemma admit_cases:
  "admit s d = (Ok b, s') \<longleftrightarrow>
     peek s d = Some b \<and> s' = s \<or>
     peek s d = None \<and> length (st_domains s) < max_domains (st_limits s) \<and>
     b = bucket_default \<and> s' = put_bucket s d bucket_default"
  by (auto simp: admit_def Let_def peek_def split: option.splits)

lemma admit_Ok:
  assumes "store_ok s" and "admit s d = (Ok b, s')"
  shows "store_ok s'" and "peek s' d = Some b" and "b = store_bucket s d"
    and "st_limits s' = st_limits s" and "view s' now' d' i = view s now' d' i"
    and "bucket_ok (store_cap s) b"
proof -
  from assms(2) consider (old) "peek s d = Some b" "s' = s"
    | (new) "peek s d = None" "length (st_domains s) < max_domains (st_limits s)"
        "b = bucket_default" "s' = put_bucket s d bucket_default"
    by (auto simp: admit_cases)
  then have "store_ok s' \<and> peek s' d = Some b \<and> b = store_bucket s d \<and>
    st_limits s' = st_limits s \<and> view s' now' d' i = view s now' d' i \<and> bucket_ok (store_cap s) b"
  proof cases
    case old
    with assms(1) show ?thesis by (simp add: store_bucket_def store_ok_peek)
  next
    case new
    with assms(1) show ?thesis
      by (auto simp: store_bucket_def peek_put_bucket view_put_bucket view_def [of s] found_at_def
          bucket_default_def [symmetric] intro!: store_ok_put_bucket)
        (simp add: bucket_default_def)
  qed
  then show "store_ok s'" "peek s' d = Some b" "b = store_bucket s d" "st_limits s' = st_limits s"
    "view s' now' d' i = view s now' d' i" "bucket_ok (store_cap s) b" by blast+
qed

lemma admit_Err:
  assumes "admit s d = (Err e, s')"
  shows "e = Domains" and "store_ok s' = store_ok s" and "view s' = view s"
    and "\<not> is_overflow d" and "peek s d = None" and "max_domains (st_limits s) \<le> length (st_domains s)"
    and "st_domains s' = st_domains s" and "st_limits s' = st_limits s"
  using assms
  by (auto simp: admit_def Let_def store_ok_counters view_def fun_eq_iff peek_def
      split: if_splits option.splits)

end
