(* ===== verification/Scoped_Store_Ops.thy ===== *)
theory Scoped_Store_Ops
  imports Scoped_Store_Inv
begin

text \<open>
  The operations of the container over the invariant and the view: what each returns, what it
  leaves, when an insert is refused, and that no operation reaches another domain's entries.
\<close>

section \<open>Insert, on one bucket\<close>

definition live_count :: "millis \<Rightarrow> 'v bucket \<Rightarrow> usize" where
  "live_count now b = length (reclaim (b_entries b) now)"

definition reclaim_if :: "bool \<Rightarrow> millis \<Rightarrow> 'v bucket \<Rightarrow> 'v bucket" where
  "reclaim_if p now b = (if p then sweep_bucket now b else b)"

definition absent_full :: "usize \<Rightarrow> 'v bucket \<Rightarrow> string \<Rightarrow> bool" where
  "absent_full cap b i \<longleftrightarrow>
     map_of (b_entries b) i = None \<and> cap \<le> length (AList.delete i (b_entries b))"

definition may_reclaim :: "millis \<Rightarrow> 'v bucket \<Rightarrow> bool" where
  "may_reclaim now b = (case b_earliest b of None \<Rightarrow> True | Some m \<Rightarrow> m \<le> now)"

lemma may_reclaim_entries [simp]: "may_reclaim now (b\<lparr>b_entries := es\<rparr>) = may_reclaim now b"
  by (simp add: may_reclaim_def)

definition make_room :: "usize \<Rightarrow> millis \<Rightarrow> 'v bucket \<Rightarrow> string \<Rightarrow> 'v bucket" where
  "make_room cap now b i =
     reclaim_if (absent_full cap b i \<and> may_reclaim now b) now
       (b\<lparr>b_entries := AList.delete i (b_entries b)\<rparr>)"

definition room_refused :: "usize \<Rightarrow> millis \<Rightarrow> 'v bucket \<Rightarrow> string \<Rightarrow> bool" where
  "room_refused cap now b i \<longleftrightarrow>
     absent_full cap b i \<and> cap \<le> length (b_entries (make_room cap now b i))"

definition put_entry :: "'v bucket \<Rightarrow> string \<Rightarrow> 'v \<Rightarrow> millis \<Rightarrow> 'v bucket" where
  "put_entry b i v x =
     b\<lparr>b_earliest := Some (case b_earliest b of None \<Rightarrow> x | Some m \<Rightarrow> min m x),
       b_entries := AList.update i \<lparr>e_value = v, e_expires_at = x\<rparr> (b_entries b)\<rparr>"

lemma ex_counters:
  "\<exists>c. put_bucket (s\<lparr>st_counters := c0\<rparr>) d b = put_bucket (s\<lparr>st_counters := c\<rparr>) d b"
  "\<exists>c. put_bucket s d b = put_bucket (s\<lparr>st_counters := c\<rparr>) d b"
  by (blast, rule exI [where x = "st_counters s"], simp)

lemma store_insert_shape:
  assumes "admit (note_overflow s d) d = (Ok b, s1)"
    and "x = sat_add_u64 now (duration_ms ttl)"
  shows "if room_refused (store_cap s1) now b i
    then \<exists>c. store_insert now s d i v ttl =
      (Err Entries, put_bucket (s1\<lparr>st_counters := c\<rparr>) d (make_room (store_cap s1) now b i))
    else \<exists>c. store_insert now s d i v ttl =
      (Ok (), put_bucket (s1\<lparr>st_counters := c\<rparr>) d (put_entry (make_room (store_cap s1) now b i) i v x))"
proof (cases "map_of (b_entries b) i = None \<and> store_cap s1 \<le> length (AList.delete i (b_entries b))")
  case True
  show ?thesis
    by (cases "may_reclaim now b")
      (simp_all add: True [unfolded store_cap_def] room_refused_def absent_full_def make_room_def
        reclaim_if_def sweep_bucket_def put_entry_def store_insert_def assms Let_def store_cap_def
        bump_expired_def may_reclaim_def [symmetric] ex_counters)
next
  case False
  then have "\<not> absent_full (store_cap s1) b i"
    by (simp add: absent_full_def)
  with False show ?thesis
    by (auto simp: room_refused_def make_room_def reclaim_if_def put_entry_def store_insert_def
        assms Let_def store_cap_def ex_counters)
qed

lemma delete_absent: "map_of al k = None \<Longrightarrow> AList.delete k al = al"
  by (simp add: map_of_eq_None_iff AList.delete_idem)

lemma reclaim_all_live:
  assumes "bucket_ok cap b" and "\<not> may_reclaim now b"
  shows "reclaim (b_entries b) now = b_entries b"
proof -
  from assms(2) obtain m where m: "b_earliest b = Some m" "now < m"
    by (auto simp: may_reclaim_def split: option.splits)
  have "now < e_expires_at e" if "(k, e) \<in> set (b_entries b)" for k e
    using assms(1) that m by (fastforce simp: bucket_ok_def)
  then show ?thesis by (auto simp: reclaim_def live_entry_def intro!: filter_True)
qed

lemma room_refused_iff:
  assumes "bucket_ok cap b"
  shows "room_refused cap now b i \<longleftrightarrow> map_of (b_entries b) i = None \<and> cap \<le> live_count now b"
proof (cases "map_of (b_entries b) i = None")
  case True
  have le: "live_count now b \<le> length (b_entries b)"
    by (simp add: live_count_def length_reclaim_le)
  have "room_refused cap now b i \<longleftrightarrow> cap \<le> length (b_entries b) \<and>
      cap \<le> (if may_reclaim now b then live_count now b else length (b_entries b))"
    by (auto simp: room_refused_def absent_full_def make_room_def reclaim_if_def sweep_bucket_def
        live_count_def True delete_absent)
  also have "\<dots> \<longleftrightarrow> cap \<le> live_count now b"
    using le reclaim_all_live [OF assms, of now] by (auto simp: live_count_def)
  finally show ?thesis using True by simp
qed (auto simp: room_refused_def absent_full_def)

lemma bucket_ok_reclaim_if: "bucket_ok cap b \<Longrightarrow> bucket_ok cap (reclaim_if p now b)"
  by (simp add: reclaim_if_def bucket_ok_sweep)

lemma bucket_ok_make_room: "bucket_ok cap b \<Longrightarrow> bucket_ok cap (make_room cap now b i)"
  unfolding make_room_def by (intro bucket_ok_reclaim_if bucket_ok_delete)

lemma length_delete_present:
  assumes "map_of al k \<noteq> None"
  shows "length (AList.delete k al) < length al"
proof -
  from assms obtain v where "(k, v) \<in> set al" by (auto dest: map_of_SomeD)
  then show ?thesis
    unfolding AList.delete_eq by (rule length_filter_less) simp
qed

lemma length_make_room:
  assumes "bucket_ok cap b" and "\<not> room_refused cap now b i"
  shows "length (b_entries (make_room cap now b i)) < cap"
proof (cases "absent_full cap b i")
  case True
  with assms(2) show ?thesis by (simp add: room_refused_def)
next
  case False
  then have "length (b_entries (make_room cap now b i)) = length (AList.delete i (b_entries b))"
    by (simp add: make_room_def reclaim_if_def)
  moreover from assms(1) False length_delete_present [of "b_entries b" i]
  have "length (AList.delete i (b_entries b)) < cap"
    by (fastforce simp: absent_full_def bucket_ok_def)
  ultimately show ?thesis by simp
qed

lemma bucket_ok_put_entry:
  "bucket_ok cap b \<Longrightarrow> length (b_entries b) < cap \<Longrightarrow> bucket_ok cap (put_entry b i v x)"
  unfolding put_entry_def by (rule bucket_ok_insert) simp_all

lemma found_at_reclaim_if:
  "bucket_ok cap b \<Longrightarrow> now \<le> now' \<Longrightarrow> found_at now' (reclaim_if p now b) k = found_at now' b k"
  by (simp add: reclaim_if_def sweep_bucket_def found_at_reclaim)

lemma found_at_update:
  "found_at now (b\<lparr>b_earliest := m, b_entries := AList.update i e (b_entries b)\<rparr>) k =
     (if k = i then (if now < e_expires_at e then Some e else None) else found_at now b k)"
  by (simp add: found_at_def AList.update_conv')

lemma found_at_delete:
  "found_at now (b\<lparr>b_entries := AList.delete i (b_entries b)\<rparr>) k =
     (if k = i then None else found_at now b k)"
  by (simp add: found_at_def AList.delete_conv')

lemma found_at_put_entry:
  "found_at now (put_entry b i v x) k =
     (if k = i then (if now < x then Some \<lparr>e_value = v, e_expires_at = x\<rparr> else None)
      else found_at now b k)"
  by (simp add: put_entry_def found_at_update)

lemma found_at_make_room:
  assumes "bucket_ok cap b" and "now \<le> now'"
  shows "found_at now' (make_room cap now b i) k = (if k = i then None else found_at now' b k)"
  unfolding make_room_def
  by (simp add: found_at_reclaim_if [OF bucket_ok_delete [OF assms(1)] assms(2)] found_at_delete)

section \<open>Insert\<close>

definition domain_refused :: "'v store \<Rightarrow> slot \<Rightarrow> bool" where
  "domain_refused s d \<longleftrightarrow> peek s d = None \<and> max_domains (st_limits s) \<le> length (st_domains s)"

definition entry_refused :: "millis \<Rightarrow> 'v store \<Rightarrow> slot \<Rightarrow> string \<Rightarrow> bool" where
  "entry_refused now s d i \<longleftrightarrow>
     map_of (b_entries (store_bucket s d)) i = None \<and> store_cap s \<le> live_count now (store_bucket s d)"

lemma note_overflow_parts [simp]:
  "st_domains (note_overflow s d) = st_domains s" "store_bucket (note_overflow s d) = store_bucket s"
  "store_cap (note_overflow s d) = store_cap s" "domain_refused (note_overflow s d) = domain_refused s"
  by (simp_all add: note_overflow_def fun_eq_iff store_bucket_def store_cap_def domain_refused_def peek_def)

lemma admit_total:
  "if domain_refused s d then \<exists>s'. admit s d = (Err Domains, s')
   else \<exists>s'. admit s d = (Ok (store_bucket s d), s')"
  by (auto simp: admit_def Let_def domain_refused_def peek_def store_bucket_def split: option.splits)

lemma store_insert_Domains:
  assumes "domain_refused s d"
  shows "fst (store_insert now s d i v ttl) = Err Domains"
    and "view (snd (store_insert now s d i v ttl)) = view s"
    and "store_ok (snd (store_insert now s d i v ttl)) = store_ok s"
proof -
  from assms admit_total [of "note_overflow s d" d] obtain s'
    where a: "admit (note_overflow s d) d = (Err Domains, s')" by auto
  show "fst (store_insert now s d i v ttl) = Err Domains"
    by (simp add: store_insert_def a)
  show "view (snd (store_insert now s d i v ttl)) = view s"
    by (simp add: store_insert_def a admit_Err(3) [OF a])
  show "store_ok (snd (store_insert now s d i v ttl)) = store_ok s"
    by (simp add: store_insert_def a admit_Err(2) [OF a] store_ok_note_overflow)
qed

lemma store_ok_put_counters:
  assumes "store_ok s" and "peek s d = Some b0" and "bucket_ok (store_cap s) b"
  shows "store_ok (put_bucket (s\<lparr>st_counters := c\<rparr>) d b)"
  by (rule store_ok_put_bucket) (use assms in \<open>simp_all add: store_ok_counters store_cap_def\<close>)

lemma view_counters [simp]: "view (s\<lparr>st_counters := c\<rparr>) = view s"
  by (simp add: fun_eq_iff view_def)

lemma store_insert_entered:
  assumes "store_ok s" and "\<not> domain_refused s d"
    and x: "x = sat_add_u64 now (duration_ms ttl)"
  shows "store_ok (snd (store_insert now s d i v ttl)) \<and>
    fst (store_insert now s d i v ttl) = (if entry_refused now s d i then Err Entries else Ok ()) \<and>
    (\<forall>now' \<ge> now. \<forall>d' k. view (snd (store_insert now s d i v ttl)) now' d' k =
      (if \<not> entry_refused now s d i \<and> d' = d \<and> k = i
       then (if now' < x then Some v else None) else view s now' d' k))"
proof -
  let ?b = "store_bucket s d"
  from assms(2) admit_total [of "note_overflow s d" d] obtain s1
    where a: "admit (note_overflow s d) d = (Ok ?b, s1)" by auto
  note s1 = admit_Ok [OF _ a]
  have ok: "store_ok (note_overflow s d)" using assms(1) by (simp add: store_ok_note_overflow)
  have cap: "store_cap s1 = store_cap s" using s1(4) [OF ok] by (simp add: store_cap_def)
  have b: "bucket_ok (store_cap s) ?b" using s1(6) [OF ok] by simp
  have ok1: "store_ok s1" and p1: "peek s1 d = Some ?b" using s1 [OF ok] by blast+
  have v1: "view s1 now' d' k = view s now' d' k" for now' d' k using s1(5) [OF ok] by simp
  have vb: "view s now' d k = map_option e_value (found_at now' ?b k)" for now' k
    using v1 [of now' d k] by (simp add: view_def [of s1] p1)
  let ?m = "make_room (store_cap s) now ?b i"
  have m: "bucket_ok (store_cap s) ?m" using b by (rule bucket_ok_make_room)
  have ref: "room_refused (store_cap s) now ?b i = entry_refused now s d i"
    using room_refused_iff [OF b] by (simp add: entry_refused_def)
  note shape = store_insert_shape [OF a x, of i v, unfolded cap ref]
  show ?thesis
  proof (cases "entry_refused now s d i")
    case True
    with shape obtain c where c: "store_insert now s d i v ttl =
      (Err Entries, put_bucket (s1\<lparr>st_counters := c\<rparr>) d ?m)" by auto
    from True have "found_at now' ?b i = None" for now'
      by (simp add: entry_refused_def found_at_def)
    then show ?thesis
      using True c store_ok_put_counters [OF ok1 p1] m found_at_make_room [OF b]
      by (simp add: cap view_put_bucket v1 vb)
  next
    case False
    with shape obtain c where c: "store_insert now s d i v ttl =
      (Ok (), put_bucket (s1\<lparr>st_counters := c\<rparr>) d (put_entry ?m i v x))" by auto
    have "bucket_ok (store_cap s) (put_entry ?m i v x)"
      using m length_make_room [OF b] False by (simp add: ref bucket_ok_put_entry)
    then show ?thesis
      using False c store_ok_put_counters [OF ok1 p1] found_at_make_room [OF b]
      by (simp add: cap view_put_bucket v1 vb found_at_put_entry)
  qed
qed

section \<open>The other operations\<close>

lemma found_at_expired: "expired_at now b i \<Longrightarrow> found_at now b i = None"
  by (auto simp: expired_at_def found_at_def split: option.splits)

lemma store_with_correct:
  assumes "store_ok s"
  shows "fst (store_with now s d i read) = map_option read (view s now d i)"
    and "store_ok (snd (store_with now s d i read))"
    and "now \<le> now' \<Longrightarrow> view (snd (store_with now s d i read)) now' d' k = view s now' d' k"
proof -
  have ok: "store_ok (note_overflow s d)" using assms by (simp add: store_ok_note_overflow)
  show "fst (store_with now s d i read) = map_option read (view s now d i)"
    by (simp add: store_with_def Let_def view_def option.map_comp comp_def split: option.splits)
  show "store_ok (snd (store_with now s d i read))"
    using ok store_ok_sweep [OF ok] by (simp add: store_with_def Let_def split: option.splits)
  show "view (snd (store_with now s d i read)) now' d' k = view s now' d' k" if "now \<le> now'"
    using view_sweep [OF ok _ that] by (simp add: store_with_def Let_def split: option.splits)
qed

lemma store_contains_correct:
  assumes "store_ok s"
  shows "fst (store_contains now s d i) = (view s now d i \<noteq> None)"
    and "store_ok (snd (store_contains now s d i))"
    and "now \<le> now' \<Longrightarrow> view (snd (store_contains now s d i)) now' d' k = view s now' d' k"
proof -
  have eq: "snd (store_contains now s d i) = snd (store_with now s d i id)"
    by (simp add: store_contains_def Let_def store_with_def Let_def split: option.splits)
  show "fst (store_contains now s d i) = (view s now d i \<noteq> None)"
    by (simp add: store_contains_def Let_def view_def split: option.splits)
  show "store_ok (snd (store_contains now s d i))"
    "now \<le> now' \<Longrightarrow> view (snd (store_contains now s d i)) now' d' k = view s now' d' k"
    unfolding eq using store_with_correct [OF assms] by blast+
qed

lemma bucket_ok_update:
  assumes "bucket_ok cap b" and "map_of (b_entries b) i = Some e"
  shows "bucket_ok cap (b\<lparr>b_entries := AList.update i (e\<lparr>e_value := v\<rparr>) (b_entries b)\<rparr>)"
proof -
  from assms(2) have "(i, e) \<in> set (b_entries b)" by (rule map_of_SomeD)
  with assms set_update_subset [of i "e\<lparr>e_value := v\<rparr>" "b_entries b"] show ?thesis
    by (fastforce simp: bucket_ok_def AList.distinct_update length_update)
qed

lemma found_at_change:
  "map_of (b_entries b) i = Some e \<Longrightarrow>
     found_at now' (b\<lparr>b_entries := AList.update i (e\<lparr>e_value := v\<rparr>) (b_entries b)\<rparr>) k =
       (if k = i then map_option (e_value_update (\<lambda>_. v)) (found_at now' b i) else found_at now' b k)"
  by (simp add: found_at_def AList.update_conv')

lemma found_atD: "found_at now b i = Some e \<Longrightarrow> map_of (b_entries b) i = Some e \<and> now < e_expires_at e"
  by (auto simp: found_at_def split: option.splits if_splits)

lemma store_update_correct:
  assumes "store_ok s"
  shows "fst (store_update now s d i change) = map_option (fst \<circ> change) (view s now d i)"
    and "store_ok (snd (store_update now s d i change))"
    and "now \<le> now' \<Longrightarrow> view (snd (store_update now s d i change)) now' d' k =
      (if d' = d \<and> k = i then map_option (snd \<circ> change) (view s now' d i) else view s now' d' k)"
proof -
  have ok: "store_ok (note_overflow s d)" using assms by (simp add: store_ok_note_overflow)
  show "fst (store_update now s d i change) = map_option (fst \<circ> change) (view s now d i)"
    by (simp add: store_update_def Let_def view_def split: option.splits)
  show "store_ok (snd (store_update now s d i change))"
    using ok store_ok_sweep [OF ok] bucket_ok_update [OF store_ok_peek [OF ok]]
    by (auto simp: store_update_def Let_def store_cap_def dest!: found_atD intro!: store_ok_put_bucket
        split: option.splits)
  assume le: "now \<le> now'"
  show "view (snd (store_update now s d i change)) now' d' k =
      (if d' = d \<and> k = i then map_option (snd \<circ> change) (view s now' d i) else view s now' d' k)"
  proof (cases "peek s d")
    case None
    then show ?thesis by (simp add: store_update_def Let_def view_def)
  next
    case (Some b)
    show ?thesis
    proof (cases "found_at now b i")
      case None
      with le have "found_at now' b i = None"
        by (auto simp: found_at_def split: option.splits if_splits)
      with None Some view_sweep [OF ok _ le, of d b d' k] show ?thesis
        by (auto simp: store_update_def Let_def view_def [of s])
    next
      case f: (Some e)
      from found_atD [OF f] have e: "map_of (b_entries b) i = Some e" by simp
      show ?thesis
        using Some f found_at_change [OF e] e
        by (auto simp: store_update_def Let_def view_put_bucket view_def [of s] found_at_def)
    qed
  qed
qed

lemma store_remove_correct:
  assumes "store_ok s"
  shows "fst (store_remove now s d i) = view s now d i"
    and "store_ok (snd (store_remove now s d i))"
    and "view (snd (store_remove now s d i)) now' d' k =
      (if d' = d \<and> k = i then None else view s now' d' k)"
proof -
  have ok: "store_ok (note_overflow s d)" using assms by (simp add: store_ok_note_overflow)
  show "fst (store_remove now s d i) = view s now d i"
    by (simp add: store_remove_def view_def found_at_def Let_def split: option.splits)
  show "store_ok (snd (store_remove now s d i))"
    using ok bucket_ok_delete [OF store_ok_peek [OF ok]]
    by (auto simp: store_remove_def Let_def store_ok_bump_expired
        intro!: store_ok_drop_if_empty store_ok_put_bucket split: option.splits)
  show "view (snd (store_remove now s d i)) now' d' k =
      (if d' = d \<and> k = i then None else view s now' d' k)"
    by (auto simp: store_remove_def Let_def view_put_bucket found_at_delete view_def [of s]
        split: option.splits)
qed

end
