(* ===== verification/Scoped_Store_Run.thy ===== *)
theory Scoped_Store_Run
  imports Scoped_Store_Ops
begin

text \<open>
  The counting and sweeping operations, one step of any sequence of operations
  (\<open>store_exec\<close>), the bound on what the invariant lets a container store, and that no
  operation leaves an empty bucket behind.
\<close>

section \<open>Counting\<close>

lemma found_at_None_reclaim:
  "distinct (map fst (b_entries b)) \<Longrightarrow> found_at now b k = map_of (reclaim (b_entries b) now) k"
  by (auto simp: found_at_def reclaim_def map_of_filter_distinct live_entry_def split: option.splits)

lemma live_count_card:
  assumes "bucket_ok cap b"
  shows "live_count now b = card {k. found_at now b k \<noteq> None}"
proof -
  let ?es = "reclaim (b_entries b) now"
  from assms have d: "distinct (map fst ?es)" by (simp add: bucket_ok_def distinct_reclaim)
  have "{k. found_at now b k \<noteq> None} = fst ` set ?es"
    using assms dom_map_of_conv_image_fst [of ?es]
    by (simp add: found_at_None_reclaim bucket_ok_def dom_def)
  then show ?thesis
    using distinct_card [OF d] by (simp add: live_count_def)
qed

lemma store_entries_correct:
  assumes "store_ok s"
  shows "fst (store_entries now s d) = card {k. view s now d k \<noteq> None}"
    and "store_ok (snd (store_entries now s d))"
    and "now \<le> now' \<Longrightarrow> view (snd (store_entries now s d)) now' d' k = view s now' d' k"
proof -
  have ok: "store_ok (note_overflow s d)" using assms by (simp add: store_ok_note_overflow)
  show "fst (store_entries now s d) = card {k. view s now d k \<noteq> None}"
    using live_count_card [OF store_ok_peek [OF assms]]
    by (simp add: store_entries_def Let_def view_def live_count_def split: option.splits)
  show "store_ok (snd (store_entries now s d))"
    using ok bucket_ok_reclaim [OF store_ok_peek [OF ok]]
    by (auto simp: store_entries_def Let_def store_ok_bump_expired
        intro!: store_ok_drop_if_empty store_ok_put_bucket split: option.splits)
  assume le: "now \<le> now'"
  then show "view (snd (store_entries now s d)) now' d' k = view s now' d' k"
    using found_at_reclaim' [OF store_ok_peek [OF assms] le]
    by (auto simp: store_entries_def Let_def view_put_bucket view_def [of s] split: option.splits)
qed

section \<open>Retain\<close>

lemma map_of_retain_entries:
  "distinct (map fst es) \<Longrightarrow> map_of (retain_entries now keep es) k =
     (case map_of es k of
        Some e \<Rightarrow> if now < e_expires_at e \<and> fst (keep k (e_value e))
                  then Some (e\<lparr>e_value := snd (keep k (e_value e))\<rparr>) else None
      | None \<Rightarrow> None)"
proof (induction now keep es rule: retain_entries.induct)
  case (2 now keep k' e es)
  have "map_of es k' = None" using 2(3) by (simp add: map_of_eq_None_iff)
  with 2 show ?case by (cases "now < e_expires_at e \<and> fst (keep k' (e_value e))") auto
qed simp

lemma retain_entries_keys:
  "distinct (map fst es) \<Longrightarrow> distinct (map fst (retain_entries now keep es)) \<and>
     fst ` set (retain_entries now keep es) \<subseteq> fst ` set es"
  by (induction now keep es rule: retain_entries.induct) auto

lemma length_retain_entries: "length (retain_entries now keep es) \<le> length es"
  by (induction now keep es rule: retain_entries.induct) auto

lemma bucket_ok_retain:
  assumes "bucket_ok cap b"
  shows "bucket_ok cap (b\<lparr>b_entries := retain_entries now keep (b_entries b),
     b_earliest := min_expiry (retain_entries now keep (b_entries b))\<rparr>)"
  using assms retain_entries_keys [of "b_entries b" now keep]
    length_retain_entries [of now keep "b_entries b"]
  by (auto simp: bucket_ok_def min_expiry_le)

lemma store_retain_correct:
  assumes "store_ok s"
  shows "store_ok (store_retain now s d keep)"
    and "now \<le> now' \<Longrightarrow> view (store_retain now s d keep) now' d' k =
      (if d' = d
       then Option.bind (view s now' d k)
              (\<lambda>v. if fst (keep k v) then Some (snd (keep k v)) else None)
       else view s now' d' k)"
proof -
  show "store_ok (store_retain now s d keep)"
    using assms bucket_ok_retain [OF store_ok_peek [OF assms]]
    by (auto simp: store_retain_def Let_def intro!: store_ok_drop_if_empty store_ok_put_bucket
        split: option.splits)
  assume le: "now \<le> now'"
  have b: "distinct (map fst (b_entries b))" if "peek s d = Some b" for b
    using store_ok_peek [OF assms that] by (simp add: bucket_ok_def)
  show "view (store_retain now s d keep) now' d' k =
      (if d' = d
       then Option.bind (view s now' d k)
              (\<lambda>v. if fst (keep k v) then Some (snd (keep k v)) else None)
       else view s now' d' k)"
    using le
    by (auto simp: store_retain_def Let_def view_put_bucket view_def [of s] found_at_def
        map_of_retain_entries b split: option.splits)
qed

section \<open>The total\<close>

definition dead_bucket :: "millis \<Rightarrow> 'v bucket \<Rightarrow> bool" where
  "dead_bucket now b \<longleftrightarrow> list_all (\<lambda>(_, e). e_expires_at e \<le> now) (b_entries b)"

definition swept_domains :: "millis \<Rightarrow> (slot \<times> 'v bucket) list \<Rightarrow> (slot \<times> 'v bucket) list" where
  "swept_domains now ds =
     map (\<lambda>(d, b). (d, sweep_bucket now b)) (filter (\<lambda>(d, b). \<not> dead_bucket now b) ds)"

lemma store_total_entries_shape:
  "\<exists>c. store_total_entries now s =
    (live_count now (st_overflow s)
       + sum_list (map (\<lambda>(_, b). length (b_entries b)) (swept_domains now (st_domains s))),
     s\<lparr>st_overflow := sweep_bucket now (st_overflow s), st_domains := swept_domains now (st_domains s),
       st_counters := c\<rparr>)"
  by (auto simp: store_total_entries_def Let_def swept_domains_def dead_bucket_def bump_expired_def
      live_count_def sweep_bucket_def apsnd_def map_prod_def comp_def case_prod_unfold)

lemma map_of_swept_domains:
  assumes "distinct (map fst ds)"
  shows "map_of (swept_domains now ds) d =
    (case map_of ds d of Some b \<Rightarrow> if dead_bucket now b then None else Some (sweep_bucket now b)
     | None \<Rightarrow> None)"
  using map_of_filter_distinct [OF assms, of "\<lambda>(d, b). \<not> dead_bucket now b" d]
  by (simp add: swept_domains_def map_of_map [where f = "sweep_bucket now"] split: option.splits)

lemma live_count_dead: "dead_bucket now b \<Longrightarrow> live_count now b = 0"
  by (auto simp: live_count_def dead_bucket_def reclaim_def live_entry_def list_all_iff
      filter_empty_conv)

lemma found_at_dead: "dead_bucket now b \<Longrightarrow> now \<le> now' \<Longrightarrow> found_at now' b k = None"
  by (force simp: found_at_def dead_bucket_def list_all_iff dest: map_of_SomeD split: option.splits)

lemma sum_swept_domains:
  "sum_list (map (\<lambda>(_, b). length (b_entries b)) (swept_domains now ds)) =
     sum_list (map (\<lambda>(_, b). live_count now b) ds)"
  by (induction ds) (auto simp: swept_domains_def live_count_dead, simp add: live_count_def sweep_bucket_def)

lemma swept_domains_keys:
  assumes "distinct (map fst ds)"
  shows "distinct (map fst (swept_domains now ds))" "length (swept_domains now ds) \<le> length ds"
  using assms by (simp_all add: swept_domains_def comp_def case_prod_unfold distinct_map_filter_fst)

lemma store_total_entries_correct:
  assumes "store_ok s"
  shows "fst (store_total_entries now s) =
      live_count now (st_overflow s) + sum_list (map (\<lambda>(_, b). live_count now b) (st_domains s))"
    and "store_ok (snd (store_total_entries now s))"
    and "now \<le> now' \<Longrightarrow> view (snd (store_total_entries now s)) now' d k = view s now' d k"
proof -
  from assms have d: "distinct (map fst (st_domains s))" by (simp add: store_ok_def)
  from store_total_entries_shape [of now s] obtain c where c: "store_total_entries now s =
    (live_count now (st_overflow s)
       + sum_list (map (\<lambda>(_, b). length (b_entries b)) (swept_domains now (st_domains s))),
     s\<lparr>st_overflow := sweep_bucket now (st_overflow s), st_domains := swept_domains now (st_domains s),
       st_counters := c\<rparr>)" by blast
  show "fst (store_total_entries now s) =
      live_count now (st_overflow s) + sum_list (map (\<lambda>(_, b). live_count now b) (st_domains s))"
    by (simp add: c sum_swept_domains)
  show "store_ok (snd (store_total_entries now s))"
    using assms swept_domains_keys [OF d, of now]
    by (auto simp: c store_ok_def store_cap_def map_of_swept_domains [OF d] bucket_ok_sweep
        simp del: map_of_eq_Some_iff split: option.splits if_splits)
  assume le: "now \<le> now'"
  have sw: "found_at now' (sweep_bucket now b) k = found_at now' b k" if "peek s d = Some b" for b
    using found_at_reclaim [OF store_ok_peek [OF assms that] le] by (simp add: sweep_bucket_def)
  show "view (snd (store_total_entries now s)) now' d k = view s now' d k"
    using sw le
    by (auto simp: c view_def peek_def map_of_swept_domains [OF d] found_at_dead
        simp del: map_of_eq_Some_iff split: option.splits)
qed

section \<open>Sequences of operations\<close>

datatype 'v store_op =
    OpInsert slot string 'v nat
  | OpGet slot string
  | OpUpdate slot string "'v \<Rightarrow> 'v"
  | OpRemove slot string
  | OpContains slot string
  | OpEntries slot
  | OpTotal
  | OpRetain slot "string \<Rightarrow> 'v \<Rightarrow> bool \<times> 'v"

fun store_exec :: "millis \<Rightarrow> 'v store \<Rightarrow> 'v store_op \<Rightarrow> 'v store" where
  "store_exec now s (OpInsert d i v ttl) = snd (store_insert now s d i v ttl)"
| "store_exec now s (OpGet d i) = snd (store_get now s d i)"
| "store_exec now s (OpUpdate d i f) = snd (store_update now s d i (\<lambda>v. ((), f v)))"
| "store_exec now s (OpRemove d i) = snd (store_remove now s d i)"
| "store_exec now s (OpContains d i) = snd (store_contains now s d i)"
| "store_exec now s (OpEntries d) = snd (store_entries now s d)"
| "store_exec now s OpTotal = snd (store_total_entries now s)"
| "store_exec now s (OpRetain d keep) = store_retain now s d keep"

lemma store_insert_ok: "store_ok s \<Longrightarrow> store_ok (snd (store_insert now s d i v ttl))"
  using store_insert_entered [of s d] store_insert_Domains(3) by (metis (no_types))

lemma store_exec_ok: "store_ok s \<Longrightarrow> store_ok (store_exec now s op)"
  by (cases op)
    (simp_all add: store_insert_ok store_get_def store_with_correct store_update_correct
      store_remove_correct store_contains_correct store_entries_correct store_total_entries_correct
      store_retain_correct)

lemma st_limits_counters [simp]: "st_limits (s\<lparr>st_counters := c\<rparr>) = st_limits s"
  by simp

lemma limits_sweep [simp]: "st_limits (sweep now s d b) = st_limits s"
  by (simp add: sweep_def)

lemma limits_admit: "st_limits (snd (admit s d)) = st_limits s"
  by (simp add: admit_def Let_def split: option.splits)

lemma limits_insert [simp]: "st_limits (snd (store_insert now s d i v ttl)) = st_limits s"
  using limits_admit [of "note_overflow s d" d]
  by (auto simp: store_insert_def Let_def split: prod.splits result.splits)

lemma limits_exec: "st_limits (store_exec now s op) = st_limits s"
proof (cases op)
  case OpTotal
  then show ?thesis by (simp add: store_total_entries_def Let_def)
qed (simp_all add: store_get_def store_with_def store_update_def store_remove_def
    store_contains_def store_entries_def store_retain_def Let_def split: option.splits)

section \<open>How much a container can hold\<close>

definition stored_entries :: "'v store \<Rightarrow> nat" where
  "stored_entries s = length (b_entries (st_overflow s))
     + sum_list (map (\<lambda>(_, b). length (b_entries b)) (st_domains s))"

lemma sum_list_bound: "(\<And>x. x \<in> set xs \<Longrightarrow> f x \<le> (c :: nat)) \<Longrightarrow> sum_list (map f xs) \<le> length xs * c"
  by (induction xs) (auto simp: add_mono)

lemma stored_entries_bound:
  assumes "store_ok s"
  shows "stored_entries s \<le> (max_domains (st_limits s) + 1) * max_entries_per_domain (st_limits s)"
proof -
  let ?cap = "max_entries_per_domain (st_limits s)"
  have "length (b_entries b) \<le> ?cap" if "(d, b) \<in> set (st_domains s)" for d b
    using assms that by (simp add: store_ok_def bucket_ok_def store_cap_def)
  then have "sum_list (map (\<lambda>(_, b). length (b_entries b)) (st_domains s)) \<le> length (st_domains s) * ?cap"
    by (intro sum_list_bound) auto
  also have "\<dots> \<le> max_domains (st_limits s) * ?cap"
    using assms by (simp add: store_ok_def)
  finally show ?thesis
    using assms by (simp add: stored_entries_def store_ok_def bucket_ok_def store_cap_def)
qed

section \<open>A domain slot is held only by a stored entry\<close>

definition no_empty :: "'v store \<Rightarrow> bool" where
  "no_empty s \<longleftrightarrow> (\<forall>d b. map_of (st_domains s) d = Some b \<longrightarrow> b_entries b \<noteq> [])"

definition no_empty_but :: "slot \<Rightarrow> 'v store \<Rightarrow> bool" where
  "no_empty_but d s \<longleftrightarrow> (\<forall>d' b. d' \<noteq> d \<longrightarrow> map_of (st_domains s) d' = Some b \<longrightarrow> b_entries b \<noteq> [])"

lemma no_empty_but: "no_empty s \<Longrightarrow> no_empty_but d s"
  by (simp add: no_empty_def no_empty_but_def)

lemma no_empty_parts [simp]:
  "no_empty (note_overflow s d) = no_empty s" "no_empty (bump_expired s n) = no_empty s"
  "no_empty_but d' (bump_expired s n) = no_empty_but d' s"
  "no_empty_but d' (s\<lparr>st_counters := c\<rparr>) = no_empty_but d' s"
  by (simp_all add: no_empty_def no_empty_but_def bump_expired_def)

lemma no_empty_but_put: "no_empty_but d s \<Longrightarrow> no_empty_but d (put_bucket s d b)"
  by (simp add: no_empty_but_def put_bucket_def AList.update_conv')

lemma no_empty_from_but:
  assumes "no_empty_but d s" and "\<And>b. map_of (st_domains s) d = Some b \<Longrightarrow> b_entries b \<noteq> []"
  shows "no_empty s"
  unfolding no_empty_def
proof (intro allI impI)
  fix d' b assume "map_of (st_domains s) d' = Some b"
  with assms show "b_entries b \<noteq> []"
    by (cases "d' = d") (auto simp: no_empty_but_def)
qed

lemma no_empty_put:
  assumes "no_empty_but d s" and "map_of (st_domains s) OVERFLOW = None" and "b_entries b \<noteq> []"
  shows "no_empty (put_bucket s d b)"
proof (rule no_empty_from_but)
  show "no_empty_but d (put_bucket s d b)" using assms(1) by (rule no_empty_but_put)
  show "b_entries b' \<noteq> []" if "map_of (st_domains (put_bucket s d b)) d = Some b'" for b'
    using that assms(2,3)
    by (auto simp: put_bucket_def is_overflow_def AList.update_conv' split: if_splits)
qed

lemma no_empty_drop:
  assumes "no_empty_but d s" and "map_of (st_domains s) OVERFLOW = None"
  shows "no_empty (drop_if_empty s d)"
proof (rule no_empty_from_but)
  show "no_empty_but d (drop_if_empty s d)"
    using assms(1)
    by (auto simp: no_empty_but_def drop_if_empty_def AList.delete_conv' simp del: map_of_eq_Some_iff
        split: option.splits)
  show "b_entries b \<noteq> []" if "map_of (st_domains (drop_if_empty s d)) d = Some b" for b
    using that assms(2)
    by (auto simp: drop_if_empty_def is_overflow_def AList.delete_conv' split: if_splits option.splits)
qed

lemma overflow_slot_parts [simp]:
  "map_of (st_domains (bump_expired s n)) OVERFLOW = map_of (st_domains s) OVERFLOW"
  "map_of (st_domains (put_bucket s d b)) OVERFLOW = map_of (st_domains s) OVERFLOW"
  by (simp_all add: bump_expired_def put_bucket_def is_overflow_def AList.update_conv')

lemma no_empty_sweep:
  "no_empty s \<Longrightarrow> map_of (st_domains s) OVERFLOW = None \<Longrightarrow> no_empty (sweep now s d b)"
  unfolding sweep_def by (intro no_empty_drop) (simp_all add: no_empty_but_put no_empty_but)

lemma no_empty_insert:
  assumes "store_ok s" and "no_empty s" and "0 < store_cap s"
  shows "no_empty (snd (store_insert now s d i v ttl))"
proof (cases "domain_refused s d")
  case True
  with admit_total [of "note_overflow s d" d] obtain s'
    where a: "admit (note_overflow s d) d = (Err Domains, s')" by auto
  then show ?thesis
    using assms(2) admit_Err(7) [OF a] by (simp add: store_insert_def no_empty_def)
next
  case False
  let ?b = "store_bucket s d" and ?x = "sat_add_u64 now (duration_ms ttl)"
  from False admit_total [of "note_overflow s d" d] obtain s1
    where a: "admit (note_overflow s d) d = (Ok ?b, s1)" by auto
  have ok: "store_ok (note_overflow s d)" using assms(1) by (simp add: store_ok_note_overflow)
  have but: "no_empty_but d s1"
    using a assms(2) by (auto simp: admit_cases no_empty_but no_empty_but_put)
  have ovf: "map_of (st_domains s1) OVERFLOW = None"
    using admit_Ok(1) [OF ok a] by (simp add: store_ok_def)
  have cap: "0 < store_cap s1"
    using admit_Ok(4) [OF ok a] assms(3) by (simp add: store_cap_def)
  let ?m = "make_room (store_cap s1) now ?b i"
  have ref: "room_refused (store_cap s1) now ?b i \<Longrightarrow> b_entries ?m \<noteq> []"
    using cap by (auto simp: room_refused_def)
  have ent: "b_entries (put_entry ?m i v ?x) \<noteq> []"
    by (cases "b_entries ?m") (auto simp: put_entry_def)
  have "no_empty (put_bucket (s1\<lparr>st_counters := c\<rparr>) d b)" if "b_entries b \<noteq> []" for b c
    using no_empty_put [of d "s1\<lparr>st_counters := c\<rparr>" b] but ovf that by simp
  with store_insert_shape [OF a refl [of ?x], of i v] ref ent show ?thesis
    by (auto split: if_splits)
qed

lemma no_empty_total: 
  assumes "store_ok s"
  shows "no_empty (snd (store_total_entries now s))"
proof -
  from assms have d: "distinct (map fst (st_domains s))" by (simp add: store_ok_def)
  have "b_entries (sweep_bucket now b) \<noteq> []" if "\<not> dead_bucket now b" for b :: "'a bucket"
    using that by (force simp: dead_bucket_def sweep_bucket_def reclaim_def live_entry_def list_all_iff
        filter_empty_conv)
  then show ?thesis
    using store_total_entries_shape [of now s]
    by (auto simp: no_empty_def map_of_swept_domains [OF d] simp del: map_of_eq_Some_iff
        split: option.splits if_splits)
qed

lemma no_empty_update: "b_entries b = es \<Longrightarrow> AList.update i e es \<noteq> []"
  by (cases es) auto

lemma no_empty_exec:
  assumes "store_ok s" and "no_empty s" and "0 < store_cap s"
  shows "no_empty (store_exec now s op)"
proof -
  have ovf: "map_of (st_domains s) OVERFLOW = None" using assms(1) by (simp add: store_ok_def)
  note but = no_empty_but [OF assms(2)]
  show ?thesis
  proof (cases op)
    case (OpInsert d i v ttl)
    with no_empty_insert [OF assms] show ?thesis by simp
  next
    case OpTotal
    with no_empty_total [OF assms(1)] show ?thesis by simp
  next
    case (OpUpdate d i f)
    then show ?thesis
      using assms(2) ovf but
      by (auto simp: store_update_def Let_def no_empty_sweep no_empty_but no_empty_update
          intro!: no_empty_put split: option.splits)
  qed (use assms(2) ovf but in \<open>auto simp: store_get_def store_with_def store_remove_def
      store_contains_def store_entries_def store_retain_def Let_def no_empty_but no_empty_sweep
      intro!: no_empty_drop no_empty_but_put split: option.splits\<close>)
qed

end
