(* ===== verification/Scoped_Map.thy ===== *)
theory Scoped_Map
  imports Scoped_Store_Run
begin

text \<open>
  The contract the controls rely on when they keep their state in a domain-keyed container,
  as the locale \<open>scoped_map\<close>, what follows from the contract alone, and its interpretation on
  the container of \<open>store.rs\<close>. The properties of the container close the theory.
\<close>

section \<open>The contract\<close>

locale scoped_map =
  fixes inv :: "'s \<Rightarrow> bool"
    and look :: "'s \<Rightarrow> millis \<Rightarrow> slot \<Rightarrow> string \<Rightarrow> 'v option"
    and ins :: "millis \<Rightarrow> 's \<Rightarrow> slot \<Rightarrow> string \<Rightarrow> 'v \<Rightarrow> nat \<Rightarrow> (unit, Full) result \<times> 's"
    and upd :: "millis \<Rightarrow> 's \<Rightarrow> slot \<Rightarrow> string \<Rightarrow> ('v \<Rightarrow> 'r \<times> 'v) \<Rightarrow> 'r option \<times> 's"
    and del :: "millis \<Rightarrow> 's \<Rightarrow> slot \<Rightarrow> string \<Rightarrow> 'v option \<times> 's"
    and ret :: "millis \<Rightarrow> 's \<Rightarrow> slot \<Rightarrow> (string \<Rightarrow> 'v \<Rightarrow> bool \<times> 'v) \<Rightarrow> 's"
  assumes inv_ins: "inv s \<Longrightarrow> inv (snd (ins now s d i v ttl))"
    and inv_upd: "inv s \<Longrightarrow> inv (snd (upd now s d i f))"
    and inv_del: "inv s \<Longrightarrow> inv (snd (del now s d i))"
    and inv_ret: "inv s \<Longrightarrow> inv (ret now s d keep)"
    and upd_result: "inv s \<Longrightarrow> fst (upd now s d i f) = map_option (fst \<circ> f) (look s now d i)"
    and del_result: "inv s \<Longrightarrow> fst (del now s d i) = look s now d i"
    and look_ins: "inv s \<Longrightarrow> now \<le> now' \<Longrightarrow> look (snd (ins now s d i v ttl)) now' d' k =
      (if fst (ins now s d i v ttl) = Ok () \<and> d' = d \<and> k = i
       then (if now' < sat_add_u64 now (duration_ms ttl) then Some v else None) else look s now' d' k)"
    and look_upd: "inv s \<Longrightarrow> now \<le> now' \<Longrightarrow> look (snd (upd now s d i f)) now' d' k =
      (if d' = d \<and> k = i then map_option (snd \<circ> f) (look s now' d i) else look s now' d' k)"
    and look_del: "inv s \<Longrightarrow> now \<le> now' \<Longrightarrow> look (snd (del now s d i)) now' d' k =
      (if d' = d \<and> k = i then None else look s now' d' k)"
    and look_ret: "inv s \<Longrightarrow> now \<le> now' \<Longrightarrow> look (ret now s d keep) now' d' k =
      (if d' = d
       then Option.bind (look s now' d k) (\<lambda>v. if fst (keep k v) then Some (snd (keep k v)) else None)
       else look s now' d' k)"
begin

lemma take_once:
  "inv s \<Longrightarrow> now \<le> now' \<Longrightarrow> fst (del now' (snd (del now s d i)) d i) = None"
  by (simp add: del_result look_del inv_del)

lemma read_your_write:
  "inv s \<Longrightarrow> fst (ins now s d i v ttl) = Ok () \<Longrightarrow> now \<le> now' \<Longrightarrow>
     fst (del now' (snd (ins now s d i v ttl)) d i) =
       (if now' < sat_add_u64 now (duration_ms ttl) then Some v else None)"
  by (simp add: del_result look_ins inv_ins)

lemma update_then_read:
  "inv s \<Longrightarrow> look s now d i = Some v \<Longrightarrow> now \<le> now' \<Longrightarrow> look s now' d i = Some v \<Longrightarrow>
     fst (upd now' (snd (upd now s d i f)) d i g) = Some (fst (g (snd (f v))))"
  by (simp add: upd_result look_upd inv_upd)

lemma refused_changes_nothing:
  "inv s \<Longrightarrow> fst (ins now s d i v ttl) = Err e \<Longrightarrow> now \<le> now' \<Longrightarrow>
     look (snd (ins now s d i v ttl)) now' d' k = look s now' d' k"
  by (simp add: look_ins)

end

interpretation dstore: scoped_map store_ok view store_insert store_update store_remove store_retain
proof
  fix s :: "'v store" and now now' :: millis and d d' :: slot and i k :: string and v :: 'v
    and ttl :: nat and f :: "'v \<Rightarrow> 'r \<times> 'v" and keep :: "string \<Rightarrow> 'v \<Rightarrow> bool \<times> 'v"
  assume ok: "store_ok s"
  show "store_ok (snd (store_insert now s d i v ttl))" by (rule store_insert_ok) (rule ok)
  show "store_ok (snd (store_update now s d i f))" by (rule store_update_correct(2)) (rule ok)
  show "store_ok (snd (store_remove now s d i))" by (rule store_remove_correct(2)) (rule ok)
  show "store_ok (store_retain now s d keep)" by (rule store_retain_correct(1)) (rule ok)
  show "fst (store_update now s d i f) = map_option (fst \<circ> f) (view s now d i)"
    by (rule store_update_correct(1)) (rule ok)
  show "fst (store_remove now s d i) = view s now d i"
    by (rule store_remove_correct(1)) (rule ok)
  assume le: "now \<le> now'"
  show "view (snd (store_insert now s d i v ttl)) now' d' k =
      (if fst (store_insert now s d i v ttl) = Ok () \<and> d' = d \<and> k = i
       then (if now' < sat_add_u64 now (duration_ms ttl) then Some v else None) else view s now' d' k)"
  proof (cases "domain_refused s d")
    case True
    from store_insert_Domains [OF this] show ?thesis by simp
  next
    case False
    from store_insert_entered [OF ok False refl [of "sat_add_u64 now (duration_ms ttl)"], of i v] le
    show ?thesis by auto
  qed
  show "view (snd (store_update now s d i f)) now' d' k =
      (if d' = d \<and> k = i then map_option (snd \<circ> f) (view s now' d i) else view s now' d' k)"
    by (rule store_update_correct(3)) (rule ok le)+
  show "view (snd (store_remove now s d i)) now' d' k =
      (if d' = d \<and> k = i then None else view s now' d' k)"
    by (rule store_remove_correct(3)) (rule ok)
  show "view (store_retain now s d keep) now' d' k =
      (if d' = d
       then Option.bind (view s now' d k) (\<lambda>v. if fst (keep k v) then Some (snd (keep k v)) else None)
       else view s now' d' k)"
    by (rule store_retain_correct(2)) (rule ok le)+
qed

section \<open>The map the container stands for\<close>

text \<open>
  The abstract machine: a map from (domain, identity) to a payload and its deadline. It decides
  nothing about room: \<open>took\<close> says whether the container accepted an insert.
\<close>

type_synonym 'v amap = "slot \<Rightarrow> string \<Rightarrow> ('v \<times> millis) option"

definition acell :: "millis \<Rightarrow> ('v \<times> millis) option \<Rightarrow> 'v option" where
  "acell now c = (case c of Some (v, x) \<Rightarrow> if now < x then Some v else None | None \<Rightarrow> None)"

definition aview :: "'v amap \<Rightarrow> millis \<Rightarrow> slot \<Rightarrow> string \<Rightarrow> 'v option" where
  "aview A now d i = acell now (A d i)"

definition aput :: "'v amap \<Rightarrow> slot \<Rightarrow> string \<Rightarrow> ('v \<times> millis) option \<Rightarrow> 'v amap" where
  "aput A d i c = A(d := (A d)(i := c))"

fun abs_exec :: "millis \<Rightarrow> bool \<Rightarrow> 'v amap \<Rightarrow> 'v store_op \<Rightarrow> 'v amap" where
  "abs_exec now took A (OpInsert d i v ttl) =
     (if took then aput A d i (Some (v, sat_add_u64 now (duration_ms ttl))) else A)"
| "abs_exec now took A (OpUpdate d i f) = aput A d i (map_option (apfst f) (A d i))"
| "abs_exec now took A (OpRemove d i) = aput A d i None"
| "abs_exec now took A (OpRetain d keep) =
     A(d := (\<lambda>k. Option.bind (A d k)
       (\<lambda>(v, x). if fst (keep k v) then Some (snd (keep k v), x) else None)))"
| "abs_exec now took A _ = A"

fun op_took :: "millis \<Rightarrow> 'v store \<Rightarrow> 'v store_op \<Rightarrow> bool" where
  "op_took now s (OpInsert d i v ttl) = (fst (store_insert now s d i v ttl) = Ok ())"
| "op_took now s _ = True"

fun store_run :: "'v store \<Rightarrow> (millis \<times> 'v store_op) list \<Rightarrow> 'v store" where
  "store_run s [] = s"
| "store_run s ((now, op) # ops) = store_run (store_exec now s op) ops"

fun run_took :: "'v store \<Rightarrow> (millis \<times> 'v store_op) list \<Rightarrow> bool list" where
  "run_took s [] = []"
| "run_took s ((now, op) # ops) = op_took now s op # run_took (store_exec now s op) ops"

fun abs_run :: "'v amap \<Rightarrow> ((millis \<times> 'v store_op) \<times> bool) list \<Rightarrow> 'v amap" where
  "abs_run A [] = A"
| "abs_run A (((now, op), took) # ops) = abs_run (abs_exec now took A op) ops"

definition stands_for :: "millis \<Rightarrow> 'v store \<Rightarrow> 'v amap \<Rightarrow> bool" where
  "stands_for now s A \<longleftrightarrow>
     store_ok s \<and> (\<forall>now' d i. now \<le> now' \<longrightarrow> view s now' d i = aview A now' d i)"

lemma stands_forD: "stands_for now s A \<Longrightarrow> now \<le> now' \<Longrightarrow> view s now' d i = aview A now' d i"
  by (simp add: stands_for_def)

lemma aview_aput:
  "aview (aput A d i c) now d' k = (if d' = d \<and> k = i then acell now c else aview A now d' k)"
  by (simp add: aview_def aput_def)

lemma acell_simps [simp]:
  "acell now None = None" "acell now (Some (v, x)) = (if now < x then Some v else None)"
  "acell now (map_option (apfst f) c) = map_option f (acell now c)"
  by (simp_all add: acell_def split: option.splits prod.splits)

lemma aview_retain:
  "aview (A(d := (\<lambda>k. Option.bind (A d k) (\<lambda>(v, x). if fst (keep k v) then Some (snd (keep k v), x) else None)))) now d' k =
     (if d' = d then Option.bind (aview A now d k) (\<lambda>v. if fst (keep k v) then Some (snd (keep k v)) else None)
      else aview A now d' k)"
  by (cases "A d k") (auto simp: aview_def)

lemma stands_for_exec:
  assumes "stands_for now s A" and "now \<le> now'"
  shows "stands_for now' (store_exec now' s op) (abs_exec now' (op_took now' s op) A op)"
proof -
  from assms have ok: "store_ok s" by (simp add: stands_for_def)
  have v: "view s t d i = aview A t d i" if "now' \<le> t" for t d i
    using stands_forD [OF assms(1)] assms(2) that by simp
  have "view (store_exec now' s op) t d i = aview (abs_exec now' (op_took now' s op) A op) t d i"
    if t: "now' \<le> t" for t d i
  proof (cases op)
    case (OpInsert d' k x ttl)
    then show ?thesis
      using dstore.look_ins [OF ok t, of d' k x ttl d i] v [OF t] by (auto simp: aview_aput)
  next
    case (OpUpdate d' k f)
    then show ?thesis
      using dstore.look_upd [OF ok t, of d' k "\<lambda>v. ((), f v)" d i]
      by (simp add: v [OF t] aview_aput comp_def aview_def [symmetric])
  next
    case (OpRemove d' k)
    then show ?thesis
      using dstore.look_del [OF ok t, of d' k d i] v [OF t] by (auto simp: aview_aput)
  next
    case (OpRetain d' keep)
    then show ?thesis
      using dstore.look_ret [OF ok t, of d' keep d i]
      by (simp add: v [OF t] aview_retain)
  qed (use t v [OF t] store_with_correct(3) [OF ok t] store_contains_correct(3) [OF ok t]
        store_entries_correct(3) [OF ok t] store_total_entries_correct(3) [OF ok t] in
      \<open>simp_all add: store_get_def\<close>)
  with store_exec_ok [OF ok] show ?thesis by (simp add: stands_for_def)
qed

lemma stands_for_later: "stands_for now s A \<Longrightarrow> now \<le> now' \<Longrightarrow> stands_for now' s A"
  by (simp add: stands_for_def)

lemma stands_for_run:
  "stands_for now s A \<Longrightarrow> sorted (now # map fst ops) \<Longrightarrow> last (now # map fst ops) \<le> now' \<Longrightarrow>
     stands_for now' (store_run s ops) (abs_run A (zip ops (run_took s ops)))"
proof (induction s ops arbitrary: now A rule: store_run.induct)
  case (1 s)
  then show ?case by (simp add: stands_for_later)
next
  case (2 s t op ops)
  from 2(2,3) have "stands_for t (store_exec t s op) (abs_exec t (op_took t s op) A op)"
    by (intro stands_for_exec [where now = now]) simp_all
  from 2(1) [OF this] 2(3,4) show ?case by simp
qed

section \<open>Runs\<close>

lemma store_run_ok: "store_ok s \<Longrightarrow> store_ok (store_run s ops)"
  by (induction s ops rule: store_run.induct) (simp_all add: store_exec_ok)

lemma limits_run: "st_limits (store_run s ops) = st_limits s"
  by (induction s ops rule: store_run.induct) (simp_all add: limits_exec)

lemma fresh_run_ok: "store_ok (store_run (with_clock hosts limits) ops)"
  by (rule store_run_ok) (rule with_clock_ok)

lemma limits_fresh_run: "st_limits (store_run (with_clock hosts limits) ops) = limits"
  by (simp add: limits_run) (simp add: with_clock_def)

lemma no_empty_run:
  "store_ok s \<Longrightarrow> no_empty s \<Longrightarrow> 0 < store_cap s \<Longrightarrow> no_empty (store_run s ops)"
  by (induction s ops rule: store_run.induct)
    (simp_all add: no_empty_exec store_exec_ok limits_exec store_cap_def)

lemma fresh_run_no_empty:
  "0 < max_entries_per_domain limits \<Longrightarrow> no_empty (store_run (with_clock hosts limits) ops)"
  by (rule no_empty_run [OF with_clock_ok]) (simp_all add: no_empty_def with_clock_def store_cap_def)

fun op_slot :: "'v store_op \<Rightarrow> slot option" where
  "op_slot (OpInsert d i v ttl) = Some d"
| "op_slot (OpGet d i) = Some d"
| "op_slot (OpUpdate d i f) = Some d"
| "op_slot (OpRemove d i) = Some d"
| "op_slot (OpContains d i) = Some d"
| "op_slot (OpEntries d) = Some d"
| "op_slot OpTotal = None"
| "op_slot (OpRetain d keep) = Some d"

fun op_inserts :: "slot \<Rightarrow> string \<Rightarrow> 'v store_op \<Rightarrow> bool" where
  "op_inserts d i (OpInsert d' i' v ttl) = (d' = d \<and> i' = i)"
| "op_inserts d i _ = False"

lemma view_exec_other:
  assumes "store_ok s" and "op_slot op \<noteq> Some d" and "now \<le> now'"
  shows "view (store_exec now s op) now' d k = view s now' d k"
  using assms
  by (cases op) (auto simp: store_get_def store_with_correct store_contains_correct
      store_entries_correct store_total_entries_correct dstore.look_ins dstore.look_upd
      dstore.look_del dstore.look_ret)

lemma view_exec_absent:
  assumes "store_ok s" and "\<not> op_inserts d i op" and "now \<le> now'" and "view s now' d i = None"
  shows "view (store_exec now s op) now' d i = None"
  using assms
  by (cases op) (auto simp: store_get_def store_with_correct store_contains_correct
      store_entries_correct store_total_entries_correct dstore.look_ins dstore.look_upd
      dstore.look_del dstore.look_ret)

lemma view_run_other:
  "store_ok s \<Longrightarrow> \<forall>(t, op)\<in>set ops. t \<le> now \<and> op_slot op \<noteq> Some d \<Longrightarrow>
     view (store_run s ops) now d k = view s now d k"
  by (induction s ops rule: store_run.induct) (simp_all add: store_exec_ok view_exec_other)

lemma view_run_absent:
  "store_ok s \<Longrightarrow> view s now d i = None \<Longrightarrow> \<forall>(t, op)\<in>set ops. t \<le> now \<and> \<not> op_inserts d i op \<Longrightarrow>
     view (store_run s ops) now d i = None"
  by (induction s ops rule: store_run.induct) (simp_all add: store_exec_ok view_exec_absent)

text \<open>What evaluating the container on a concrete run unfolds.\<close>

lemmas store_eval = store_get_def store_with_def store_insert_def store_remove_def Let_def
  note_overflow_def admit_def with_clock_def bucket_default_def bump_expired_def put_bucket_def
  drop_if_empty_def peek_def found_at_def expired_at_def is_overflow_def OVERFLOW_def
  sat_add_u64_def duration_ms_def u64_max_def limits_default_def domains_live_def

section \<open>Properties\<close>

text \<open>
  C2: Refinement. After any sequence of timed operations on a fresh container, every read at a
  later time answers exactly what the abstract map from (domain, identity) to a payload and its
  deadline answers after the same operations, with the inserts the container refused left out.
\<close>

theorem store_refines_map:
  assumes "sorted (map fst ops)" and "\<forall>t \<in> fst ` set ops. t \<le> now"
  shows "fst (store_get now (store_run (with_clock hosts limits) ops) d i) =
    aview (abs_run (\<lambda>_ _. None) (zip ops (run_took (with_clock hosts limits) ops))) now d i"
proof -
  have start: "stands_for 0 (with_clock hosts limits) (\<lambda>_ _. None)"
    by (simp add: stands_for_def with_clock_ok aview_def view_def)
      (simp add: with_clock_def peek_def found_at_def bucket_default_def)
  have "last (0 # map fst ops) \<le> now" using assms(2) last_in_set [of "map fst ops"]
    by (cases "ops = []") (simp_all del: set_map add: list.set_map [symmetric])
  from stands_for_run [OF start _ this] assms(1)
  have "stands_for now (store_run (with_clock hosts limits) ops)
      (abs_run (\<lambda>_ _. None) (zip ops (run_took (with_clock hosts limits) ops)))" by simp
  then show ?thesis
    by (simp add: stands_for_def store_get_def store_with_correct(1) option.map_ident)
qed

theorem store_refines_map_witness:
  "fst (store_get 120 (store_run (with_clock (host_policy_new [''a.example'']) limits_default)
      [(0, OpInsert 0 ''k'' (7 :: nat) 100), (50, OpInsert 0 ''k'' 9 100), (60, OpRemove 0 ''j'')]) 0 ''k'')
   = Some 9 \<and>
   fst (store_get 120 (store_run (with_clock (host_policy_new [''a.example'']) limits_default)
      [(0, OpInsert 0 ''k'' (7 :: nat) 100), (50, OpInsert 0 ''k'' 9 100), (60, OpRemove 0 ''j'')]) 0 ''k'')
   = aview (abs_run (\<lambda>_ _. None) (zip
      [(0, OpInsert 0 ''k'' (7 :: nat) 100), (50, OpInsert 0 ''k'' 9 100), (60, OpRemove 0 ''j'')]
      (run_took (with_clock (host_policy_new [''a.example'']) limits_default)
      [(0, OpInsert 0 ''k'' (7 :: nat) 100), (50, OpInsert 0 ''k'' 9 100), (60, OpRemove 0 ''j'')])))
      120 0 ''k''"
proof
  show "fst (store_get 120 (store_run (with_clock (host_policy_new [''a.example'']) limits_default)
      [(0, OpInsert 0 ''k'' (7 :: nat) 100), (50, OpInsert 0 ''k'' 9 100), (60, OpRemove 0 ''j'')]) 0 ''k'')
   = Some 9" by (simp add: store_eval)
qed (rule store_refines_map, simp_all)

text \<open>
  C16: An insert is refused exactly when it must be. After any sequence of operations, an insert
  reports \<open>Domains\<close> iff its domain holds no bucket and the domain cap is reached, \<open>Entries\<close> iff the
  identity is new and the domain already holds as many live entries as its cap (expired entries
  never count, whatever the one-sided earliest-deadline guard says), and succeeds otherwise.
\<close>

theorem store_insert_outcome:
  "fst (store_insert now (store_run (with_clock hosts limits) ops) d i v ttl) =
     (let s = store_run (with_clock hosts limits) ops in
      if domain_refused s d then Err Domains
      else if entry_refused now s d i then Err Entries else Ok ())"
proof (cases "domain_refused (store_run (with_clock hosts limits) ops) d")
  case True
  then show ?thesis by (simp add: store_insert_Domains)
next
  case False
  with store_insert_entered [OF fresh_run_ok False refl] show ?thesis by (simp add: Let_def)
qed

text \<open>
  C20: Memory is bounded. After any sequence of operations, whatever the clock read, at most
  \<open>max_domains\<close> domain buckets exist and the container stores at most
  (max_domains + 1) * max_entries_per_domain entries, expired ones included.
\<close>

theorem store_bounded:
  "domains_live (store_run (with_clock hosts limits) ops) \<le> max_domains limits \<and>
   stored_entries (store_run (with_clock hosts limits) ops)
     \<le> (max_domains limits + 1) * max_entries_per_domain limits"
  using stored_entries_bound [OF fresh_run_ok [of hosts limits ops]] fresh_run_ok [of hosts limits ops]
  by (simp add: limits_fresh_run domains_live_def store_ok_def)

text \<open>
  C17: Domains are isolated. What a domain answers is not changed by any sequence of operations
  addressed to other domains (or by the whole-container count), even when those fill their own
  caps, expire, or run in the overflow bucket.
\<close>

theorem store_isolation:
  assumes "\<forall>(t, op)\<in>set ops'. t \<le> now \<and> op_slot op \<noteq> Some d"
  shows "fst (store_get now (store_run (store_run (with_clock hosts limits) ops) ops') d i) =
         fst (store_get now (store_run (with_clock hosts limits) ops) d i)"
  using view_run_other [OF fresh_run_ok assms]
  by (simp add: store_get_def store_with_correct(1) store_run_ok fresh_run_ok)

theorem store_isolation_witness:
  "fst (store_get 10 (store_run (store_run (with_clock (host_policy_new [''a'', ''b'']) limits_default)
      [(0, OpInsert 0 ''k'' (7 :: nat) 100)]) [(5, OpRemove 1 ''k''), (6, OpRemove OVERFLOW ''k'')]) 0 ''k'') = Some 7"
  by (subst store_isolation) (simp_all add: store_eval)

text \<open>
  C21: An entry can be taken once. After a remove returned (or missed) an identity, no later
  remove returns it again unless an insert for that identity ran in between, whatever else ran.
\<close>

theorem store_take_once:
  assumes "\<forall>(t, op)\<in>set ops'. t \<le> now' \<and> \<not> op_inserts d i op"
  shows "fst (store_remove now'
    (store_run (snd (store_remove now (store_run (with_clock hosts limits) ops) d i)) ops') d i) = None"
proof -
  let ?s = "snd (store_remove now (store_run (with_clock hosts limits) ops) d i)"
  have ok: "store_ok ?s" by (rule store_remove_correct(2)) (rule fresh_run_ok)
  have "view ?s now' d i = None" by (simp add: store_remove_correct(3) fresh_run_ok)
  with view_run_absent [OF ok _ assms] show ?thesis
    by (simp add: store_remove_correct(1) store_run_ok ok)
qed

theorem store_take_once_witness:
  "fst (store_remove 5 (store_run (with_clock (host_policy_new [''a'']) limits_default)
      [(0, OpInsert 0 ''k'' (7 :: nat) 100)]) 0 ''k'') = Some 7 \<and>
   fst (store_remove 10 (store_run (snd (store_remove 5 (store_run (with_clock (host_policy_new [''a'']) limits_default)
      [(0, OpInsert 0 ''k'' (7 :: nat) 100)]) 0 ''k'')) [(6, OpInsert 0 ''j'' 8 100), (7, OpGet 0 ''k'')]) 0 ''k'') = None"
proof
  show "fst (store_remove 5 (store_run (with_clock (host_policy_new [''a'']) limits_default)
      [(0, OpInsert 0 ''k'' (7 :: nat) 100)]) 0 ''k'') = Some 7" by (simp add: store_eval)
qed (rule store_take_once, simp)

text \<open>
  A domain slot is never held by nothing. While the entry cap is positive, every domain bucket
  after any sequence of operations holds at least one stored entry, so a domain that has emptied
  gives its slot back.
\<close>

theorem store_slot_has_entry:
  assumes "0 < max_entries_per_domain limits"
    and "map_of (st_domains (store_run (with_clock hosts limits) ops)) d = Some b"
  shows "b_entries b \<noteq> []"
  using fresh_run_no_empty [OF assms(1), of hosts ops] assms(2) by (simp add: no_empty_def)

theorem store_slot_has_entry_witness:
  "b_entries \<lparr>b_entries = [(''k'', \<lparr>e_value = (7 :: nat), e_expires_at = 100\<rparr>)], b_earliest = Some 100\<rparr> \<noteq> []"
  by (rule store_slot_has_entry [of limits_default "host_policy_new [''a'']" "[(0, OpInsert 0 ''k'' 7 100)]" 0])
    (simp_all add: store_eval)

text \<open>
  With an entry cap of zero the container is not inert: an insert for a registered domain is
  refused with \<open>Entries\<close>, and the empty bucket it admitted keeps holding a domain slot, so
  the registered domains use up the domain cap although nothing is ever stored.
\<close>

theorem store_zero_cap_keeps_slot:
  assumes "max_entries_per_domain limits = 0" and "0 < max_domains limits" and "\<not> is_overflow d"
  shows "fst (store_insert now (with_clock hosts limits) d i v ttl) = Err Entries \<and>
    domains_live (snd (store_insert now (with_clock hosts limits) d i v ttl)) = 1"
  using assms
  by (simp add: store_insert_def Let_def note_overflow_def admit_def with_clock_def bucket_default_def
      bump_expired_def put_bucket_def domains_live_def)

theorem store_zero_cap_keeps_slot_witness:
  "fst (store_insert 0 (with_clock (host_policy_new [''a'']) \<lparr>max_domains = 3, max_entries_per_domain = 0\<rparr>)
      0 ''k'' (7 :: nat) 100) = Err Entries"
  by (rule store_zero_cap_keeps_slot [THEN conjunct1]) (simp_all add: store_eval)

end
