(* ===== verification/Ip_Addr.thy ===== *)
theory Ip_Addr
  imports Prelude
begin

text \<open>
  \<open>std::net::IpAddr\<close> and its \<open>FromStr\<close>, as the gateway's address matchers call it: dotted
  decimal without octal forms, and the IPv6 grammar with one \<open>::\<close> and an embedded IPv4
  tail. A reader takes the remaining input and returns the value with what is left, or
  None with the input untouched (the parser's \<open>read_atomically\<close>).
\<close>

datatype IpAddr = V4 "32 word" | V6 "128 word"

definition to_digit :: "int \<Rightarrow> char \<Rightarrow> int option" where
  "to_digit radix c =
     (let b = of_char c :: int;
          d = (if 48 \<le> b \<and> b \<le> 57 then b - 48
               else if 97 \<le> b \<and> b \<le> 122 then b - 87
               else if 65 \<le> b \<and> b \<le> 90 then b - 55
               else 255)
      in if d < radix then Some d else None)"

fun read_digits :: "int \<Rightarrow> int \<Rightarrow> nat \<Rightarrow> nat \<Rightarrow> int \<Rightarrow> string \<Rightarrow> (int \<times> nat \<times> string) option" where
  "read_digits radix maxv max_digits n acc [] = Some (acc, n, [])"
| "read_digits radix maxv max_digits n acc (c # cs) =
     (case to_digit radix c of
        None \<Rightarrow> Some (acc, n, c # cs)
      | Some d \<Rightarrow>
          if maxv < acc * radix + d then None
          else if max_digits < Suc n then None
          else read_digits radix maxv max_digits (Suc n) (acc * radix + d) cs)"

definition read_number :: "int \<Rightarrow> int \<Rightarrow> nat \<Rightarrow> bool \<Rightarrow> string \<Rightarrow> (int \<times> string) option" where
  "read_number radix maxv max_digits allow_zero_prefix s =
     (case read_digits radix maxv max_digits 0 0 s of
        None \<Rightarrow> None
      | Some (v, n, rest) \<Rightarrow>
          if n = 0 then None
          else if \<not> allow_zero_prefix \<and> s \<noteq> [] \<and> hd s = CHR ''0'' \<and> 1 < n then None
          else Some (v, rest))"

definition read_given_char :: "char \<Rightarrow> string \<Rightarrow> string option" where
  "read_given_char c s = (case s of [] \<Rightarrow> None | d # ds \<Rightarrow> if d = c then Some ds else None)"

definition read_separator ::
  "char \<Rightarrow> nat \<Rightarrow> (string \<Rightarrow> ('a \<times> string) option) \<Rightarrow> string \<Rightarrow> ('a \<times> string) option" where
  "read_separator sep i inner s =
     (if 0 < i then (case read_given_char sep s of None \<Rightarrow> None | Some r \<Rightarrow> inner r)
      else inner s)"

fun read_v4_octets :: "nat \<Rightarrow> nat \<Rightarrow> string \<Rightarrow> (int list \<times> string) option" where
  "read_v4_octets 0 i s = Some ([], s)"
| "read_v4_octets (Suc k) i s =
     (case read_separator CHR ''.'' i (read_number 10 255 3 False) s of
        None \<Rightarrow> None
      | Some (v, r) \<Rightarrow>
          (case read_v4_octets k (Suc i) r of
             None \<Rightarrow> None
           | Some (vs, r') \<Rightarrow> Some (v # vs, r')))"

definition from_digits :: "int \<Rightarrow> int list \<Rightarrow> int" where
  "from_digits base ds = foldl (\<lambda>acc d. acc * base + d) 0 ds"

definition read_ipv4_octets :: "string \<Rightarrow> (int list \<times> string) option" where
  "read_ipv4_octets s = read_v4_octets 4 0 s"

definition read_ipv4_addr :: "string \<Rightarrow> (32 word \<times> string) option" where
  "read_ipv4_addr s =
     map_option (\<lambda>(vs, r). (word_of_int (from_digits 256 vs), r)) (read_ipv4_octets s)"

text \<open>
  \<open>read_groups\<close> over a slice of \<open>limit\<close> groups: the groups read, whether an embedded IPv4
  address ended them, and the rest. \<open>k\<close> counts the slots that are left.
\<close>

fun read_groups :: "nat \<Rightarrow> nat \<Rightarrow> string \<Rightarrow> int list \<times> bool \<times> string" where
  "read_groups 0 i s = ([], False, s)"
| "read_groups (Suc k) i s =
     (case (if 0 < k then read_separator CHR '':'' i read_ipv4_octets s else None) of
        Some ([a, b, c, d], r) \<Rightarrow> ([a * 256 + b, c * 256 + d], True, r)
      | _ \<Rightarrow>
          (case read_separator CHR '':'' i (read_number 16 65535 4 True) s of
             None \<Rightarrow> ([], False, s)
           | Some (g, r) \<Rightarrow>
               (case read_groups k (Suc i) r of (gs, v4, r') \<Rightarrow> (g # gs, v4, r'))))"

definition read_ipv6_addr :: "string \<Rightarrow> (128 word \<times> string) option" where
  "read_ipv6_addr s =
     (case read_groups 8 0 s of
        (hd8, head_ipv4, r) \<Rightarrow>
          if length hd8 = 8 then Some (word_of_int (from_digits 65536 hd8), r)
          else if head_ipv4 then None
          else (case read_given_char CHR '':'' r of
                  None \<Rightarrow> None
                | Some r1 \<Rightarrow>
                    (case read_given_char CHR '':'' r1 of
                       None \<Rightarrow> None
                     | Some r2 \<Rightarrow>
                         (case read_groups (8 - (length hd8 + 1)) 0 r2 of
                            (tl7, _, r3) \<Rightarrow>
                              Some (word_of_int (from_digits 65536
                                (hd8 @ replicate (8 - length hd8 - length tl7) 0 @ tl7)), r3)))))"

definition parse_addr :: "string \<Rightarrow> IpAddr option" where
  "parse_addr s =
     (case read_ipv4_addr s of
        Some (a, r) \<Rightarrow> if r = [] then Some (V4 a) else None
      | None \<Rightarrow>
          (case read_ipv6_addr s of
             Some (a, r) \<Rightarrow> if r = [] then Some (V6 a) else None
           | None \<Rightarrow> None))"

lemma parse_addr_Nil [simp]: "parse_addr [] = None"
  by code_simp

end
