(* ===== verification/Ip_Rules.thy ===== *)
theory Ip_Rules
  imports Ip_Addr
begin

text \<open>
  \<open>pingap-util/src/ip.rs\<close>: the address set every access control of the gateway shares. CIDR
  parsing and membership are the \<open>ipnet\<close> crate's and stay parameters (\<open>ipnet_lib\<close>); address
  parsing is the standard library's. The locale \<open>entry_list\<close> states what the three
  callers (ACL rules, access lists, the WAF address filter) rely on when they compare the
  stored count with the number of entries they passed in.
\<close>

section \<open>The address set\<close>

record 'n ipnet_lib =
  net_from_str :: "string \<Rightarrow> 'n option"
  net_contains :: "'n \<Rightarrow> IpAddr \<Rightarrow> bool"

record 'n ip_rules =
  ip_net_list :: "'n list"
  ip_set :: "IpAddr set"

definition ip_rules_add :: "'n ipnet_lib \<Rightarrow> 'n ip_rules \<Rightarrow> string \<Rightarrow> 'n ip_rules" where
  "ip_rules_add lib r item =
     (case net_from_str lib item of
        Some value \<Rightarrow> r\<lparr>ip_net_list := ip_net_list r @ [value]\<rparr>
      | None \<Rightarrow>
          (case parse_addr item of
             Some value \<Rightarrow> r\<lparr>ip_set := insert value (ip_set r)\<rparr>
           | None \<Rightarrow> r))"

definition ip_rules_new :: "'n ipnet_lib \<Rightarrow> string list \<Rightarrow> 'n ip_rules" where
  "ip_rules_new lib values =
     foldl (ip_rules_add lib) \<lparr>ip_net_list = [], ip_set = {}\<rparr> values"

definition ip_rules_len :: "'n ip_rules \<Rightarrow> usize" where
  "ip_rules_len r = length (ip_net_list r) + card (ip_set r)"

definition ip_rules_is_empty :: "'n ip_rules \<Rightarrow> bool" where
  "ip_rules_is_empty r \<longleftrightarrow> ip_rules_len r = 0"

definition is_match_addr :: "'n ipnet_lib \<Rightarrow> 'n ip_rules \<Rightarrow> IpAddr \<Rightarrow> bool" where
  "is_match_addr lib r ip_addr =
     (if ip_addr \<in> ip_set r then True
      else list_ex (\<lambda>net. net_contains lib net ip_addr) (ip_net_list r))"

datatype AddrParseError = AddrParseError

definition ip_is_match ::
  "'n ipnet_lib \<Rightarrow> 'n ip_rules \<Rightarrow> string \<Rightarrow> (bool, AddrParseError) result" where
  "ip_is_match lib r ip =
     (case parse_addr ip of
        None \<Rightarrow> Err AddrParseError
      | Some addr \<Rightarrow> Ok (is_match_addr lib r addr))"

section \<open>What one entry contributes\<close>

definition entry_addr :: "'n ipnet_lib \<Rightarrow> string \<Rightarrow> IpAddr option" where
  "entry_addr lib v = (if net_from_str lib v = None then parse_addr v else None)"

definition entry_ok :: "'n ipnet_lib \<Rightarrow> string \<Rightarrow> bool" where
  "entry_ok lib v \<longleftrightarrow> net_from_str lib v \<noteq> None \<or> parse_addr v \<noteq> None"

definition entry_covers :: "'n ipnet_lib \<Rightarrow> string \<Rightarrow> IpAddr \<Rightarrow> bool" where
  "entry_covers lib v a =
     (case net_from_str lib v of
        Some net \<Rightarrow> net_contains lib net a
      | None \<Rightarrow> parse_addr v = Some a)"

lemma foldl_ip_rules_add:
  "foldl (ip_rules_add lib) r vs =
     r\<lparr>ip_net_list := ip_net_list r @ List.map_filter (net_from_str lib) vs,
       ip_set := ip_set r \<union> set (List.map_filter (entry_addr lib) vs)\<rparr>"
  by (induction vs arbitrary: r)
    (auto simp: ip_rules_add_def entry_addr_def map_filter_simps split: option.splits)

lemma ip_rules_new_nets: "ip_net_list (ip_rules_new lib vs) = List.map_filter (net_from_str lib) vs"
  and ip_rules_new_addrs: "ip_set (ip_rules_new lib vs) = set (List.map_filter (entry_addr lib) vs)"
  by (simp_all add: ip_rules_new_def foldl_ip_rules_add)

lemmas ip_rules_new_sel [simp] = ip_rules_new_nets ip_rules_new_addrs

lemma set_map_filter: "set (List.map_filter f vs) = {y. \<exists>v\<in>set vs. f v = Some y}"
  by (induction vs) (auto simp: map_filter_simps split: option.splits)

lemma entries_length:
  "length (List.map_filter (net_from_str lib) vs) + length (List.map_filter (entry_addr lib) vs) =
     length (filter (entry_ok lib) vs)"
  by (induction vs)
    (auto simp: map_filter_simps entry_addr_def entry_ok_def split: option.splits)

lemma is_match_addr_new:
  "is_match_addr lib (ip_rules_new lib vs) a \<longleftrightarrow> (\<exists>v\<in>set vs. entry_covers lib v a)"
proof -
  have "entry_covers lib v a \<longleftrightarrow> entry_addr lib v = Some a \<or>
    (\<exists>net. net_from_str lib v = Some net \<and> net_contains lib net a)" for v
    by (cases "net_from_str lib v") (auto simp: entry_covers_def entry_addr_def)
  then have "(\<exists>v\<in>set vs. entry_covers lib v a) \<longleftrightarrow>
    (\<exists>v\<in>set vs. entry_addr lib v = Some a) \<or>
    (\<exists>v\<in>set vs. \<exists>net. net_from_str lib v = Some net \<and> net_contains lib net a)"
    by blast
  then show ?thesis
    by (auto simp: is_match_addr_def list_ex_iff set_map_filter)
qed

lemma ip_rules_len_le_ok:
  "ip_rules_len (ip_rules_new lib vs) \<le> length (filter (entry_ok lib) vs)"
proof -
  have "card (set (List.map_filter (entry_addr lib) vs)) \<le> length (List.map_filter (entry_addr lib) vs)"
    by (rule card_length)
  then show ?thesis
    using entries_length [of lib vs] by (simp add: ip_rules_len_def)
qed

text \<open>
  The stored count equals the number of entries exactly when every entry parses and no
  single address occurs twice: the address set drops duplicates, the network list keeps them.
\<close>

lemma ip_rules_len_eq_iff:
  "ip_rules_len (ip_rules_new lib vs) = length vs \<longleftrightarrow>
     list_all (entry_ok lib) vs \<and> distinct (List.map_filter (entry_addr lib) vs)"
proof -
  let ?A = "List.map_filter (entry_addr lib) vs"
  have card: "card (set ?A) = length ?A \<longleftrightarrow> distinct ?A"
    using card_distinct distinct_card by blast
  have le: "card (set ?A) \<le> length ?A" by (rule card_length)
  have filt: "length (filter (entry_ok lib) vs) = length vs \<longleftrightarrow> list_all (entry_ok lib) vs"
  proof
    assume "length (filter (entry_ok lib) vs) = length vs"
    then show "list_all (entry_ok lib) vs"
      by (metis filter_id_conv length_filter_less less_irrefl list_all_iff)
  qed (simp add: list_all_iff filter_id_conv)
  have le2: "length (filter (entry_ok lib) vs) \<le> length vs" by (rule length_filter_le)
  have "ip_rules_len (ip_rules_new lib vs) = length vs \<longleftrightarrow>
    card (set ?A) = length ?A \<and> length (filter (entry_ok lib) vs) = length vs"
    unfolding ip_rules_len_def ip_rules_new_sel
    using entries_length [of lib vs] le le2 by linarith
  with card filt show ?thesis by blast
qed

section \<open>The interface of the callers\<close>

text \<open>
  A caller builds the set, compares \<open>len\<close> with the number of entries and, on a difference,
  reports the first entry that alone stores nothing. The laws are about \<open>new\<close> and \<open>len\<close> only.
\<close>

locale entry_list =
  fixes build :: "'v list \<Rightarrow> 'r"
    and size_of :: "'r \<Rightarrow> nat"
    and understood :: "'v \<Rightarrow> bool"
  assumes size_le: "size_of (build vs) \<le> length (filter understood vs)"
    and size_single: "size_of (build [v]) = (if understood v then 1 else 0)"
begin

lemma full_size_understood:
  assumes "size_of (build vs) = length vs"
  shows "\<forall>v\<in>set vs. understood v"
proof (rule ccontr)
  assume "\<not> (\<forall>v\<in>set vs. understood v)"
  then obtain v where "v \<in> set vs" and "\<not> understood v" by blast
  then have "length (filter understood vs) < length vs"
    by (rule length_filter_less)
  with size_le [of vs] assms show False by linarith
qed

lemma find_stores_nothing:
  "find (\<lambda>v. size_of (build [v]) = 0) vs = find (\<lambda>v. \<not> understood v) vs"
  by (simp add: size_single)

lemma unreadable_is_reported:
  assumes "v \<in> set vs" and "\<not> understood v"
  shows "\<exists>w. find (\<lambda>v. size_of (build [v]) = 0) vs = Some w \<and> w \<in> set vs \<and> \<not> understood w"
    and "size_of (build vs) \<noteq> length vs"
proof -
  have "find (\<lambda>v. \<not> understood v) vs \<noteq> None"
    using assms by (simp add: find_None_iff) blast
  then show "\<exists>w. find (\<lambda>v. size_of (build [v]) = 0) vs = Some w \<and> w \<in> set vs \<and> \<not> understood w"
    unfolding find_stores_nothing by (auto simp: find_Some_iff)
  show "size_of (build vs) \<noteq> length vs"
    using assms full_size_understood by blast
qed

end

interpretation ipr: entry_list "ip_rules_new lib" ip_rules_len "entry_ok lib" for lib
proof
  fix vs v
  show "ip_rules_len (ip_rules_new lib vs) \<le> length (filter (entry_ok lib) vs)"
    by (rule ip_rules_len_le_ok)
  show "ip_rules_len (ip_rules_new lib [v]) = (if entry_ok lib v then 1 else 0)"
    by (auto simp: ip_rules_len_def map_filter_simps entry_addr_def entry_ok_def
        split: option.splits)
qed

text \<open>The error arm the three callers share: \<open>find(..).cloned().unwrap_or_default()\<close>.\<close>

definition bad_entry :: "'n ipnet_lib \<Rightarrow> string list \<Rightarrow> string" where
  "bad_entry lib vs =
     (case find (\<lambda>v. ip_rules_is_empty (ip_rules_new lib [v])) vs of
        Some v \<Rightarrow> v
      | None \<Rightarrow> [])"

lemma bad_entry_unreadable:
  assumes "v \<in> set vs" and "\<not> entry_ok lib v"
  shows "bad_entry lib vs \<in> set vs \<and> \<not> entry_ok lib (bad_entry lib vs)"
proof -
  obtain w where "find (\<lambda>v. ip_rules_len (ip_rules_new lib [v]) = 0) vs = Some w"
    and "w \<in> set vs" and "\<not> entry_ok lib w"
    using ipr.unreadable_is_reported(1) [OF assms] by blast
  then show ?thesis
    by (simp add: bad_entry_def ip_rules_is_empty_def)
qed

lemma bad_entry_all_ok:
  assumes "list_all (entry_ok lib) vs"
  shows "bad_entry lib vs = []"
proof -
  have "find (\<lambda>v. ip_rules_is_empty (ip_rules_new lib [v])) vs = None"
    using assms by (auto simp: ip_rules_is_empty_def ipr.find_stores_nothing find_None_iff list_all_iff)
  then show ?thesis by (simp add: bad_entry_def)
qed

end
