(* ===== verification/Acl_Rule.thy ===== *)
theory Acl_Rule
  imports Ip_Rules
begin

text \<open>
  \<open>crates/pingap-acl/src/rule.rs\<close>: the ACL rule model, the validation that turns a written
  rule into a checked one, and matching against an extracted field value. The regex engine,
  the CIDR library, the GeoIP database and the Unicode case tables are parameters, collected
  in \<open>acl_env\<close>.
\<close>

section \<open>Fields, operators, actions\<close>

datatype Field = Ip | GeoCountry | UserAgent | Referer | Method | Header

datatype Operator = Equals | Contains | Regex | InCidr | InList

datatype Action = Allow | Deny | Challenge | Log

fun field_key :: "Field \<Rightarrow> string" where
  "field_key Ip = ''ip''"
| "field_key GeoCountry = ''geo_country''"
| "field_key UserAgent = ''user_agent''"
| "field_key Referer = ''referer''"
| "field_key Method = ''method''"
| "field_key Header = ''header''"

fun field_operators :: "Field \<Rightarrow> Operator list" where
  "field_operators Ip = [InCidr, Equals, InList]"
| "field_operators GeoCountry = [Equals, InList]"
| "field_operators Method = [Equals, InList]"
| "field_operators UserAgent = [Equals, Contains, Regex, InList]"
| "field_operators Referer = [Equals, Contains, Regex, InList]"
| "field_operators Header = [Equals, Contains, Regex, InList]"

fun operator_key :: "Operator \<Rightarrow> string" where
  "operator_key Equals = ''equals''"
| "operator_key Contains = ''contains''"
| "operator_key Regex = ''regex''"
| "operator_key InCidr = ''in_cidr''"
| "operator_key InList = ''in_list''"

fun action_key :: "Action \<Rightarrow> string" where
  "action_key Allow = ''allow''"
| "action_key Deny = ''deny''"
| "action_key Challenge = ''challenge''"
| "action_key Log = ''log''"

definition action_ALL :: "Action list" where
  "action_ALL = [Allow, Deny, Challenge, Log]"

fun is_terminal :: "Action \<Rightarrow> bool" where
  "is_terminal Allow = True"
| "is_terminal Deny = True"
| "is_terminal Challenge = True"
| "is_terminal Log = False"

datatype RuleError =
    OperatorNotOnField nat string string string
  | NoValues nat
  | EqualsWantsOneValue nat nat
  | HeaderNotNamed nat
  | HeaderOnOtherField nat string string
  | BadRegex nat string
  | BadCidr nat string
  | GeoUnavailable nat

section \<open>The library the rules run on\<close>

text \<open>
  \<open>regex_new\<close> and \<open>regex_is_match\<close> stand for the \<open>regex\<close> crate, \<open>acl_ipnet\<close> for \<open>ipnet\<close>,
  \<open>to_lowercase\<close> for \<open>str::to_lowercase\<close> with its Unicode tables, \<open>geo\<close> for the cargo
  feature of that name and \<open>lookup_country_code\<close> for the GeoIP database.
\<close>

record ('n, 're) acl_env =
  acl_ipnet :: "'n ipnet_lib"
  regex_new :: "string \<Rightarrow> ('re, string) result"
  regex_is_match :: "'re \<Rightarrow> string \<Rightarrow> bool"
  to_lowercase :: "string \<Rightarrow> string"
  geo :: bool
  lookup_country_code :: "IpAddr \<Rightarrow> string option"

section \<open>Rules as written and as validated\<close>

record acl_rule =
  acl_field :: Field
  acl_operator :: Operator
  acl_values :: "string list"
  acl_header :: "string option"
  acl_action :: Action
  acl_order :: int
  acl_enabled :: bool

record ('n, 're) validated_rule =
  vr_spec :: acl_rule
  vr_patterns :: "'re list"
  vr_cidrs :: "'n ip_rules option"
  vr_folded :: "string list"

text \<open>The two compilation steps of \<open>ValidatedRule::new\<close>, each skipped unless its operator asks for it.\<close>

definition compile_patterns ::
  "('n, 're) acl_env \<Rightarrow> acl_rule \<Rightarrow> nat \<Rightarrow> ('re list, RuleError) result" where
  "compile_patterns env spec index =
     (if acl_operator spec = Regex
      then try_map (\<lambda>value. map_err (\<lambda>e. BadRegex index e) (regex_new env value)) (acl_values spec)
      else Ok [])"

definition compile_cidrs ::
  "('n, 're) acl_env \<Rightarrow> acl_rule \<Rightarrow> nat \<Rightarrow> ('n ip_rules option, RuleError) result" where
  "compile_cidrs env spec index =
     (if acl_operator spec = InCidr
      then (let rules = ip_rules_new (acl_ipnet env) (acl_values spec) in
            if ip_rules_len rules \<noteq> length (acl_values spec)
            then Err (BadCidr index (bad_entry (acl_ipnet env) (acl_values spec)))
            else Ok (Some rules))
      else Ok None)"

definition validated_rule_new ::
  "('n, 're) acl_env \<Rightarrow> acl_rule \<Rightarrow> nat \<Rightarrow> (('n, 're) validated_rule, RuleError) result" where
  "validated_rule_new env spec index =
     (let field = acl_field spec; operator = acl_operator spec in
      if operator \<notin> set (field_operators field)
      then Err (OperatorNotOnField index (field_key field) (operator_key operator)
             (join_with '', '' (map operator_key (field_operators field))))
      else if acl_values spec = [] then Err (NoValues index)
      else if operator = Equals \<and> length (acl_values spec) \<noteq> 1
      then Err (EqualsWantsOneValue index (length (acl_values spec)))
      else if field = Header \<and> acl_header spec = None then Err (HeaderNotNamed index)
      else if field \<noteq> Header \<and> acl_header spec \<noteq> None
      then Err (HeaderOnOtherField index (field_key field) (the (acl_header spec)))
      else if field = GeoCountry \<and> \<not> geo env then Err (GeoUnavailable index)
      else result_bind (compile_patterns env spec index) (\<lambda>patterns.
           result_bind (compile_cidrs env spec index) (\<lambda>cidrs.
           Ok \<lparr>vr_spec = spec, vr_patterns = patterns, vr_cidrs = cidrs,
               vr_folded = map (to_lowercase env) (acl_values spec)\<rparr>)))"

definition vr_action :: "('n, 're) validated_rule \<Rightarrow> Action" where
  "vr_action r = acl_action (vr_spec r)"

definition rule_matches :: "('n, 're) acl_env \<Rightarrow> ('n, 're) validated_rule \<Rightarrow> string \<Rightarrow> bool" where
  "rule_matches env r value =
     (if \<not> acl_enabled (vr_spec r) then False
      else (case acl_operator (vr_spec r) of
        InCidr \<Rightarrow>
          (case Option.bind (vr_cidrs r) (\<lambda>rules. result_ok (ip_is_match (acl_ipnet env) rules value)) of
             Some b \<Rightarrow> b
           | None \<Rightarrow> False)
      | Regex \<Rightarrow> list_ex (\<lambda>re. regex_is_match env re value) (vr_patterns r)
      | Contains \<Rightarrow> list_ex (\<lambda>v. str_contains (to_lowercase env value) v) (vr_folded r)
      | Equals \<Rightarrow> to_lowercase env value \<in> set (vr_folded r)
      | InList \<Rightarrow> to_lowercase env value \<in> set (vr_folded r)))"

section \<open>What validation guarantees\<close>

text \<open>The conditions under which a written rule is enforceable.\<close>

definition rule_enforceable :: "('n, 're) acl_env \<Rightarrow> acl_rule \<Rightarrow> bool" where
  "rule_enforceable env spec \<longleftrightarrow>
     acl_operator spec \<in> set (field_operators (acl_field spec)) \<and>
     acl_values spec \<noteq> [] \<and>
     (acl_operator spec = Equals \<longrightarrow> length (acl_values spec) = 1) \<and>
     (acl_field spec = Header \<longleftrightarrow> acl_header spec \<noteq> None) \<and>
     (acl_field spec = GeoCountry \<longrightarrow> geo env) \<and>
     (acl_operator spec = Regex \<longrightarrow> (\<forall>v\<in>set (acl_values spec). is_Ok (regex_new env v))) \<and>
     (acl_operator spec = InCidr \<longrightarrow>
        list_all (entry_ok (acl_ipnet env)) (acl_values spec) \<and>
        distinct (List.map_filter (entry_addr (acl_ipnet env)) (acl_values spec)))"

definition rule_compiled :: "('n, 're) acl_env \<Rightarrow> acl_rule \<Rightarrow> ('n, 're) validated_rule" where
  "rule_compiled env spec =
     \<lparr>vr_spec = spec,
      vr_patterns = (if acl_operator spec = Regex
                     then map (\<lambda>v. ok (regex_new env v)) (acl_values spec) else []),
      vr_cidrs = (if acl_operator spec = InCidr
                  then Some (ip_rules_new (acl_ipnet env) (acl_values spec)) else None),
      vr_folded = map (to_lowercase env) (acl_values spec)\<rparr>"

lemma try_map_map_err_Ok:
  "try_map (\<lambda>v. map_err g (f v)) vs = Ok ps \<longleftrightarrow>
     (\<forall>v\<in>set vs. is_Ok (f v)) \<and> ps = map (\<lambda>v. ok (f v)) vs"
proof -
  have "list_all2 (\<lambda>x y. f x = Ok y) vs ps \<longleftrightarrow>
    (\<forall>v\<in>set vs. is_Ok (f v)) \<and> ps = map (\<lambda>v. ok (f v)) vs"
  proof
    show "list_all2 (\<lambda>x y. f x = Ok y) vs ps \<Longrightarrow>
      (\<forall>v\<in>set vs. is_Ok (f v)) \<and> ps = map (\<lambda>v. ok (f v)) vs"
      by (induction rule: list_all2_induct) auto
    show "(\<forall>v\<in>set vs. is_Ok (f v)) \<and> ps = map (\<lambda>v. ok (f v)) vs \<Longrightarrow>
      list_all2 (\<lambda>x y. f x = Ok y) vs ps"
      by (auto simp: list_all2_conv_all_nth)
  qed
  then show ?thesis by (simp add: try_map_Ok map_err_Ok)
qed

lemma compile_patterns_Ok:
  "compile_patterns env spec index = Ok ps \<longleftrightarrow>
     (acl_operator spec = Regex \<longrightarrow> (\<forall>v\<in>set (acl_values spec). is_Ok (regex_new env v))) \<and>
     ps = vr_patterns (rule_compiled env spec)"
  by (auto simp: compile_patterns_def rule_compiled_def try_map_map_err_Ok)

lemma compile_cidrs_Ok:
  "compile_cidrs env spec index = Ok cs \<longleftrightarrow>
     (acl_operator spec = InCidr \<longrightarrow>
        list_all (entry_ok (acl_ipnet env)) (acl_values spec) \<and>
        distinct (List.map_filter (entry_addr (acl_ipnet env)) (acl_values spec))) \<and>
     cs = vr_cidrs (rule_compiled env spec)"
  by (auto simp: compile_cidrs_def rule_compiled_def Let_def ip_rules_len_eq_iff)

lemma validated_rule_new_iff:
  "validated_rule_new env spec index = Ok r \<longleftrightarrow>
     rule_enforceable env spec \<and> r = rule_compiled env spec"
  by (auto simp: validated_rule_new_def rule_enforceable_def Let_def result_bind_Ok
      compile_patterns_Ok compile_cidrs_Ok rule_compiled_def)

text \<open>How a validated rule decides, operator by operator.\<close>

definition spec_matches :: "('n, 're) acl_env \<Rightarrow> acl_rule \<Rightarrow> string \<Rightarrow> bool" where
  "spec_matches env spec value \<longleftrightarrow>
     acl_enabled spec \<and>
     (\<exists>v\<in>set (acl_values spec).
        (case acl_operator spec of
           InCidr \<Rightarrow> (\<exists>a. parse_addr value = Some a \<and> entry_covers (acl_ipnet env) v a)
         | Regex \<Rightarrow> regex_is_match env (ok (regex_new env v)) value
         | Contains \<Rightarrow> str_contains (to_lowercase env value) (to_lowercase env v)
         | Equals \<Rightarrow> to_lowercase env value = to_lowercase env v
         | InList \<Rightarrow> to_lowercase env value = to_lowercase env v))"

lemma rule_matches_compiled:
  "rule_matches env (rule_compiled env spec) value \<longleftrightarrow> spec_matches env spec value"
proof (cases "acl_operator spec")
  case InCidr
  then show ?thesis
    by (cases "parse_addr value")
      (auto simp: rule_matches_def rule_compiled_def spec_matches_def ip_is_match_def is_match_addr_new)
qed (auto simp: rule_matches_def rule_compiled_def spec_matches_def list_ex_iff)

end
