(* ===== verification/Acl_Evaluate.thy ===== *)
theory Acl_Evaluate
  imports Acl_Rule
begin

text \<open>
  \<open>crates/pingap-acl/src/evaluate.rs\<close>: the ordered rule table and its walk. The source keeps
  a lazily filled country cache across the walk; the model threads it. The declarative
  reading (\<open>deciding\<close>, \<open>noted\<close>) is what an operator does by eye: read the
  table top to bottom, the first matching terminal rule decides.
\<close>

section \<open>The table and the request facts\<close>

datatype DefaultAction = DefaultAllow | DefaultDeny | DefaultChallenge

record request_facts =
  rf_client_ip :: string
  rf_method :: string
  rf_headers :: "(string \<times> string) list"

definition facts_header :: "request_facts \<Rightarrow> string \<Rightarrow> string" where
  "facts_header facts name =
     (case find (\<lambda>(k, _). eq_ignore_ascii_case k name) (rf_headers facts) of
        Some (_, v) \<Rightarrow> v
      | None \<Rightarrow> [])"

definition country_of :: "('n, 're) acl_env \<Rightarrow> string \<Rightarrow> string" where
  "country_of env ip =
     (if geo env
      then (case Option.bind (parse_addr ip) (lookup_country_code env) of
              Some c \<Rightarrow> c
            | None \<Rightarrow> [])
      else [])"

record outcome =
  out_allowed :: bool
  out_action :: "Action option"
  out_challenged :: bool
  out_decided_by :: "nat option"
  out_logged :: "nat list"

record ('n, 're) rule_set =
  rs_rules :: "('n, 're) validated_rule list"
  rs_default_action :: DefaultAction

definition rule_set_new ::
  "('n, 're) validated_rule list \<Rightarrow> DefaultAction \<Rightarrow> ('n, 're) rule_set" where
  "rule_set_new rules default_action =
     \<lparr>rs_rules = sort_key (\<lambda>r. acl_order (vr_spec r)) rules,
      rs_default_action = default_action\<rparr>"

definition rule_set_is_empty :: "('n, 're) rule_set \<Rightarrow> bool" where
  "rule_set_is_empty rs \<longleftrightarrow> rs_rules rs = []"

text \<open>The value of the field a rule tests, with the country cache before and after.\<close>

definition field_value ::
  "('n, 're) acl_env \<Rightarrow> request_facts \<Rightarrow> ('n, 're) validated_rule \<Rightarrow> string option \<Rightarrow>
     string \<times> string option" where
  "field_value env facts rule country =
     (case acl_field (vr_spec rule) of
        Ip \<Rightarrow> (rf_client_ip facts, country)
      | Method \<Rightarrow> (rf_method facts, country)
      | UserAgent \<Rightarrow> (facts_header facts ''user-agent'', country)
      | Referer \<Rightarrow> (facts_header facts ''referer'', country)
      | Header \<Rightarrow>
          ((case acl_header (vr_spec rule) of
              Some name \<Rightarrow> facts_header facts name
            | None \<Rightarrow> []), country)
      | GeoCountry \<Rightarrow>
          (case country of
             Some c \<Rightarrow> (c, Some c)
           | None \<Rightarrow> (let c = country_of env (rf_client_ip facts) in (c, Some c))))"

fun default_as_action :: "DefaultAction \<Rightarrow> Action" where
  "default_as_action DefaultAllow = Allow"
| "default_as_action DefaultDeny = Deny"
| "default_as_action DefaultChallenge = Challenge"

fun walk_rules ::
  "('n, 're) acl_env \<Rightarrow> request_facts \<Rightarrow> DefaultAction \<Rightarrow> ('n, 're) validated_rule list \<Rightarrow>
     nat \<Rightarrow> string option \<Rightarrow> nat list \<Rightarrow> outcome" where
  "walk_rules env facts default_action [] index country logged =
     (let action = default_as_action default_action in
      \<lparr>out_allowed = (action = Allow), out_action = Some action,
       out_challenged = (action = Challenge), out_decided_by = None, out_logged = logged\<rparr>)"
| "walk_rules env facts default_action (rule # rules) index country logged =
     (case field_value env facts rule country of
        (value, country') \<Rightarrow>
          if \<not> rule_matches env rule value
          then walk_rules env facts default_action rules (Suc index) country' logged
          else (case vr_action rule of
             Log \<Rightarrow>
               walk_rules env facts default_action rules (Suc index) country' (logged @ [index])
           | Allow \<Rightarrow>
               \<lparr>out_allowed = True, out_action = Some Allow, out_challenged = False,
                out_decided_by = Some index, out_logged = logged\<rparr>
           | Deny \<Rightarrow>
               \<lparr>out_allowed = False, out_action = Some Deny, out_challenged = False,
                out_decided_by = Some index, out_logged = logged\<rparr>
           | Challenge \<Rightarrow>
               \<lparr>out_allowed = False, out_action = Some Challenge, out_challenged = True,
                out_decided_by = Some index, out_logged = logged\<rparr>))"

definition rule_set_evaluate ::
  "('n, 're) acl_env \<Rightarrow> ('n, 're) rule_set \<Rightarrow> request_facts \<Rightarrow> outcome" where
  "rule_set_evaluate env rs facts =
     walk_rules env facts (rs_default_action rs) (rs_rules rs) 0 None []"

section \<open>The declarative reading of a table\<close>

text \<open>
  A first-match table: rules that hit are either terminal, and then the first of them
  decides, or observations, which accumulate up to that point. The locale holds for any
  list of rules with a hit predicate and a terminal flag.
\<close>

locale first_match =
  fixes hits :: "'r \<Rightarrow> bool"
    and terminal :: "'r \<Rightarrow> bool"
begin

definition deciding :: "'r list \<Rightarrow> nat option" where
  "deciding rs = find (\<lambda>i. hits (rs ! i) \<and> terminal (rs ! i)) [0..<length rs]"

definition noted :: "'r list \<Rightarrow> nat list" where
  "noted rs = filter (\<lambda>i. hits (rs ! i) \<and> \<not> terminal (rs ! i))
     [0..<(case deciding rs of Some i \<Rightarrow> i | None \<Rightarrow> length rs)]"

lemma find_upt_shift:
  "find P [Suc m..<Suc n] = map_option Suc (find (\<lambda>i. P (Suc i)) [m..<n])"
proof -
  have "find P (map Suc xs) = map_option Suc (find (\<lambda>i. P (Suc i)) xs)" for xs
    by (induction xs) auto
  then show ?thesis by (metis map_Suc_upt)
qed

lemma deciding_Nil [simp]: "deciding [] = None"
  by (simp add: deciding_def)

lemma deciding_Cons:
  "deciding (r # rs) =
     (if hits r \<and> terminal r then Some 0 else map_option Suc (deciding rs))"
  by (simp add: deciding_def upt_conv_Cons find_upt_shift del: upt_Suc)

lemma filter_upt_shift:
  "filter P [Suc m..<Suc n] = map Suc (filter (\<lambda>i. P (Suc i)) [m..<n])"
  by (metis (no_types, lifting) comp_apply filter_cong filter_map map_Suc_upt)

lemma noted_Nil [simp]: "noted [] = []"
  by (simp add: noted_def)

lemma noted_Cons:
  "noted (r # rs) =
     (if hits r \<and> terminal r then []
      else (if hits r then [0] else []) @ map Suc (noted rs))"
proof (cases "hits r \<and> terminal r")
  case True
  then show ?thesis by (simp add: noted_def deciding_Cons)
next
  case False
  let ?n = "case deciding rs of Some i \<Rightarrow> i | None \<Rightarrow> length rs"
  have "(case deciding (r # rs) of Some i \<Rightarrow> i | None \<Rightarrow> length (r # rs)) = Suc ?n"
    using False by (cases "deciding rs") (auto simp: deciding_Cons)
  then show ?thesis
    using False
    by (auto simp: noted_def upt_conv_Cons filter_upt_shift simp del: upt_Suc)
qed

lemma deciding_Some:
  "deciding rs = Some i \<longleftrightarrow>
     i < length rs \<and> hits (rs ! i) \<and> terminal (rs ! i) \<and>
     (\<forall>j<i. \<not> (hits (rs ! j) \<and> terminal (rs ! j)))"
  by (auto simp: deciding_def find_Some_iff nth_append)

lemma deciding_None:
  "deciding rs = None \<longleftrightarrow> (\<forall>r\<in>set rs. \<not> (hits r \<and> terminal r))"
  by (auto simp: deciding_def find_None_iff all_set_conv_all_nth)

text \<open>Rules below the deciding one never matter, and a non-terminal rule never decides.\<close>

lemma deciding_append:
  "deciding rs = Some i \<Longrightarrow> deciding (rs @ ss) = Some i"
  by (auto simp: deciding_Some nth_append)

lemma noted_append:
  "deciding rs = Some i \<Longrightarrow> noted (rs @ ss) = noted rs"
proof -
  assume d: "deciding rs = Some i"
  then have "i < length rs" by (simp add: deciding_Some)
  with deciding_append [OF d, of ss] d show ?thesis
    by (auto simp: noted_def nth_append intro!: filter_cong)
qed

end

text \<open>Without the cache: what a rule reads is a function of the facts alone.\<close>

definition rule_hits ::
  "('n, 're) acl_env \<Rightarrow> request_facts \<Rightarrow> ('n, 're) validated_rule \<Rightarrow> bool" where
  "rule_hits env facts rule = rule_matches env rule (fst (field_value env facts rule None))"

definition rule_terminal :: "('n, 're) validated_rule \<Rightarrow> bool" where
  "rule_terminal rule = is_terminal (vr_action rule)"

interpretation acl: first_match "rule_hits env facts" rule_terminal for env facts .

definition cache_ok :: "('n, 're) acl_env \<Rightarrow> request_facts \<Rightarrow> string option \<Rightarrow> bool" where
  "cache_ok env facts country \<longleftrightarrow>
     (\<forall>c. country = Some c \<longrightarrow> c = country_of env (rf_client_ip facts))"

lemma cache_ok_None [simp]: "cache_ok env facts None"
  by (simp add: cache_ok_def)

lemma field_value_cache:
  assumes "cache_ok env facts country"
  shows "fst (field_value env facts rule country) = fst (field_value env facts rule None)"
    and "cache_ok env facts (snd (field_value env facts rule country))"
  using assms
  by (cases "acl_field (vr_spec rule)";
      auto simp: field_value_def cache_ok_def Let_def split: option.splits)+

section \<open>The walk implements the reading\<close>

definition outcome_of ::
  "DefaultAction \<Rightarrow> ('n, 're) validated_rule list \<Rightarrow> nat option \<Rightarrow> nat list \<Rightarrow> outcome" where
  "outcome_of default_action rules decided logged =
     (let action = (case decided of
                      Some i \<Rightarrow> vr_action (rules ! i)
                    | None \<Rightarrow> default_as_action default_action) in
      \<lparr>out_allowed = (action = Allow), out_action = Some action,
       out_challenged = (action = Challenge), out_decided_by = decided, out_logged = logged\<rparr>)"

lemma walk_rules_spec:
  assumes "cache_ok env facts country"
  shows "walk_rules env facts d rules index country logged =
     (let o' = outcome_of d rules (acl.deciding env facts rules) (acl.noted env facts rules) in
      o'\<lparr>out_decided_by := map_option (\<lambda>i. index + i) (out_decided_by o'),
         out_logged := logged @ map (\<lambda>i. index + i) (out_logged o')\<rparr>)"
  using assms
proof (induction rules arbitrary: index country logged)
  case Nil
  then show ?case by (simp add: outcome_of_def Let_def)
next
  case (Cons rule rules)
  obtain v country' where fv: "field_value env facts rule country = (v, country')"
    by (cases "field_value env facts rule country") auto
  have hit: "rule_hits env facts rule = rule_matches env rule v"
    using field_value_cache(1) [OF Cons.prems, of rule] fv by (simp add: rule_hits_def)
  have ok: "cache_ok env facts country'"
    using field_value_cache(2) [OF Cons.prems, of rule] fv by simp
  note IH = Cons.IH [OF ok]
  have skip: "map_option (\<lambda>i. index + i) (map_option Suc x) = map_option (\<lambda>i. Suc index + i) x"
    for x by (cases x) auto
  have below: "(case map_option Suc x of Some i \<Rightarrow> vr_action ((rule # rules) ! i) | None \<Rightarrow> e) =
    (case x of Some i \<Rightarrow> vr_action (rules ! i) | None \<Rightarrow> e)" for x e
    by (cases x) auto
  have eta: "(+) (Suc index) = (\<lambda>i. Suc (index + i))"
    by auto
  show ?case
  proof (cases "rule_matches env rule v")
    case False
    then show ?thesis
      using fv hit IH skip below eta
      by (simp add: acl.deciding_Cons acl.noted_Cons outcome_of_def Let_def comp_def)
  next
    case True
    then show ?thesis
      using fv hit IH skip below eta
      by (cases "vr_action rule")
        (simp_all add: acl.deciding_Cons acl.noted_Cons outcome_of_def Let_def comp_def
          rule_terminal_def [of rule])
  qed
qed

lemma rule_set_evaluate_spec:
  "rule_set_evaluate env rs facts =
     outcome_of (rs_default_action rs) (rs_rules rs)
       (acl.deciding env facts (rs_rules rs)) (acl.noted env facts (rs_rules rs))"
  by (simp add: rule_set_evaluate_def walk_rules_spec outcome_of_def Let_def option.map_ident)

end
