(* ===== verification/Acl_Access.thy ===== *)
theory Acl_Access
  imports Ip_Rules "HOL-Library.AList"
begin

text \<open>
  \<open>crates/pingap-acl/src/access_list.rs\<close>: the access list that gates a domain, an address
  allowlist and basic-auth users. The digest function of the \<open>sha2\<close> crate is a parameter;
  its hex form and the constant-time comparison are the source's own and are modelled. The
  user map (a \<open>BTreeMap\<close>) is an association list with distinct keys.
\<close>

section \<open>Digests and comparison\<close>

definition byte_word :: "char \<Rightarrow> u8" where
  "byte_word c = word_of_nat (byte_of c)"

definition from_digit16 :: "nat \<Rightarrow> char option" where
  "from_digit16 n =
     (if n < 10 then Some (char_of (48 + n))
      else if n < 16 then Some (char_of (87 + n)) else None)"

definition hex_digit_or_0 :: "nat \<Rightarrow> char" where
  "hex_digit_or_0 n = (case from_digit16 n of Some c \<Rightarrow> c | None \<Rightarrow> CHR ''0'')"

fun hex_loop :: "u8 list \<Rightarrow> string \<Rightarrow> string" where
  "hex_loop [] out = out"
| "hex_loop (byte # digest) out =
     hex_loop digest (out @ [hex_digit_or_0 (unat (drop_bit 4 byte)),
                             hex_digit_or_0 (unat (byte AND 0x0f))])"

definition hex_sha256 :: "(string \<Rightarrow> u8 list) \<Rightarrow> string \<Rightarrow> string" where
  "hex_sha256 sha256 bytes = hex_loop (sha256 bytes) []"

definition constant_time_eq :: "string \<Rightarrow> string \<Rightarrow> bool" where
  "constant_time_eq a b =
     (if length a \<noteq> length b then False
      else foldl (\<lambda>diff (x, y). diff OR (byte_word x XOR byte_word y)) 0 (zip a b) = 0)"

section \<open>Access lists\<close>

datatype Satisfy = Any | All

datatype AccessListError = MalformedUser string string | BadListCidr string string

record access_list_conf =
  alc_ip_allowlist :: "string list"
  alc_users :: "string list"
  alc_satisfy :: Satisfy

record 'n access_list =
  al_name :: string
  al_allowlist :: "'n ip_rules"
  al_allowlist_entries :: usize
  al_users :: "(string \<times> string) list"
  al_satisfy :: Satisfy

definition hash_wf :: "string \<Rightarrow> string \<Rightarrow> bool" where
  "hash_wf user hash \<longleftrightarrow> user \<noteq> [] \<and> length hash = 64 \<and> list_all is_ascii_hexdigit hash"

fun users_loop ::
  "string \<Rightarrow> string list \<Rightarrow> (string \<times> string) list \<Rightarrow>
     ((string \<times> string) list, AccessListError) result" where
  "users_loop name [] users = Ok users"
| "users_loop name (entry # entries) users =
     (case split_once CHR '':'' entry of
        None \<Rightarrow> Err (MalformedUser name entry)
      | Some (user, hash) \<Rightarrow>
          if \<not> hash_wf user hash then Err (MalformedUser name entry)
          else users_loop name entries (AList.update user (to_ascii_lowercase hash) users))"

definition access_list_new ::
  "'n ipnet_lib \<Rightarrow> string \<Rightarrow> access_list_conf \<Rightarrow> ('n access_list, AccessListError) result" where
  "access_list_new lib name conf =
     (let allowlist = ip_rules_new lib (alc_ip_allowlist conf) in
      if ip_rules_len allowlist \<noteq> length (alc_ip_allowlist conf)
      then Err (BadListCidr name (bad_entry lib (alc_ip_allowlist conf)))
      else (case users_loop name (alc_users conf) [] of
              Err e \<Rightarrow> Err e
            | Ok users \<Rightarrow>
                Ok \<lparr>al_name = name, al_allowlist = allowlist,
                    al_allowlist_entries = length (alc_ip_allowlist conf),
                    al_users = users, al_satisfy = alc_satisfy conf\<rparr>))"

definition has_users :: "'n access_list \<Rightarrow> bool" where
  "has_users l \<longleftrightarrow> al_users l \<noteq> []"

definition ip_satisfies :: "'n ipnet_lib \<Rightarrow> 'n access_list \<Rightarrow> string \<Rightarrow> bool" where
  "ip_satisfies lib l client_ip =
     (if al_allowlist_entries l = 0 then False
      else (case ip_is_match lib (al_allowlist l) client_ip of Ok b \<Rightarrow> b | Err _ \<Rightarrow> False))"

definition NEVER :: string where
  "NEVER = replicate 64 CHR ''0''"

definition credentials_satisfy ::
  "(string \<Rightarrow> u8 list) \<Rightarrow> 'n access_list \<Rightarrow> string \<Rightarrow> string \<Rightarrow> bool" where
  "credentials_satisfy sha256 l user password =
     (let presented = hex_sha256 sha256 password;
          expected = (case map_of (al_users l) user of Some h \<Rightarrow> h | None \<Rightarrow> NEVER)
      in constant_time_eq expected presented \<and> map_of (al_users l) user \<noteq> None)"

definition admits ::
  "'n ipnet_lib \<Rightarrow> (string \<Rightarrow> u8 list) \<Rightarrow> 'n access_list \<Rightarrow> string \<Rightarrow>
     (string \<times> string) option \<Rightarrow> bool" where
  "admits lib sha256 l client_ip credentials =
     (let by_ip = ip_satisfies lib l client_ip;
          by_password = (case credentials of
             Some (user, password) \<Rightarrow> credentials_satisfy sha256 l user password
           | None \<Rightarrow> False)
      in (case al_satisfy l of Any \<Rightarrow> by_ip \<or> by_password | All \<Rightarrow> by_ip \<and> by_password))"

section \<open>The comparison is equality\<close>

lemma byte_word_eq_iff [simp]: "byte_word a = byte_word b \<longleftrightarrow> a = b"
proof
  assume "byte_word a = byte_word b"
  then have "unat (byte_word a) = unat (byte_word b)" by simp
  then show "a = b"
    by (simp add: byte_word_def unat_of_nat)
qed simp

lemma xor_eq_0_iff_word: "(a :: 'a::len word) XOR b = 0 \<longleftrightarrow> a = b"
  by (auto simp: bit_eq_iff bit_simps)

lemma or_eq_0_iff_word: "(a :: 'a::len word) OR b = 0 \<longleftrightarrow> a = 0 \<and> b = 0"
  by (auto simp: bit_eq_iff bit_simps)

lemma fold_or_eq_0:
  "foldl (\<lambda>diff p. diff OR f p) (d :: 'a::len word) ps = 0 \<longleftrightarrow> d = 0 \<and> (\<forall>p\<in>set ps. f p = 0)"
  by (induction ps arbitrary: d) (auto simp: or_eq_0_iff_word)

lemma constant_time_eq_iff: "constant_time_eq a b \<longleftrightarrow> a = b"
proof (cases "length a = length b")
  case True
  have "foldl (\<lambda>diff (x, y). diff OR (byte_word x XOR byte_word y)) 0 (zip a b) =
    foldl (\<lambda>diff p. diff OR (byte_word (fst p) XOR byte_word (snd p))) 0 (zip a b)"
    by (simp add: case_prod_beta')
  then have "constant_time_eq a b \<longleftrightarrow> (\<forall>p\<in>set (zip a b). fst p = snd p)"
    using True by (simp add: constant_time_eq_def fold_or_eq_0 xor_eq_0_iff_word)
  also have "\<dots> \<longleftrightarrow> a = b"
    using True by (induction a b rule: list_induct2) auto
  finally show ?thesis .
next
  case False
  then show ?thesis by (auto simp: constant_time_eq_def)
qed

section \<open>The hex form\<close>

definition hex_byte :: "u8 \<Rightarrow> string" where
  "hex_byte byte = [hex_digit_or_0 (unat (drop_bit 4 byte)), hex_digit_or_0 (unat (byte AND 0x0f))]"

lemma hex_loop_concat: "hex_loop digest out = out @ concat (map hex_byte digest)"
  by (induction digest arbitrary: out) (auto simp: hex_byte_def)

lemma unat_nibbles:
  "unat (drop_bit 4 (b :: u8)) = unat b div 16" "unat (b AND 0x0f) = unat b mod 16"
proof -
  show "unat (drop_bit 4 b) = unat b div 16"
    by (simp add: drop_bit_eq_div unat_div)
  have "b AND 0x0f = take_bit 4 b"
    by (simp add: take_bit_eq_mask mask_eq_exp_minus_1)
  then show "unat (b AND 0x0f) = unat b mod 16"
    by (simp add: take_bit_eq_mod unat_mod)
qed

lemma nibble_bounds: "unat (b :: u8) div 16 < 16" "unat b mod 16 < 16"
  using unat_less_exp [of b] by simp_all

lemma hex_digit_inj: "m < 16 \<Longrightarrow> n < 16 \<Longrightarrow> hex_digit_or_0 m = hex_digit_or_0 n \<Longrightarrow> m = n"
  by (auto simp: hex_digit_or_0_def from_digit16_def split: if_splits dest: arg_cong [of _ _ byte_of])

lemma hex_byte_inj: "hex_byte a = hex_byte b \<Longrightarrow> a = b"
proof -
  assume "hex_byte a = hex_byte b"
  then have "unat a div 16 = unat b div 16" "unat a mod 16 = unat b mod 16"
    by (auto simp: hex_byte_def unat_nibbles intro: hex_digit_inj nibble_bounds)
  then have "unat a = unat b" by (metis div_mult_mod_eq)
  then show "a = b" by (simp add: word_unat_eq_iff)
qed

lemma hex_sha256_inj: "hex_sha256 h a = hex_sha256 h b \<longleftrightarrow> h a = h b"
proof
  have len: "length (hex_byte x) = 2" for x
    by (simp add: hex_byte_def)
  have "concat (map hex_byte xs) = concat (map hex_byte ys) \<Longrightarrow> xs = ys" for xs ys
  proof (induction xs arbitrary: ys)
    case Nil
    then show ?case by (cases ys) (auto simp: hex_byte_def)
  next
    case (Cons x xs)
    then obtain y ys' where ys: "ys = y # ys'"
      by (cases ys) (auto simp: hex_byte_def)
    with Cons.prems len have "hex_byte x = hex_byte y"
      "concat (map hex_byte xs) = concat (map hex_byte ys')"
      by (auto simp: append_eq_append_conv)
    with Cons.IH ys show ?case by (auto dest: hex_byte_inj)
  qed
  then show "hex_sha256 h a = hex_sha256 h b \<Longrightarrow> h a = h b"
    by (simp add: hex_sha256_def hex_loop_concat)
qed (simp add: hex_sha256_def)

lemma length_hex_sha256: "length (hex_sha256 h s) = 2 * length (h s)"
  by (simp add: hex_sha256_def hex_loop_concat length_concat hex_byte_def comp_def sum_list_triv)

section \<open>What a list admits\<close>

definition user_entry :: "string \<Rightarrow> (string \<times> string) option" where
  "user_entry entry = map_option (apsnd to_ascii_lowercase) (split_once CHR '':'' entry)"

definition entry_wf :: "string \<Rightarrow> bool" where
  "entry_wf entry =
     (case split_once CHR '':'' entry of None \<Rightarrow> False | Some (user, hash) \<Rightarrow> hash_wf user hash)"

lemma users_loop_Ok:
  "users_loop name entries users = Ok users' \<Longrightarrow>
     list_all entry_wf entries \<and>
     map_of users' = map_of users ++ map_of (rev (List.map_filter user_entry entries))"
proof (induction entries arbitrary: users)
  case Nil
  then show ?case by (simp add: map_filter_simps)
next
  case (Cons entry entries)
  then obtain user hash where s: "split_once CHR '':'' entry = Some (user, hash)"
    and wf: "hash_wf user hash"
    and rest: "users_loop name entries (AList.update user (to_ascii_lowercase hash) users) = Ok users'"
    by (auto split: option.splits if_splits)
  from Cons.IH [OF rest] s wf show ?case
    by (auto simp: entry_wf_def user_entry_def map_filter_simps AList.update_conv' map_add_def
        split: option.splits)
qed

lemma users_loop_total:
  "list_all entry_wf entries \<Longrightarrow> is_Ok (users_loop name entries users)"
  by (induction entries arbitrary: users) (auto simp: entry_wf_def split: option.splits)

lemma access_list_new_cases:
  "access_list_new lib name conf = Ok l \<longleftrightarrow>
     list_all (entry_ok lib) (alc_ip_allowlist conf) \<and>
     distinct (List.map_filter (entry_addr lib) (alc_ip_allowlist conf)) \<and>
     (\<exists>users. users_loop name (alc_users conf) [] = Ok users \<and>
        l = \<lparr>al_name = name, al_allowlist = ip_rules_new lib (alc_ip_allowlist conf),
             al_allowlist_entries = length (alc_ip_allowlist conf),
             al_users = users, al_satisfy = alc_satisfy conf\<rparr>)"
  by (auto simp: access_list_new_def Let_def ip_rules_len_eq_iff split: result.splits)

lemma access_list_new_Ok:
  assumes "access_list_new lib name conf = Ok l"
  shows "list_all (entry_ok lib) (alc_ip_allowlist conf)"
    and "list_all entry_wf (alc_users conf)"
    and "al_allowlist l = ip_rules_new lib (alc_ip_allowlist conf)"
    and "al_allowlist_entries l = length (alc_ip_allowlist conf)"
    and "al_satisfy l = alc_satisfy conf"
    and "map_of (al_users l) = map_of (rev (List.map_filter user_entry (alc_users conf)))"
proof -
  from assms obtain users where u: "users_loop name (alc_users conf) [] = Ok users"
    and l: "l = \<lparr>al_name = name, al_allowlist = ip_rules_new lib (alc_ip_allowlist conf),
             al_allowlist_entries = length (alc_ip_allowlist conf),
             al_users = users, al_satisfy = alc_satisfy conf\<rparr>"
    and e: "list_all (entry_ok lib) (alc_ip_allowlist conf)"
    unfolding access_list_new_cases by blast
  show "list_all (entry_ok lib) (alc_ip_allowlist conf)" by (rule e)
  from users_loop_Ok [OF u] show "list_all entry_wf (alc_users conf)" by simp
  from users_loop_Ok [OF u] l
  show "map_of (al_users l) = map_of (rev (List.map_filter user_entry (alc_users conf)))" by simp
qed (use assms in \<open>auto simp: access_list_new_cases\<close>)

lemma access_list_new_is_Ok_iff:
  "is_Ok (access_list_new lib name conf) \<longleftrightarrow>
     list_all (entry_ok lib) (alc_ip_allowlist conf) \<and>
     distinct (List.map_filter (entry_addr lib) (alc_ip_allowlist conf)) \<and>
     list_all entry_wf (alc_users conf)"
proof -
  have "list_all entry_wf (alc_users conf) \<longleftrightarrow> (\<exists>users. users_loop name (alc_users conf) [] = Ok users)"
    using users_loop_total [of "alc_users conf" name "[]"] users_loop_Ok
    by (metis is_Ok_def)
  then show ?thesis
    unfolding is_Ok_def access_list_new_cases by blast
qed

lemma ip_satisfies_iff:
  assumes "access_list_new lib name conf = Ok l"
  shows "ip_satisfies lib l ip \<longleftrightarrow>
     (\<exists>a. parse_addr ip = Some a \<and> (\<exists>v\<in>set (alc_ip_allowlist conf). entry_covers lib v a))"
  using access_list_new_Ok(3,4) [OF assms]
  by (cases "parse_addr ip") (auto simp: ip_satisfies_def ip_is_match_def is_match_addr_new)

lemma credentials_satisfy_iff:
  assumes "access_list_new lib name conf = Ok l"
  shows "credentials_satisfy h l user password \<longleftrightarrow>
     map_of (rev (List.map_filter user_entry (alc_users conf))) user = Some (hex_sha256 h password)"
  using access_list_new_Ok(6) [OF assms]
  by (auto simp: credentials_satisfy_def Let_def constant_time_eq_iff split: option.splits)

end
