(* ===== verification/Decimal.thy ===== *)
theory Decimal
  imports Prelude
begin

text \<open>
  Rust's decimal and hexadecimal formatting of unsigned integers (\<open>{}\<close>, \<open>{:x}\<close>) and
  \<open>str::parse\<close> on them: an optional plus sign, at least one digit, an error past the
  width. Formatting and parsing are inverse.
\<close>

section \<open>Formatting\<close>

definition digit_char :: "nat \<Rightarrow> char" where
  "digit_char n = ''0123456789abcdef'' ! n"

fun show_base :: "nat \<Rightarrow> nat \<Rightarrow> string" where
  "show_base b n = (if b \<le> 1 \<or> n < b then [digit_char n] else show_base b (n div b) @ [digit_char (n mod b)])"

declare show_base.simps [simp del]

abbreviation show_nat :: "nat \<Rightarrow> string" where
  "show_nat \<equiv> show_base 10"

abbreviation show_hex :: "nat \<Rightarrow> string" where
  "show_hex \<equiv> show_base 16"

section \<open>Parsing\<close>

definition digit_val :: "char \<Rightarrow> nat" where
  "digit_val c = byte_of c - 48"

definition digits_val :: "string \<Rightarrow> nat" where
  "digits_val s = foldl (\<lambda>acc c. acc * 10 + digit_val c) 0 s"

definition parse_uint :: "nat \<Rightarrow> string \<Rightarrow> nat option" where
  "parse_uint limit s =
     (let ds = (case s of c # r \<Rightarrow> if c = CHR ''+'' then r else s | [] \<Rightarrow> []) in
      if ds = [] \<or> \<not> list_all is_ascii_digit ds then None
      else if limit < digits_val ds then None else Some (digits_val ds))"

section \<open>Round trip\<close>

lemma byte_of_digit: "n < 10 \<Longrightarrow> byte_of (digit_char n) = 48 + n"
proof -
  assume "n < 10"
  then have "n \<in> {0, 1, 2, 3, 4, 5, 6, 7, 8, 9}" by auto
  then show ?thesis by (auto simp: digit_char_def byte_of_def)
qed

lemma digit_char_props [simp]:
  "n < 10 \<Longrightarrow> is_ascii_digit (digit_char n)" "n < 10 \<Longrightarrow> digit_val (digit_char n) = n"
  by (simp_all add: is_ascii_digit_def digit_val_def byte_of_digit)

lemma show_nat_digits: "list_all is_ascii_digit (show_nat n)"
proof (induction n rule: less_induct)
  case (less n)
  show ?case
    using less [of "n div 10"] by (subst show_base.simps) (auto simp: list_all_iff)
qed

lemma show_base_nonempty [simp]: "show_base b n \<noteq> []"
  by (subst show_base.simps) simp

lemma digits_val_append: "digits_val (s @ [c]) = digits_val s * 10 + digit_val c"
  by (simp add: digits_val_def)

lemma digits_val_show_nat: "digits_val (show_nat n) = n"
proof (induction n rule: less_induct)
  case (less n)
  show ?case
  proof (cases "n < 10")
    case True
    then show ?thesis by (subst show_base.simps) (simp add: digits_val_def)
  next
    case False
    then have "digits_val (show_nat (n div 10)) = n div 10" by (intro less) simp
    with False show ?thesis by (subst show_base.simps) (simp add: digits_val_append)
  qed
qed

lemma plus_not_digit: "\<not> is_ascii_digit CHR ''+''"
  by (simp add: is_ascii_digit_def byte_of_def)

lemma parse_show_nat: "parse_uint limit (show_nat n) = (if n \<le> limit then Some n else None)"
proof -
  obtain c r where s: "show_nat n = c # r" by (cases "show_nat n") auto
  with show_nat_digits [of n] plus_not_digit have "c \<noteq> CHR ''+''" by auto
  with s show ?thesis
    using show_nat_digits [of n] digits_val_show_nat [of n] by (auto simp: parse_uint_def Let_def)
qed

lemma show_nat_inj: "show_nat m = show_nat n \<Longrightarrow> m = n"
  by (metis digits_val_show_nat)

lemma show_nat_no_char:
  assumes "\<not> is_ascii_digit c"
  shows "c \<notin> set (show_nat n)"
  using show_nat_digits [of n] assms by (auto simp: list_all_iff)

end
