(* ===== verification/Ip_Display.thy ===== *)
theory Ip_Display
  imports Ip_Addr Decimal
begin

text \<open>
  \<open>Display\<close> of the standard library's addresses: dotted quads, and IPv6 with the first
  longest run of at least two zero groups compressed, IPv4-mapped addresses in mixed form.
\<close>

definition v4_octets :: "32 word \<Rightarrow> nat list" where
  "v4_octets w = map (\<lambda>i. unat w div 256 ^ i mod 256) [3, 2, 1, 0]"

definition show_v4 :: "32 word \<Rightarrow> string" where
  "show_v4 w = join_with ''.'' (map show_nat (v4_octets w))"

definition v6_groups :: "128 word \<Rightarrow> nat list" where
  "v6_groups w = map (\<lambda>i. unat w div 65536 ^ i mod 65536) [7, 6, 5, 4, 3, 2, 1, 0]"

text \<open>The scan for the longest zero run: (start, length) of the longest so far and of the current one.\<close>

fun zero_run :: "nat list \<Rightarrow> nat \<Rightarrow> nat \<times> nat \<Rightarrow> nat \<times> nat \<Rightarrow> nat \<times> nat" where
  "zero_run [] i longest current = longest"
| "zero_run (g # gs) i longest current =
     (if g = 0
      then (let cur = ((if snd current = 0 then i else fst current), snd current + 1);
                longest' = (if snd longest < snd cur then cur else longest) in
            zero_run gs (Suc i) longest' cur)
      else zero_run gs (Suc i) longest (0, 0))"

definition show_groups :: "nat list \<Rightarrow> string" where
  "show_groups gs = (if gs = [] then [] else join_with '':'' (map show_hex gs))"

definition show_v6 :: "128 word \<Rightarrow> string" where
  "show_v6 w =
     (let gs = v6_groups w in
      if take 6 gs = [0, 0, 0, 0, 0, 0xffff]
      then ''::ffff:'' @ show_v4 (word_of_nat (unat w mod 2 ^ 32))
      else (case zero_run gs 0 (0, 0) (0, 0) of
              (start, len) \<Rightarrow>
                if 1 < len then show_groups (take start gs) @ ''::'' @ show_groups (drop (start + len) gs)
                else show_groups gs))"

definition ip_to_string :: "IpAddr \<Rightarrow> string" where
  "ip_to_string a = (case a of V4 w \<Rightarrow> show_v4 w | V6 w \<Rightarrow> show_v6 w)"

end
