(* ===== verification/Client_Ip.thy ===== *)
theory Client_Ip
  imports Ip_Rules Ip_Display
begin

text \<open>
  \<open>pingap-core/src/http_header.rs\<close>: who the client of a request is. The header map and
  header values belong to the \<open>http\<close> crate, so their accessors are parameters
  (\<open>http_lib\<close>); the trusted-proxy state, which the source keeps in two globals, is a record.
\<close>

section \<open>Requests\<close>

record http_lib =
  hl_get :: "(string \<times> string) list \<Rightarrow> string \<Rightarrow> string option"
  hl_to_str :: "string \<Rightarrow> string option"
  hl_value_ok :: "string \<Rightarrow> bool"

record session =
  se_method :: string
  se_uri_host :: "string option"
  se_headers :: "(string \<times> string) list"
  se_peer :: "IpAddr option"

definition get_host :: "http_lib \<Rightarrow> session \<Rightarrow> string option" where
  "get_host http s =
     (case se_uri_host s of
        Some host \<Rightarrow> Some host
      | None \<Rightarrow>
          map_option (\<lambda>host. hd (split_on CHR '':'' host))
            (Option.bind (hl_get http (se_headers s) ''host'') (hl_to_str http)))"

definition get_remote_addr :: "session \<Rightarrow> string option" where
  "get_remote_addr s = map_option ip_to_string (se_peer s)"

section \<open>Trusted proxies\<close>

record 'n trusted_proxies =
  tp_nets :: "'n list"
  tp_ips :: "IpAddr set"

definition trusted_proxies_add ::
  "'n ipnet_lib \<Rightarrow> 'n trusted_proxies \<Rightarrow> string \<Rightarrow> 'n trusted_proxies" where
  "trusted_proxies_add lib tp item =
     (case net_from_str lib item of
        Some net \<Rightarrow> tp\<lparr>tp_nets := tp_nets tp @ [net]\<rparr>
      | None \<Rightarrow>
          (case parse_addr item of
             Some ip \<Rightarrow> tp\<lparr>tp_ips := insert ip (tp_ips tp)\<rparr>
           | None \<Rightarrow> tp))"

definition trusted_proxies_parse :: "'n ipnet_lib \<Rightarrow> string list \<Rightarrow> 'n trusted_proxies" where
  "trusted_proxies_parse lib items =
     foldl (trusted_proxies_add lib) \<lparr>tp_nets = [], tp_ips = {}\<rparr> items"

definition trusted_proxies_contains :: "'n ipnet_lib \<Rightarrow> 'n trusted_proxies \<Rightarrow> string \<Rightarrow> bool" where
  "trusted_proxies_contains lib tp peer =
     (case parse_addr peer of
        None \<Rightarrow> False
      | Some addr \<Rightarrow> addr \<in> tp_ips tp \<or> list_ex (\<lambda>net. net_contains lib net addr) (tp_nets tp))"

record 'n proxy_state =
  ps_enabled :: bool
  ps_proxies :: "'n trusted_proxies option"

definition proxy_state_init :: "'n proxy_state" where
  "proxy_state_init = \<lparr>ps_enabled = False, ps_proxies = None\<rparr>"

definition nonempty_list :: "string list option \<Rightarrow> bool" where
  "nonempty_list proxies = (case proxies of Some list \<Rightarrow> list \<noteq> [] | None \<Rightarrow> False)"

definition set_trusted_proxies ::
  "'n ipnet_lib \<Rightarrow> string list option \<Rightarrow> 'n proxy_state \<Rightarrow> 'n proxy_state" where
  "set_trusted_proxies lib proxies st =
     (let parsed = (if nonempty_list proxies
                    then Some (trusted_proxies_parse lib (the proxies)) else None) in
      st\<lparr>ps_enabled := parsed \<noteq> None, ps_proxies := parsed\<rparr>)"

definition trusted_proxies_enabled :: "'n proxy_state \<Rightarrow> bool" where
  "trusted_proxies_enabled st = ps_enabled st"

definition is_trusted_proxy :: "'n ipnet_lib \<Rightarrow> 'n proxy_state \<Rightarrow> string \<Rightarrow> bool" where
  "is_trusted_proxy lib st peer =
     (case ps_proxies st of Some tp \<Rightarrow> trusted_proxies_contains lib tp peer | None \<Rightarrow> False)"

text \<open>
  The construction scope: a thread-local cell, replaced for the run of the closure and
  restored on every exit. A closure is a function of the cell it sees.
\<close>

definition with_construction_trusted_proxies ::
  "string list option \<Rightarrow> (bool option \<Rightarrow> 'r \<times> bool option) \<Rightarrow> bool option \<Rightarrow> 'r \<times> bool option" where
  "with_construction_trusted_proxies proxies f cell =
     (let enclosing = cell; (r, _) = f (Some (nonempty_list proxies)) in (r, enclosing))"

definition construction_trusted_proxies_enabled :: "bool option \<Rightarrow> 'n proxy_state \<Rightarrow> bool" where
  "construction_trusted_proxies_enabled cell st =
     (case cell of Some b \<Rightarrow> b | None \<Rightarrow> trusted_proxies_enabled st)"

section \<open>The client address\<close>

definition forwarded_for :: "http_lib \<Rightarrow> session \<Rightarrow> string option" where
  "forwarded_for http s =
     (case Option.bind (hl_get http (se_headers s) ''x-forwarded-for'') (hl_to_str http) of
        Some v \<Rightarrow>
          (let trimmed_ip = str_trim (hd (split_on CHR '','' v)) in
           if trimmed_ip \<noteq> [] then Some trimmed_ip else None)
      | None \<Rightarrow> None)"

definition get_client_ip :: "'n ipnet_lib \<Rightarrow> http_lib \<Rightarrow> 'n proxy_state \<Rightarrow> session \<Rightarrow> string" where
  "get_client_ip lib http st s =
     (let peer = get_remote_addr s;
          trusted = (case peer of Some p \<Rightarrow> is_trusted_proxy lib st p | None \<Rightarrow> False) in
      if ps_enabled st \<and> \<not> trusted
      then (case peer of Some p \<Rightarrow> p | None \<Rightarrow> [])
      else (case forwarded_for http s of
              Some ip \<Rightarrow> ip
            | None \<Rightarrow>
                (case hl_get http (se_headers s) ''x-real-ip'' of
                   Some v \<Rightarrow> (case hl_to_str http v of Some ip \<Rightarrow> ip | None \<Rightarrow> [])
                 | None \<Rightarrow> (case get_remote_addr s of Some addr \<Rightarrow> addr | None \<Rightarrow> []))))"

definition ensure_client_ip ::
  "'n ipnet_lib \<Rightarrow> http_lib \<Rightarrow> 'n proxy_state \<Rightarrow> session \<Rightarrow> string option \<Rightarrow> string \<times> string option" where
  "ensure_client_ip lib http st s cached =
     (let cached' = (case cached of None \<Rightarrow> Some (get_client_ip lib http st s) | Some ip \<Rightarrow> Some ip)
      in (the cached', cached'))"

section \<open>What the list trusts\<close>

lemma foldl_trusted_proxies_add:
  "foldl (trusted_proxies_add lib) tp items =
     tp\<lparr>tp_nets := tp_nets tp @ List.map_filter (net_from_str lib) items,
        tp_ips := tp_ips tp \<union> set (List.map_filter (entry_addr lib) items)\<rparr>"
  by (induction items arbitrary: tp)
    (auto simp: trusted_proxies_add_def entry_addr_def map_filter_simps split: option.splits)

lemma trusted_proxies_contains_parse:
  "trusted_proxies_contains lib (trusted_proxies_parse lib items) peer \<longleftrightarrow>
     (\<exists>a. parse_addr peer = Some a \<and> (\<exists>v\<in>set items. entry_covers lib v a))"
proof (cases "parse_addr peer")
  case (Some a)
  have "is_match_addr lib (ip_rules_new lib items) a \<longleftrightarrow>
      trusted_proxies_contains lib (trusted_proxies_parse lib items) peer"
    using Some by (simp add: is_match_addr_def trusted_proxies_contains_def
        trusted_proxies_parse_def foldl_trusted_proxies_add)
  with Some is_match_addr_new [of lib items a] show ?thesis by simp
qed (simp add: trusted_proxies_contains_def)

lemma is_trusted_proxy_set:
  "is_trusted_proxy lib (set_trusted_proxies lib proxies st) peer \<longleftrightarrow>
     (\<exists>list a. proxies = Some list \<and> parse_addr peer = Some a \<and> (\<exists>v\<in>set list. entry_covers lib v a))"
  by (cases proxies)
    (auto simp: is_trusted_proxy_def set_trusted_proxies_def nonempty_list_def
      trusted_proxies_contains_parse Let_def)

section \<open>Properties\<close>

text \<open>
  C5: A direct peer cannot choose its own client address. Once a non-empty trusted-proxy list is
  set, a request whose TCP peer is covered by no entry of the list resolves to the peer's own
  address, whatever its headers say.
\<close>

theorem client_ip_not_spoofable:
  assumes "list \<noteq> []" and "se_peer s = Some peer"
    and "\<not> (\<exists>a. parse_addr (ip_to_string peer) = Some a \<and> (\<exists>v\<in>set list. entry_covers lib v a))"
  shows "get_client_ip lib http (set_trusted_proxies lib (Some list) st) s = ip_to_string peer"
proof -
  have "\<not> is_trusted_proxy lib (set_trusted_proxies lib (Some list) st) (ip_to_string peer)"
    using assms(3) by (auto simp: is_trusted_proxy_set)
  moreover have "ps_enabled (set_trusted_proxies lib (Some list) st)"
    using assms(1) by (simp add: set_trusted_proxies_def nonempty_list_def)
  ultimately show ?thesis
    using assms(2) by (simp add: get_client_ip_def get_remote_addr_def)
qed

definition demo_net :: "unit ipnet_lib" where
  "demo_net = \<lparr>net_from_str = (\<lambda>_. None), net_contains = (\<lambda>_ _. False)\<rparr>"

definition demo_http :: http_lib where
  "demo_http = \<lparr>hl_get = map_of, hl_to_str = Some, hl_value_ok = (\<lambda>_. True)\<rparr>"

theorem client_ip_not_spoofable_witness:
  "get_client_ip demo_net demo_http (set_trusted_proxies demo_net (Some [''10.0.0.1'']) proxy_state_init)
     \<lparr>se_method = ''GET'', se_uri_host = None,
      se_headers = [(''x-forwarded-for'', ''127.0.0.1'')], se_peer = Some (V4 0x01020364)\<rparr> = ''1.2.3.100''"
proof -
  have shown: "ip_to_string (V4 0x01020364) = ''1.2.3.100''"
    by (simp add: ip_to_string_def show_v4_def v4_octets_def show_base.simps digit_char_def)
  have read: "parse_addr ''1.2.3.100'' = Some (V4 0x01020364)" "parse_addr ''10.0.0.1'' = Some (V4 0x0a000001)"
    by code_simp+
  show ?thesis
    by (subst client_ip_not_spoofable [where peer = "V4 0x01020364"])
      (simp_all add: shown read entry_covers_def demo_net_def)
qed

end
