(* ===== verification/Plugin_Core.thy ===== *)
theory Plugin_Core
  imports Client_Ip
begin

text \<open>
  What every request plugin shares: the steps and results of \<open>pingap-core/src/plugin.rs\<close> and
  the configuration readers of \<open>pingap-plugin/src/lib.rs\<close>. A configured \<open>step\<close> is the
  string of the plugin's table, or nothing.
\<close>

datatype PluginStep = EarlyRequest | Request | RequestBody | ProxyUpstream | UpstreamResponse | Response

fun step_name :: "PluginStep \<Rightarrow> string" where
  "step_name EarlyRequest = ''early_request''"
| "step_name Request = ''request''"
| "step_name RequestBody = ''request_body''"
| "step_name ProxyUpstream = ''proxy_upstream''"
| "step_name UpstreamResponse = ''upstream_response''"
| "step_name Response = ''response''"

definition all_steps :: "PluginStep list" where
  "all_steps = [EarlyRequest, Request, RequestBody, ProxyUpstream, UpstreamResponse, Response]"

definition step_from_str :: "string \<Rightarrow> PluginStep option" where
  "step_from_str s = find (\<lambda>p. step_name p = s) all_steps"

definition get_step_conf :: "string option \<Rightarrow> PluginStep \<Rightarrow> PluginStep" where
  "get_step_conf conf default_value =
     (case Option.bind conf step_from_str of Some p \<Rightarrow> p | None \<Rightarrow> default_value)"

definition get_step_conf_in ::
  "string option \<Rightarrow> PluginStep \<Rightarrow> PluginStep list \<Rightarrow> (PluginStep, string) result" where
  "get_step_conf_in conf default_value allowed =
     (case conf of
        None \<Rightarrow> Ok default_value
      | Some s \<Rightarrow>
          (let invalid = ''Invalid step('' @ s @ ''), expect one of: '' @
                           join_with '', '' (map step_name allowed) in
           case step_from_str s of
             None \<Rightarrow> Err invalid
           | Some p \<Rightarrow> if p \<in> set allowed then Ok p else Err invalid))"

record response =
  rsp_status :: nat
  rsp_headers :: "(string \<times> string) list"
  rsp_body :: string

datatype request_result = Skipped | Continue | Respond response

datatype RestrictionCategory = RAllow | RDeny

definition category_allows :: "RestrictionCategory \<Rightarrow> bool \<Rightarrow> bool" where
  "category_allows c found = (case c of RAllow \<Rightarrow> found | RDeny \<Rightarrow> \<not> found)"

definition get_restriction_category_conf ::
  "(string \<Rightarrow> string) \<Rightarrow> string \<Rightarrow> (RestrictionCategory, string) result" where
  "get_restriction_category_conf lower ty =
     (let t = lower ty in
      if t = [] \<or> t = ''allow'' then Ok RAllow
      else if t = ''deny'' then Ok RDeny
      else Err (''Invalid type('' @ t @ ''), expect allow or deny''))"

lemma step_name_inj: "step_name p = step_name q \<Longrightarrow> p = q"
  by (cases p; cases q) auto

lemma all_steps_complete: "p \<in> set all_steps"
  by (cases p) (auto simp: all_steps_def)

lemma step_from_str_name [simp]: "step_from_str (step_name p) = Some p"
  by (cases p) (simp_all add: step_from_str_def all_steps_def)

lemma step_from_str_Some: "step_from_str s = Some p \<longleftrightarrow> s = step_name p"
proof
  assume "step_from_str s = Some p"
  then show "s = step_name p" by (auto simp: step_from_str_def find_Some_iff)
qed simp

text \<open>A step that is spelled is one of the allowed ones or an error; it is never replaced.\<close>

lemma get_step_conf_in_Ok:
  "get_step_conf_in conf d allowed = Ok p \<longleftrightarrow>
     conf = None \<and> p = d \<or> (conf = Some (step_name p) \<and> p \<in> set allowed)"
proof (cases conf)
  case (Some s)
  then show ?thesis
    by (cases "step_from_str s") (auto simp: get_step_conf_in_def Let_def step_from_str_Some dest: step_name_inj)
qed (auto simp: get_step_conf_in_def)

end
