(* ===== verification/Utf8.thy ===== *)
theory Utf8
  imports Prelude
begin

text \<open>
  \<open>std::str::from_utf8\<close> on byte strings: the well-formed byte sequences of the Unicode
  standard (no overlong forms, no surrogates, nothing past U+10FFFF), the length of the
  longest valid prefix (\<open>Utf8Error::valid_up_to\<close>) and the facts the request and response
  inspection rests on.
\<close>

section \<open>Well-formed sequences\<close>

definition cont_byte :: "char \<Rightarrow> bool" where
  "cont_byte c \<longleftrightarrow> 128 \<le> byte_of c \<and> byte_of c \<le> 191"

definition second_ok :: "nat \<Rightarrow> char \<Rightarrow> bool" where
  "second_ok b0 c =
     (let b = byte_of c in
      if b0 = 224 then 160 \<le> b \<and> b \<le> 191
      else if b0 = 237 then 128 \<le> b \<and> b \<le> 159
      else if b0 = 240 then 144 \<le> b \<and> b \<le> 191
      else if b0 = 244 then 128 \<le> b \<and> b \<le> 143
      else 128 \<le> b \<and> b \<le> 191)"

definition utf8_width :: "char \<Rightarrow> nat" where
  "utf8_width c =
     (let b = byte_of c in
      if b < 128 then 1
      else if 194 \<le> b \<and> b \<le> 223 then 2
      else if 224 \<le> b \<and> b \<le> 239 then 3
      else if 240 \<le> b \<and> b \<le> 244 then 4
      else 0)"

text \<open>The length of the well-formed sequence at the front, 0 where there is none.\<close>

fun utf8_step :: "string \<Rightarrow> nat" where
  "utf8_step [] = 0"
| "utf8_step (c # cs) =
     (if utf8_width c \<le> 1 then utf8_width c
      else if Suc (length cs) < utf8_width c then 0
      else if second_ok (byte_of c) (hd cs) \<and>
              list_all cont_byte (take (utf8_width c - 2) (tl cs))
      then utf8_width c else 0)"

lemma utf8_step_le: "utf8_step bs \<le> length bs"
  by (cases bs) (auto simp: utf8_width_def Let_def)

lemma utf8_step_le4: "utf8_step bs \<le> 4"
  by (cases bs) (auto simp: utf8_width_def Let_def)

function valid_up_to :: "string \<Rightarrow> nat" where
  "valid_up_to bs =
     (if utf8_step bs = 0 then 0 else utf8_step bs + valid_up_to (drop (utf8_step bs) bs))"
  by pat_completeness auto
termination
proof (relation "measure length")
  fix bs :: string
  assume "utf8_step bs \<noteq> 0"
  then show "(drop (utf8_step bs) bs, bs) \<in> measure length"
    by (cases bs) auto
qed simp

declare valid_up_to.simps [simp del]

definition utf8_valid :: "string \<Rightarrow> bool" where
  "utf8_valid bs \<longleftrightarrow> valid_up_to bs = length bs"

definition from_utf8 :: "string \<Rightarrow> (string, nat) result" where
  "from_utf8 bs = (if utf8_valid bs then Ok bs else Err (valid_up_to bs))"

section \<open>The longest valid prefix\<close>

lemma valid_up_to_Nil [simp]: "valid_up_to [] = 0"
  by (simp add: valid_up_to.simps)

lemma utf8_valid_Nil [simp]: "utf8_valid []"
  by (simp add: utf8_valid_def)

lemma valid_up_to_le: "valid_up_to bs \<le> length bs"
proof (induction bs rule: valid_up_to.induct)
  case (1 bs)
  then show ?case
    using utf8_step_le [of bs] by (auto simp: valid_up_to.simps [of bs])
qed

text \<open>A sequence at the front does not depend on what follows it.\<close>

lemma utf8_step_append:
  assumes "utf8_step bs \<noteq> 0"
  shows "utf8_step (bs @ cs) = utf8_step bs"
proof (cases bs)
  case Nil
  with assms show ?thesis by simp
next
  case (Cons b bs')
  show ?thesis
  proof (cases "utf8_width b \<le> 1")
    case True
    with Cons show ?thesis by simp
  next
    case False
    with assms Cons have len: "utf8_width b \<le> Suc (length bs')"
      by (auto split: if_splits)
    with False have "bs' \<noteq> []" by auto
    then obtain d ds where "bs' = d # ds" by (cases bs') auto
    with False len Cons show ?thesis by auto
  qed
qed

lemma utf8_step_take:
  "utf8_step bs \<le> n \<Longrightarrow> utf8_step (take n bs) = utf8_step bs"
proof (cases "utf8_step bs = 0")
  case True
  assume "utf8_step bs \<le> n"
  show ?thesis
  proof (rule ccontr)
    assume "\<not> ?thesis"
    with True have "utf8_step (take n bs) \<noteq> 0" by simp
    from utf8_step_append [OF this, of "drop n bs"] True this show False by simp
  qed
next
  case False
  assume n: "utf8_step bs \<le> n"
  then obtain b bs' m where bs: "bs = b # bs'" and m: "n = Suc m"
    using False by (cases bs; cases n) auto
  show ?thesis
  proof (cases "utf8_width b \<le> 1")
    case True
    with bs m show ?thesis by simp
  next
    case w: False
    with False bs have len: "utf8_width b \<le> Suc (length bs')"
      and width: "utf8_step bs = utf8_width b"
      and ok: "second_ok (byte_of b) (hd bs')"
      and rest: "list_all cont_byte (take (utf8_width b - 2) (tl bs'))"
      by (auto split: if_splits)
    from w len obtain d ds where d: "bs' = d # ds" by (cases bs') auto
    from n width m w obtain k where k: "m = Suc k" by (cases m) auto
    have "min (utf8_width b - 2) k = utf8_width b - 2"
      using n width m k by simp
    with bs m k d ok rest len n width w show ?thesis
      by (auto simp: take_Cons' min_def split: if_splits)
  qed
qed

lemma utf8_valid_take_valid_up_to: "utf8_valid (take (valid_up_to bs) bs)"
proof (induction bs rule: valid_up_to.induct)
  case (1 bs)
  show ?case
  proof (cases "utf8_step bs = 0")
    case True
    then show ?thesis by (simp add: valid_up_to.simps [of bs])
  next
    case False
    let ?k = "utf8_step bs"
    let ?n = "valid_up_to (drop ?k bs)"
    have v: "valid_up_to bs = ?k + ?n"
      using False by (simp add: valid_up_to.simps [of bs])
    have s: "utf8_step (take (?k + ?n) bs) = ?k"
      by (rule utf8_step_take) simp
    have d: "drop ?k (take (?k + ?n) bs) = take ?n (drop ?k bs)"
      by (simp add: drop_take)
    from "1.IH" [OF False] have "valid_up_to (take ?n (drop ?k bs)) = length (take ?n (drop ?k bs))"
      by (simp add: utf8_valid_def)
    then have "valid_up_to (take (?k + ?n) bs) = ?k + length (take ?n (drop ?k bs))"
      using False s d by (subst valid_up_to.simps) simp
    also have "\<dots> = length (take (?k + ?n) bs)"
      using utf8_step_le [of bs] by (simp add: min_def) arith
    finally show ?thesis
      by (simp add: utf8_valid_def v)
  qed
qed

lemma utf8_valid_step:
  "utf8_valid bs \<Longrightarrow> bs \<noteq> [] \<Longrightarrow> utf8_step bs \<noteq> 0 \<and> utf8_valid (drop (utf8_step bs) bs)"
  using utf8_step_le [of bs]
  by (auto simp: utf8_valid_def valid_up_to.simps [of bs] split: if_splits)

text \<open>No valid prefix is longer than the reported one.\<close>

lemma valid_prefix_le_valid_up_to:
  "utf8_valid ps \<Longrightarrow> length ps \<le> valid_up_to (ps @ qs)"
proof (induction ps rule: valid_up_to.induct)
  case (1 ps)
  show ?case
  proof (cases "ps = []")
    case False
    with "1.prems" have s: "utf8_step ps \<noteq> 0" and v: "utf8_valid (drop (utf8_step ps) ps)"
      using utf8_valid_step by blast+
    from utf8_step_append [OF s] have s': "utf8_step (ps @ qs) = utf8_step ps" .
    have "length (drop (utf8_step ps) ps) \<le> valid_up_to (drop (utf8_step ps) ps @ qs)"
      using "1.IH" [OF s v] .
    moreover have "drop (utf8_step ps) (ps @ qs) = drop (utf8_step ps) ps @ qs"
      using utf8_step_le [of ps] by simp
    ultimately show ?thesis
      using s s' by (simp add: valid_up_to.simps [of "ps @ qs"])
  qed simp
qed

lemma valid_up_to_ascii:
  "\<forall>c\<in>set s. byte_of c < 128 \<Longrightarrow> utf8_valid s"
proof (induction s)
  case (Cons c s)
  then show ?case
    by (simp add: utf8_valid_def valid_up_to.simps [of "c # s"] utf8_width_def)
qed simp

end
