(* ===== verification/Acl_Plugin.thy ===== *)
theory Acl_Plugin
  imports Acl_Evaluate Acl_Access Plugin_Core Host_Policy Utf8
begin

text \<open>
  \<open>crates/pingap-acl/src/plugin.rs\<close> and \<open>marker.rs\<close>: the plugin around the access list and the
  rule table. The configuration arrives decoded (the TOML reader is a library); the request
  context is the part of \<open>Ctx\<close> the plugin touches, with the process-wide marker counts.
\<close>

section \<open>The challenge marker\<close>

record challenge_marker =
  cm_source :: string
  cm_reason :: string
  cm_level :: u8

definition challenge_marker_new :: "string \<Rightarrow> string \<Rightarrow> challenge_marker" where
  "challenge_marker_new source reason = \<lparr>cm_source = source, cm_reason = reason, cm_level = 0\<rparr>"

definition count_write :: "(string \<times> u64) list \<Rightarrow> string \<Rightarrow> (string \<times> u64) list" where
  "count_write rows domain =
     AList.update domain ((case map_of rows domain of Some n \<Rightarrow> n | None \<Rightarrow> 0) + 1) rows"

section \<open>Construction\<close>

record acl_conf =
  ac_default_action :: DefaultAction
  ac_rules :: "acl_rule list"
  ac_access_list :: "access_list_conf option"
  ac_realm :: "string option"

record acl_state =
  as_denied :: bool
  as_challenged :: bool
  as_decided_by :: "nat option"
  as_logged :: "nat list"
  as_access_list_refused :: bool

definition acl_state_default :: acl_state where
  "acl_state_default = \<lparr>as_denied = False, as_challenged = False, as_decided_by = None,
     as_logged = [], as_access_list_refused = False\<rparr>"

record ('n, 're) acl =
  acl_plugin_step :: PluginStep
  acl_rules :: "('n, 're) rule_set"
  acl_access_list :: "'n access_list option"
  acl_forbidden :: response
  acl_unauthorized :: response

datatype AclError =
    BadStep string | BadRule RuleError | BadList AccessListError | EnforcesNothing | BadRealm string

definition CATEGORY :: string where
  "CATEGORY = ''acl''"

fun validate_rules ::
  "('n, 're) acl_env \<Rightarrow> acl_rule list \<Rightarrow> nat \<Rightarrow> (('n, 're) validated_rule list, AclError) result" where
  "validate_rules env [] index = Ok []"
| "validate_rules env (spec # specs) index =
     result_bind (map_err BadRule (validated_rule_new env spec index)) (\<lambda>r.
     result_bind (validate_rules env specs (Suc index)) (\<lambda>rs. Ok (r # rs)))"

definition validate_list ::
  "('n, 're) acl_env \<Rightarrow> access_list_conf option \<Rightarrow> ('n access_list option, AclError) result" where
  "validate_list env conf =
     (case conf of
        Some list \<Rightarrow> result_bind (map_err BadList (access_list_new (acl_ipnet env) CATEGORY list)) (\<lambda>l. Ok (Some l))
      | None \<Rightarrow> Ok None)"

definition acl_try_from ::
  "('n, 're) acl_env \<Rightarrow> http_lib \<Rightarrow> string option \<Rightarrow> acl_conf \<Rightarrow> (('n, 're) acl, AclError) result" where
  "acl_try_from env http step conf =
     result_bind (map_err BadStep (get_step_conf_in step Request [Request])) (\<lambda>plugin_step.
     result_bind (validate_rules env (ac_rules conf) 0) (\<lambda>validated.
     (let rules = rule_set_new validated (ac_default_action conf) in
      result_bind (validate_list env (ac_access_list conf)) (\<lambda>access_list.
      if rule_set_is_empty rules \<and> access_list = None \<and> ac_default_action conf = DefaultAllow
      then Err EnforcesNothing
      else (let realm = (case ac_realm conf of Some r \<Rightarrow> r | None \<Rightarrow> ''Restricted'');
                challenge = ''Basic realm=\"'' @ realm @ ''\"'' in
            if \<not> hl_value_ok http challenge then Err (BadRealm realm)
            else Ok \<lparr>acl_plugin_step = plugin_step, acl_rules = rules, acl_access_list = access_list,
                     acl_forbidden = \<lparr>rsp_status = 403, rsp_headers = [], rsp_body = ''Forbidden''\<rparr>,
                     acl_unauthorized = \<lparr>rsp_status = 401,
                       rsp_headers = [(''www-authenticate'', challenge)],
                       rsp_body = ''Unauthorized''\<rparr>\<rparr>)))))"

section \<open>The request\<close>

definition header_pairs :: "http_lib \<Rightarrow> session \<Rightarrow> (string \<times> string) list" where
  "header_pairs http s =
     List.map_filter (\<lambda>(name, v). map_option (Pair name) (hl_to_str http v)) (se_headers s)"

definition basic_credentials ::
  "http_lib \<Rightarrow> (string \<Rightarrow> string option) \<Rightarrow> session \<Rightarrow> (string \<times> string) option" where
  "basic_credentials http base64_decode s =
     Option.bind (hl_get http (se_headers s) ''authorization'') (\<lambda>v.
     Option.bind (hl_to_str http v) (\<lambda>v.
     Option.bind (strip_prefix ''Basic '' v) (\<lambda>encoded.
     Option.bind (base64_decode (str_trim encoded)) (\<lambda>decoded.
     Option.bind (result_ok (from_utf8 decoded)) (\<lambda>text. split_once CHR '':'' text)))))"

record acl_ctx =
  cx_client_ip :: "string option"
  cx_location :: string
  cx_acl :: "acl_state option"
  cx_marker :: "challenge_marker option"
  cx_written :: "(string \<times> u64) list"

record ('n, 're) acl_world =
  w_env :: "('n, 're) acl_env"
  w_http :: http_lib
  w_base64 :: "string \<Rightarrow> string option"
  w_sha256 :: "string \<Rightarrow> u8 list"
  w_proxies :: "'n proxy_state"
  w_hosts :: host_policy

definition domain_label :: "('n, 're) acl_world \<Rightarrow> session \<Rightarrow> acl_ctx \<Rightarrow> string" where
  "domain_label w s ctx =
     host_label (w_hosts w) (case get_host (w_http w) s of Some h \<Rightarrow> h | None \<Rightarrow> cx_location ctx)"

definition acl_state_or_default :: "acl_ctx \<Rightarrow> acl_state" where
  "acl_state_or_default ctx = (case cx_acl ctx of Some st \<Rightarrow> st | None \<Rightarrow> acl_state_default)"

definition refuse_by_list :: "('n, 're) acl \<Rightarrow> 'n access_list \<Rightarrow> acl_ctx \<Rightarrow> request_result \<times> acl_ctx" where
  "refuse_by_list a list ctx =
     (Respond (if has_users list then acl_unauthorized a else acl_forbidden a),
      ctx\<lparr>cx_acl := Some ((acl_state_or_default ctx)\<lparr>as_denied := True, as_access_list_refused := True\<rparr>)\<rparr>)"

definition record_outcome :: "outcome \<Rightarrow> acl_ctx \<Rightarrow> acl_ctx" where
  "record_outcome outcome ctx =
     (if \<not> out_allowed outcome \<or> out_logged outcome \<noteq> []
      then (let st = acl_state_or_default ctx in
            ctx\<lparr>cx_acl := Some (st\<lparr>as_denied := as_denied st \<or> (\<not> out_allowed outcome \<and> \<not> out_challenged outcome),
              as_challenged := as_challenged st \<or> out_challenged outcome,
              as_decided_by := out_decided_by outcome, as_logged := out_logged outcome\<rparr>)\<rparr>)
      else ctx)"

definition list_refuses :: "('n, 're) acl_world \<Rightarrow> ('n, 're) acl \<Rightarrow> session \<Rightarrow> string \<Rightarrow> 'n access_list option" where
  "list_refuses w a s client_ip =
     (case acl_access_list a of
        Some list \<Rightarrow>
          if admits (acl_ipnet (w_env w)) (w_sha256 w) list client_ip
               (basic_credentials (w_http w) (w_base64 w) s)
          then None else Some list
      | None \<Rightarrow> None)"

definition acl_handle_request ::
  "('n, 're) acl_world \<Rightarrow> ('n, 're) acl \<Rightarrow> PluginStep \<Rightarrow> session \<Rightarrow> acl_ctx \<Rightarrow> request_result \<times> acl_ctx" where
  "acl_handle_request w a step s ctx =
     (if step \<noteq> acl_plugin_step a then (Skipped, ctx)
      else (case ensure_client_ip (acl_ipnet (w_env w)) (w_http w) (w_proxies w) s (cx_client_ip ctx) of
        (client_ip, cached) \<Rightarrow>
          (let ctx = ctx\<lparr>cx_client_ip := cached\<rparr> in
           case list_refuses w a s client_ip of
             Some list \<Rightarrow> refuse_by_list a list ctx
           | None \<Rightarrow>
               (let outcome = rule_set_evaluate (w_env w) (acl_rules a)
                      \<lparr>rf_client_ip = client_ip, rf_method = se_method s,
                       rf_headers = header_pairs (w_http w) s\<rparr>;
                    ctx = record_outcome outcome ctx in
                if out_challenged outcome
                then (Continue,
                      ctx\<lparr>cx_written := count_write (cx_written ctx) (domain_label w s ctx),
                          cx_marker := Some (challenge_marker_new CATEGORY
                            (''rule:'' @ show_nat (case out_decided_by outcome of Some i \<Rightarrow> i | None \<Rightarrow> 0)))\<rparr>)
                else if out_allowed outcome then (Continue, ctx)
                else (Respond (acl_forbidden a), ctx)))))"

end
