(* ===== verification/Acl_Props.thy ===== *)
theory Acl_Props
  imports Acl_Plugin
begin

text \<open>
  The access-control plugin end to end: what a request is answered, as a function of the written
  configuration alone. The compiled rules, the sorted table, the country cache and the index
  bookkeeping disappear; the properties close the theory.
\<close>

section \<open>From the compiled table back to the written one\<close>

context first_match
begin

lemma deciding_find:
  "(case deciding rs of Some i \<Rightarrow> f (rs ! i) | None \<Rightarrow> d) =
     (case find (\<lambda>r. hits r \<and> terminal r) rs of Some r \<Rightarrow> f r | None \<Rightarrow> d)"
proof (induction rs)
  case (Cons r rs)
  then show ?case
    by (cases "deciding rs") (auto simp: deciding_Cons)
qed simp

end

lemma insort_key_map: "insort_key f (g x) (map g xs) = map g (insort_key (f \<circ> g) x xs)"
  by (induction xs) auto

lemma sort_key_map: "sort_key f (map g xs) = map g (sort_key (f \<circ> g) xs)"
  by (induction xs) (simp_all add: insort_key_map comp_def)

lemma validate_rules_Ok:
  "validate_rules env specs index = Ok rs \<longleftrightarrow>
     (\<forall>spec\<in>set specs. rule_enforceable env spec) \<and> rs = map (rule_compiled env) specs"
  by (induction specs arbitrary: index rs)
    (auto simp: result_bind_Ok map_err_Ok validated_rule_new_iff)

definition spec_value :: "('n, 're) acl_env \<Rightarrow> request_facts \<Rightarrow> acl_rule \<Rightarrow> string" where
  "spec_value env facts spec =
     (case acl_field spec of
        Ip \<Rightarrow> rf_client_ip facts
      | Method \<Rightarrow> rf_method facts
      | UserAgent \<Rightarrow> facts_header facts ''user-agent''
      | Referer \<Rightarrow> facts_header facts ''referer''
      | Header \<Rightarrow> (case acl_header spec of Some name \<Rightarrow> facts_header facts name | None \<Rightarrow> [])
      | GeoCountry \<Rightarrow> country_of env (rf_client_ip facts))"

definition spec_decides :: "('n, 're) acl_env \<Rightarrow> request_facts \<Rightarrow> acl_rule \<Rightarrow> bool" where
  "spec_decides env facts spec \<longleftrightarrow>
     spec_matches env spec (spec_value env facts spec) \<and> is_terminal (acl_action spec)"

definition table_action :: "('n, 're) acl_env \<Rightarrow> request_facts \<Rightarrow> acl_conf \<Rightarrow> Action" where
  "table_action env facts conf =
     (case find (spec_decides env facts) (sort_key acl_order (ac_rules conf)) of
        Some spec \<Rightarrow> acl_action spec
      | None \<Rightarrow> default_as_action (ac_default_action conf))"

definition list_admits ::
  "'n ipnet_lib \<Rightarrow> (string \<Rightarrow> u8 list) \<Rightarrow> access_list_conf \<Rightarrow> string \<Rightarrow> (string \<times> string) option \<Rightarrow> bool" where
  "list_admits lib sha256 conf ip creds =
     (let by_ip = (\<exists>a. parse_addr ip = Some a \<and> (\<exists>v\<in>set (alc_ip_allowlist conf). entry_covers lib v a));
          by_password = (\<exists>u p. creds = Some (u, p) \<and>
            map_of (rev (List.map_filter user_entry (alc_users conf))) u = Some (hex_sha256 sha256 p))
      in (case alc_satisfy conf of Any \<Rightarrow> by_ip \<or> by_password | All \<Rightarrow> by_ip \<and> by_password))"

lemma admits_iff:
  assumes "access_list_new lib name conf = Ok l"
  shows "admits lib h l ip creds \<longleftrightarrow> list_admits lib h conf ip creds"
  using access_list_new_Ok(5) [OF assms]
  by (cases creds) (auto simp: admits_def list_admits_def Let_def ip_satisfies_iff [OF assms]
      credentials_satisfy_iff [OF assms] split: Satisfy.splits)

lemma map_add_Nil_iff: "map_of (rev xs) = Map.empty \<longleftrightarrow> xs = []"
  by (metis map_of.simps(1) map_of_eq_empty_iff rev_is_Nil_conv)

lemma has_users_iff:
  assumes "access_list_new lib name conf = Ok l"
  shows "has_users l \<longleftrightarrow> alc_users conf \<noteq> []"
proof -
  have wf: "user_entry e \<noteq> None" if "e \<in> set (alc_users conf)" for e
    using access_list_new_Ok(2) [OF assms] that
    by (auto simp: list_all_iff entry_wf_def user_entry_def split: option.splits)
  have "List.map_filter user_entry (alc_users conf) = [] \<longleftrightarrow> alc_users conf = []"
    using wf [of "hd (alc_users conf)"]
    by (cases "alc_users conf") (auto simp: map_filter_simps split: option.splits)
  moreover have "al_users l = [] \<longleftrightarrow> map_of (al_users l) = Map.empty"
    by (simp add: map_of_eq_empty_iff)
  ultimately show ?thesis
    using access_list_new_Ok(6) [OF assms] by (auto simp: has_users_def map_add_Nil_iff)
qed

lemma compiled_action:
  "(case acl.deciding env facts (map (rule_compiled env) specs) of
      Some i \<Rightarrow> vr_action (map (rule_compiled env) specs ! i) | None \<Rightarrow> d) =
   (case find (spec_decides env facts) specs of Some spec \<Rightarrow> acl_action spec | None \<Rightarrow> d)"
proof -
  have hit: "rule_hits env facts (rule_compiled env spec) \<and> rule_terminal (rule_compiled env spec) \<longleftrightarrow>
      spec_decides env facts spec" for spec
    by (auto simp: rule_hits_def rule_terminal_def spec_decides_def rule_matches_compiled
        field_value_def spec_value_def vr_action_def rule_compiled_def Let_def
        rule_matches_compiled [unfolded rule_compiled_def] split: Field.splits)
  have "find (\<lambda>r. rule_hits env facts r \<and> rule_terminal r) (map (rule_compiled env) specs) =
      map_option (rule_compiled env) (find (spec_decides env facts) specs)"
    by (induction specs) (auto simp: hit)
  then show ?thesis
    unfolding acl.deciding_find
    by (auto simp: vr_action_def rule_compiled_def split: option.splits)
qed

section \<open>The whole request\<close>

definition acl_facts :: "('n, 're) acl_world \<Rightarrow> session \<Rightarrow> string \<Rightarrow> request_facts" where
  "acl_facts w s ip =
     \<lparr>rf_client_ip = ip, rf_method = se_method s, rf_headers = header_pairs (w_http w) s\<rparr>"

definition gate_refuses :: "('n, 're) acl_world \<Rightarrow> acl_conf \<Rightarrow> session \<Rightarrow> string \<Rightarrow> bool" where
  "gate_refuses w conf s ip =
     (case ac_access_list conf of
        Some list \<Rightarrow> \<not> list_admits (acl_ipnet (w_env w)) (w_sha256 w) list ip
                       (basic_credentials (w_http w) (w_base64 w) s)
      | None \<Rightarrow> False)"

definition gate_has_users :: "acl_conf \<Rightarrow> bool" where
  "gate_has_users conf = (case ac_access_list conf of Some list \<Rightarrow> alc_users list \<noteq> [] | None \<Rightarrow> False)"

definition client_ip_of :: "('n, 're) acl_world \<Rightarrow> session \<Rightarrow> acl_ctx \<Rightarrow> string" where
  "client_ip_of w s ctx =
     (case cx_client_ip ctx of
        Some ip \<Rightarrow> ip
      | None \<Rightarrow> get_client_ip (acl_ipnet (w_env w)) (w_http w) (w_proxies w) s)"

text \<open>The status a request is answered with; \<open>None\<close> lets it continue to the next plugin.\<close>

definition acl_status :: "('n, 're) acl_world \<Rightarrow> acl_conf \<Rightarrow> session \<Rightarrow> acl_ctx \<Rightarrow> nat option" where
  "acl_status w conf s ctx =
     (let ip = client_ip_of w s ctx in
      if gate_refuses w conf s ip then Some (if gate_has_users conf then 401 else 403)
      else if table_action (w_env w) (acl_facts w s ip) conf = Deny then Some 403 else None)"

lemma acl_try_from_Ok:
  assumes "acl_try_from env http step conf = Ok a"
  shows "acl_plugin_step a = Request"
    and "rs_default_action (acl_rules a) = ac_default_action conf"
    and "rs_rules (acl_rules a) = map (rule_compiled env) (sort_key acl_order (ac_rules conf))"
    and "case ac_access_list conf of
           Some list \<Rightarrow> \<exists>l. acl_access_list a = Some l \<and> access_list_new (acl_ipnet env) CATEGORY list = Ok l
         | None \<Rightarrow> acl_access_list a = None"
    and "rsp_status (acl_forbidden a) = 403" and "rsp_status (acl_unauthorized a) = 401"
    and "\<forall>spec\<in>set (ac_rules conf). rule_enforceable env spec"
proof -
  have sk: "sort_key (\<lambda>r. acl_order (vr_spec r)) (map (rule_compiled env) xs) =
      map (rule_compiled env) (sort_key acl_order xs)" for xs
    by (simp add: sort_key_map comp_def rule_compiled_def)
  have "acl_plugin_step a = Request \<and> rs_default_action (acl_rules a) = ac_default_action conf \<and>
    rs_rules (acl_rules a) = map (rule_compiled env) (sort_key acl_order (ac_rules conf)) \<and>
    validate_list env (ac_access_list conf) = Ok (acl_access_list a) \<and>
    rsp_status (acl_forbidden a) = 403 \<and> rsp_status (acl_unauthorized a) = 401 \<and>
    (\<forall>spec\<in>set (ac_rules conf). rule_enforceable env spec)"
    using assms
    by (auto simp: acl_try_from_def result_bind_Ok map_err_Ok get_step_conf_in_Ok validate_rules_Ok
        rule_set_new_def sk Let_def split: if_splits)
  then show "acl_plugin_step a = Request"
    and "rs_default_action (acl_rules a) = ac_default_action conf"
    and "rs_rules (acl_rules a) = map (rule_compiled env) (sort_key acl_order (ac_rules conf))"
    and "case ac_access_list conf of
           Some list \<Rightarrow> \<exists>l. acl_access_list a = Some l \<and> access_list_new (acl_ipnet env) CATEGORY list = Ok l
         | None \<Rightarrow> acl_access_list a = None"
    and "rsp_status (acl_forbidden a) = 403" and "rsp_status (acl_unauthorized a) = 401"
    and "\<forall>spec\<in>set (ac_rules conf). rule_enforceable env spec"
    by (auto simp: validate_list_def result_bind_Ok map_err_Ok split: option.splits)
qed

lemma list_refuses_iff:
  assumes "acl_try_from (w_env w) http step conf = Ok a"
  shows "list_refuses w a s ip = None \<longleftrightarrow> \<not> gate_refuses w conf s ip"
    and "list_refuses w a s ip = Some l \<Longrightarrow> has_users l = gate_has_users conf"
  using acl_try_from_Ok(4) [OF assms]
  by (auto simp: list_refuses_def gate_refuses_def gate_has_users_def admits_iff has_users_iff
      split: option.splits if_splits)

lemma acl_outcome:
  assumes "acl_try_from env http step conf = Ok a"
  shows "out_allowed (rule_set_evaluate env (acl_rules a) facts) \<longleftrightarrow> table_action env facts conf = Allow"
    and "out_challenged (rule_set_evaluate env (acl_rules a) facts) \<longleftrightarrow> table_action env facts conf = Challenge"
proof -
  have "out_action (rule_set_evaluate env (acl_rules a) facts) = Some (table_action env facts conf)"
    using acl_try_from_Ok(2,3) [OF assms]
    by (simp add: rule_set_evaluate_spec outcome_of_def Let_def compiled_action table_action_def)
  then show "out_allowed (rule_set_evaluate env (acl_rules a) facts) \<longleftrightarrow> table_action env facts conf = Allow"
    and "out_challenged (rule_set_evaluate env (acl_rules a) facts) \<longleftrightarrow> table_action env facts conf = Challenge"
    by (auto simp: rule_set_evaluate_spec outcome_of_def Let_def)
qed

lemma table_action_terminal: "table_action env facts conf \<noteq> Log"
proof -
  have "is_terminal (acl_action spec)" if "find (spec_decides env facts) specs = Some spec" for spec specs
    using that by (auto simp: find_Some_iff spec_decides_def)
  from this [of "sort_key acl_order (ac_rules conf)"] show ?thesis
    by (cases "ac_default_action conf")
      (fastforce simp: table_action_def split: option.splits)+
qed

section \<open>Properties\<close>

text \<open>
  C3: The plugin enforces the written policy. A plugin built from a configuration answers a
  request at its step exactly as the configuration reads: the access list gates first (401 when it
  has users, 403 otherwise), then the first enabled terminal rule in the order of \<open>order\<close> (ties in
  written order) that matches decides, then the default; only \<open>deny\<close> is answered, with 403.
\<close>

theorem acl_enforces_policy:
  assumes "acl_try_from (w_env w) (w_http w) step conf = Ok a"
  shows "(case fst (acl_handle_request w a Request s ctx) of
            Respond r \<Rightarrow> Some (rsp_status r) | Continue \<Rightarrow> None | Skipped \<Rightarrow> Some 0) = acl_status w conf s ctx"
proof -
  have ip: "ensure_client_ip (acl_ipnet (w_env w)) (w_http w) (w_proxies w) s (cx_client_ip ctx) =
      (client_ip_of w s ctx, Some (client_ip_of w s ctx))"
    by (simp add: ensure_client_ip_def client_ip_of_def Let_def split: option.splits)
  note conf = acl_try_from_Ok [OF assms]
  show ?thesis
  proof (cases "list_refuses w a s (client_ip_of w s ctx)")
    case (Some l)
    then have "gate_refuses w conf s (client_ip_of w s ctx)"
      using list_refuses_iff(1) [OF assms, of s "client_ip_of w s ctx"] by simp
    with Some list_refuses_iff(2) [OF assms Some] conf(1,5,6) show ?thesis
      by (simp add: acl_handle_request_def ip Let_def refuse_by_list_def acl_status_def)
  next
    case None
    then have g: "\<not> gate_refuses w conf s (client_ip_of w s ctx)"
      using list_refuses_iff(1) [OF assms, of s "client_ip_of w s ctx"] by simp
    have "table_action (w_env w) (acl_facts w s (client_ip_of w s ctx)) conf \<noteq> Log"
      by (rule table_action_terminal)
    with None g acl_outcome [OF assms, of "acl_facts w s (client_ip_of w s ctx)"] conf(1,5)
    show ?thesis
      by (cases "table_action (w_env w) (acl_facts w s (client_ip_of w s ctx)) conf")
        (auto simp: acl_handle_request_def ip Let_def acl_status_def acl_facts_def)
  qed
qed

definition demo_env :: "(unit, string) acl_env" where
  "demo_env = \<lparr>acl_ipnet = demo_net, regex_new = (\<lambda>p. Ok p), regex_is_match = (\<lambda>re v. str_contains v re),
     to_lowercase = to_ascii_lowercase, geo = False, lookup_country_code = (\<lambda>_. None)\<rparr>"

definition demo_world :: "(unit, string) acl_world" where
  "demo_world = \<lparr>w_env = demo_env, w_http = demo_http, w_base64 = (\<lambda>_. None), w_sha256 = (\<lambda>_. []),
     w_proxies = proxy_state_init, w_hosts = host_policy_new [''a.example'']\<rparr>"

definition demo_rule :: "Operator \<Rightarrow> string \<Rightarrow> Action \<Rightarrow> int \<Rightarrow> acl_rule" where
  "demo_rule operator v action order =
     \<lparr>acl_field = Method, acl_operator = operator, acl_values = [v], acl_header = None,
      acl_action = action, acl_order = order, acl_enabled = True\<rparr>"

definition demo_conf :: acl_conf where
  "demo_conf = \<lparr>ac_default_action = DefaultAllow,
     ac_rules = [demo_rule InList ''POST'' Allow 20, demo_rule Equals ''post'' Deny 10,
                 demo_rule Equals ''Post'' Log 5],
     ac_access_list = Some \<lparr>alc_ip_allowlist = [''10.0.0.1''], alc_users = [], alc_satisfy = Any\<rparr>,
     ac_realm = None\<rparr>"

definition demo_session :: session where
  "demo_session = \<lparr>se_method = ''POST'', se_uri_host = Some ''a.example'', se_headers = [], se_peer = None\<rparr>"

definition demo_ctx :: "string \<Rightarrow> acl_ctx" where
  "demo_ctx ip = \<lparr>cx_client_ip = Some ip, cx_location = [], cx_acl = None, cx_marker = None, cx_written = []\<rparr>"

theorem acl_enforces_policy_witness:
  "(case fst (acl_handle_request demo_world (ok (acl_try_from demo_env demo_http None demo_conf))
      Request demo_session (demo_ctx ''10.0.0.1'')) of
      Respond r \<Rightarrow> Some (rsp_status r) | Continue \<Rightarrow> None | Skipped \<Rightarrow> Some 0) =
     acl_status demo_world demo_conf demo_session (demo_ctx ''10.0.0.1'')"
proof (rule acl_enforces_policy)
  have "is_Ok (acl_try_from demo_env demo_http None demo_conf)" by code_simp
  then show "acl_try_from (w_env demo_world) (w_http demo_world) None demo_conf =
      Ok (ok (acl_try_from demo_env demo_http None demo_conf))"
    by (cases "acl_try_from demo_env demo_http None demo_conf") (simp_all add: demo_world_def)
qed

text \<open>
  C22: A marker is left exactly for a challenge. Handling a request at the plugin's step writes a
  challenge marker (and adds one to its domain's written count) iff the access list admits the
  request and the policy's action is \<open>challenge\<close>; such a request is never answered here, so it
  reaches the plugin that consumes the marker.
\<close>

theorem acl_marker_iff_challenge:
  assumes "acl_try_from (w_env w) (w_http w) step conf = Ok a" and "cx_marker ctx = None"
  shows "cx_marker (snd (acl_handle_request w a Request s ctx)) \<noteq> None \<longleftrightarrow>
      \<not> gate_refuses w conf s (client_ip_of w s ctx) \<and>
      table_action (w_env w) (acl_facts w s (client_ip_of w s ctx)) conf = Challenge"
    (is "?marked \<longleftrightarrow> ?asked")
proof -
  have ip: "ensure_client_ip (acl_ipnet (w_env w)) (w_http w) (w_proxies w) s (cx_client_ip ctx) =
      (client_ip_of w s ctx, Some (client_ip_of w s ctx))"
    by (simp add: ensure_client_ip_def client_ip_of_def Let_def split: option.splits)
  have rec: "cx_marker (record_outcome o' c) = cx_marker c" for o' c
    by (simp add: record_outcome_def Let_def)
  show ?thesis
    using acl_try_from_Ok(1) [OF assms(1)] assms(2)
      acl_outcome [OF assms(1), of "acl_facts w s (client_ip_of w s ctx)"]
      list_refuses_iff(1) [OF assms(1), of s "client_ip_of w s ctx"]
    by (auto simp: acl_handle_request_def ip Let_def refuse_by_list_def rec acl_facts_def
        split: option.splits)
qed

theorem acl_marker_iff_challenge_witness:
  "cx_marker (snd (acl_handle_request demo_world (ok (acl_try_from demo_env demo_http None
      (demo_conf\<lparr>ac_default_action := DefaultChallenge, ac_rules := []\<rparr>)))
      Request demo_session (demo_ctx ''10.0.0.1''))) \<noteq> None \<longleftrightarrow>
   \<not> gate_refuses demo_world (demo_conf\<lparr>ac_default_action := DefaultChallenge, ac_rules := []\<rparr>)
       demo_session (client_ip_of demo_world demo_session (demo_ctx ''10.0.0.1'')) \<and>
   table_action (w_env demo_world) (acl_facts demo_world demo_session
       (client_ip_of demo_world demo_session (demo_ctx ''10.0.0.1'')))
       (demo_conf\<lparr>ac_default_action := DefaultChallenge, ac_rules := []\<rparr>) = Challenge"
proof (rule acl_marker_iff_challenge)
  let ?c = "demo_conf\<lparr>ac_default_action := DefaultChallenge, ac_rules := []\<rparr>"
  have "is_Ok (acl_try_from demo_env demo_http None ?c)" by code_simp
  then show "acl_try_from (w_env demo_world) (w_http demo_world) None ?c =
      Ok (ok (acl_try_from demo_env demo_http None ?c))"
    by (cases "acl_try_from demo_env demo_http None ?c") (simp_all add: demo_world_def)
qed (simp add: demo_ctx_def)

text \<open>
  C23: A rule is accepted exactly when it can be enforced as written: its operator is offered by its
  field, it has values (one, for \<open>equals\<close>), names a header iff it tests one, every regex compiles,
  every address entry parses, no single address is repeated, and country rules have the GeoIP
  feature; and an accepted rule matches a value iff the written rule does.
\<close>

theorem acl_rule_accepted_iff_enforceable:
  "(\<exists>r. validated_rule_new env spec index = Ok r \<and> (\<forall>v. rule_matches env r v = spec_matches env spec v))
     \<longleftrightarrow> rule_enforceable env spec"
  by (auto simp: validated_rule_new_iff rule_matches_compiled)

text \<open>
  The credential comparison is exact equality of the two strings, although it folds over
  every byte and never stops early.
\<close>

theorem constant_time_eq_is_equality: "constant_time_eq a b \<longleftrightarrow> a = b"
  by (rule constant_time_eq_iff)

text \<open>
  A repeated address makes a valid list unloadable. An allowlist that names one readable single
  address twice is refused with an error that names the empty string, while the same list without
  the repetition is accepted; the two list the same addresses.
\<close>

theorem access_list_repeated_address_refused:
  assumes "net_from_str lib v = None" and "parse_addr v = Some a"
  shows "access_list_new lib name \<lparr>alc_ip_allowlist = [v, v], alc_users = [], alc_satisfy = sat\<rparr>
       = Err (BadListCidr name []) \<and>
     is_Ok (access_list_new lib name \<lparr>alc_ip_allowlist = [v], alc_users = [], alc_satisfy = sat\<rparr>)"
proof
  have ok: "entry_ok lib v" and addr: "entry_addr lib v = Some a"
    using assms by (simp_all add: entry_ok_def entry_addr_def)
  have "ip_rules_len (ip_rules_new lib [v, v]) \<noteq> length [v, v]"
    using addr by (simp only: ip_rules_len_eq_iff) (simp add: map_filter_simps)
  moreover have "bad_entry lib [v, v] = []"
    by (rule bad_entry_all_ok) (simp add: ok)
  ultimately show "access_list_new lib name \<lparr>alc_ip_allowlist = [v, v], alc_users = [], alc_satisfy = sat\<rparr>
       = Err (BadListCidr name [])"
    by (simp add: access_list_new_def Let_def)
  show "is_Ok (access_list_new lib name \<lparr>alc_ip_allowlist = [v], alc_users = [], alc_satisfy = sat\<rparr>)"
    using ok addr by (simp add: access_list_new_is_Ok_iff map_filter_simps)
qed

theorem access_list_repeated_address_refused_witness:
  "access_list_new demo_net ''acl'' \<lparr>alc_ip_allowlist = [''10.0.0.1'', ''10.0.0.1''], alc_users = [], alc_satisfy = Any\<rparr>
     = Err (BadListCidr ''acl'' [])"
proof -
  have "parse_addr ''10.0.0.1'' = Some (V4 0x0a000001)" by code_simp
  then show ?thesis
    by (intro access_list_repeated_address_refused [THEN conjunct1]) (simp_all add: demo_net_def)
qed

text \<open>
  A challenge that no rule decided still names rule 0. When a table without rules challenges by
  default, the marker handed to the challenge plugin carries the reason \<open>rule:0\<close>, while the
  request's own ACL state records that no rule decided.
\<close>

theorem acl_default_challenge_names_rule_0:
  assumes "acl_try_from (w_env w) (w_http w) step conf = Ok a"
    and "ac_rules conf = []" and "ac_default_action conf = DefaultChallenge"
    and "\<not> gate_refuses w conf s (client_ip_of w s ctx)"
  shows "map_option cm_reason (cx_marker (snd (acl_handle_request w a Request s ctx))) = Some ''rule:0'' \<and>
    map_option as_decided_by (cx_acl (snd (acl_handle_request w a Request s ctx))) = Some None"
proof -
  have ip: "ensure_client_ip (acl_ipnet (w_env w)) (w_http w) (w_proxies w) s (cx_client_ip ctx) =
      (client_ip_of w s ctx, Some (client_ip_of w s ctx))"
    by (simp add: ensure_client_ip_def client_ip_of_def Let_def split: option.splits)
  have none: "list_refuses w a s (client_ip_of w s ctx) = None"
    using list_refuses_iff(1) [OF assms(1)] assms(4) by simp
  show ?thesis
    using acl_try_from_Ok(1,2,3) [OF assms(1)] assms(2,3) none
    by (simp add: acl_handle_request_def ip Let_def rule_set_evaluate_def record_outcome_def
        challenge_marker_new_def show_base.simps digit_char_def)
qed

theorem acl_default_challenge_names_rule_0_witness:
  "map_option cm_reason (cx_marker (snd (acl_handle_request demo_world (ok (acl_try_from demo_env demo_http None
      (demo_conf\<lparr>ac_default_action := DefaultChallenge, ac_rules := [], ac_access_list := None\<rparr>)))
      Request demo_session (demo_ctx ''10.0.0.1'')))) = Some ''rule:0''"
proof (rule acl_default_challenge_names_rule_0 [THEN conjunct1])
  let ?c = "demo_conf\<lparr>ac_default_action := DefaultChallenge, ac_rules := [], ac_access_list := None\<rparr>"
  have "is_Ok (acl_try_from demo_env demo_http None ?c)" by code_simp
  then show "acl_try_from (w_env demo_world) (w_http demo_world) None ?c =
      Ok (ok (acl_try_from demo_env demo_http None ?c))"
    by (cases "acl_try_from demo_env demo_http None ?c") (simp_all add: demo_world_def)
qed (simp_all add: gate_refuses_def)

end
