(* ===== verification/Waf_Rule.thy ===== *)
theory Waf_Rule
  imports Decimal
begin

text \<open>
  \<open>crates/pingap-waf/src/rule.rs\<close> and \<open>categories.rs\<close>: rule identity, severities, paranoia
  levels, categories and their identifier ranges. A \<open>RuleId\<close> is the 32-bit word it wraps.
\<close>

section \<open>Identifiers\<close>

type_synonym rule_id = u32

definition CUSTOM_RULE_ID_BASE :: u32 where
  "CUSTOM_RULE_ID_BASE = 1000000"

definition rule_id_native :: "u32 \<Rightarrow> rule_id option" where
  "rule_id_native rid = (if 1000 \<le> rid \<and> rid < CUSTOM_RULE_ID_BASE then Some rid else None)"

definition checked_add_u32 :: "u32 \<Rightarrow> u32 \<Rightarrow> u32 option" where
  "checked_add_u32 a b = (if unat a + unat b < 2 ^ 32 then Some (a + b) else None)"

definition rule_id_custom :: "u32 \<Rightarrow> rule_id option" where
  "rule_id_custom offset = checked_add_u32 CUSTOM_RULE_ID_BASE offset"

definition custom_wrapping :: "u32 \<Rightarrow> rule_id" where
  "custom_wrapping offset = (let span = - 1 - CUSTOM_RULE_ID_BASE in CUSTOM_RULE_ID_BASE + offset mod span)"

definition rule_id_is_custom :: "rule_id \<Rightarrow> bool" where
  "rule_id_is_custom rid \<longleftrightarrow> CUSTOM_RULE_ID_BASE \<le> rid"

section \<open>Severity, fields, paranoia\<close>

datatype Severity = Notice | Warning | Error | Critical

fun default_score :: "Severity \<Rightarrow> u32" where
  "default_score Notice = 2"
| "default_score Warning = 3"
| "default_score Error = 4"
| "default_score Critical = 5"

datatype MatchedField =
    FMethod | FUri | FQuery string | FHeader string | FCookie string | FBody usize usize
  | FStatus | FResponseHeader string | FResponseBody usize usize

fun show_field :: "MatchedField \<Rightarrow> string" where
  "show_field FMethod = ''method''"
| "show_field FUri = ''uri''"
| "show_field (FQuery key) = ''query:'' @ key"
| "show_field (FHeader name) = ''header:'' @ name"
| "show_field (FCookie name) = ''cookie:'' @ name"
| "show_field (FBody offset len) = ''body@'' @ show_nat offset @ ''+'' @ show_nat len"
| "show_field FStatus = ''status''"
| "show_field (FResponseHeader name) = ''response_header:'' @ name"
| "show_field (FResponseBody offset len) = ''response_body@'' @ show_nat offset @ ''+'' @ show_nat len"

type_synonym paranoia = u8

definition paranoia_new :: "u8 \<Rightarrow> paranoia option" where
  "paranoia_new level = (if 1 \<le> level \<and> level \<le> 4 then Some level else None)"

section \<open>Categories\<close>

datatype Category =
    ProtocolEnforcement | LocalFileInclusion | RemoteCodeExecution | Php | Generic | Xss
  | SqlInjection | SessionFixation | DataLeakage | WebShell

definition category_ALL :: "Category list" where
  "category_ALL = [ProtocolEnforcement, LocalFileInclusion, RemoteCodeExecution, Php, Generic, Xss,
     SqlInjection, SessionFixation, DataLeakage, WebShell]"

fun crs_group :: "Category \<Rightarrow> u16" where
  "crs_group ProtocolEnforcement = 920"
| "crs_group LocalFileInclusion = 930"
| "crs_group RemoteCodeExecution = 932"
| "crs_group Php = 933"
| "crs_group Generic = 934"
| "crs_group Xss = 941"
| "crs_group SqlInjection = 942"
| "crs_group SessionFixation = 943"
| "crs_group DataLeakage = 950"
| "crs_group WebShell = 955"

fun is_response_side :: "Category \<Rightarrow> bool" where
  "is_response_side DataLeakage = True"
| "is_response_side WebShell = True"
| "is_response_side _ = False"

definition id_range :: "Category \<Rightarrow> u32 \<times> u32" where
  "id_range c = (let base = ucast (crs_group c) * 1000 in (base, base + 999))"

definition owns_id :: "Category \<Rightarrow> u32 \<Rightarrow> bool" where
  "owns_id c rid = (case id_range c of (lo, hi) \<Rightarrow> lo \<le> rid \<and> rid \<le> hi)"

fun category_key :: "Category \<Rightarrow> string" where
  "category_key ProtocolEnforcement = ''protocol_enforcement''"
| "category_key LocalFileInclusion = ''local_file_inclusion''"
| "category_key RemoteCodeExecution = ''remote_code_execution''"
| "category_key Php = ''php''"
| "category_key Generic = ''generic''"
| "category_key Xss = ''xss''"
| "category_key SqlInjection = ''sql_injection''"
| "category_key SessionFixation = ''session_fixation''"
| "category_key DataLeakage = ''data_leakage''"
| "category_key WebShell = ''web_shell''"

record Hit =
  h_rule_id :: rule_id
  h_category :: Category
  h_severity :: Severity
  h_score :: u32
  h_matched_field :: MatchedField

section \<open>The identifier scheme\<close>

lemma category_ALL_complete: "c \<in> set category_ALL"
  by (cases c) (simp_all add: category_ALL_def)

lemma category_key_inj: "category_key a = category_key b \<Longrightarrow> a = b"
  by (cases a; cases b) simp_all

lemma find_category_key: "find (\<lambda>c. category_key c = key) category_ALL = Some c \<longleftrightarrow> category_key c = key"
proof
  show "find (\<lambda>c. category_key c = key) category_ALL = Some c \<Longrightarrow> category_key c = key"
    by (auto simp: find_Some_iff)
  assume key: "category_key c = key"
  then obtain d where d: "find (\<lambda>c. category_key c = key) category_ALL = Some d"
    using category_ALL_complete [of c]
    by (cases "find (\<lambda>c. category_key c = key) category_ALL") (auto simp: find_None_iff)
  then have "category_key d = key" by (auto simp: find_Some_iff)
  with key category_key_inj d show "find (\<lambda>c. category_key c = key) category_ALL = Some c" by blast
qed

lemma custom_wrapping_ge: "rule_id_is_custom (custom_wrapping offset)"
proof -
  let ?b = "CUSTOM_RULE_ID_BASE"
  let ?s = "- 1 - ?b"
  have s: "unat ?s = 2 ^ 32 - 1 - 1000000"
    by (simp add: CUSTOM_RULE_ID_BASE_def)
  have m: "unat (offset mod ?s) = unat offset mod (2 ^ 32 - 1 - 1000000)"
    unfolding unat_mod s by simp
  have lt: "unat offset mod (2 ^ 32 - 1 - 1000000) < 2 ^ 32 - 1 - 1000000"
    by (rule mod_less_divisor) simp
  have "unat (?b + offset mod ?s) = 1000000 + unat offset mod (2 ^ 32 - 1 - 1000000)"
    using lt by (simp add: unat_word_ariths m [symmetric] CUSTOM_RULE_ID_BASE_def)
  then show ?thesis
    by (simp add: rule_id_is_custom_def custom_wrapping_def Let_def word_le_nat_alt
        CUSTOM_RULE_ID_BASE_def)
qed

lemma native_not_custom: "rule_id_native rid = Some r \<Longrightarrow> \<not> rule_id_is_custom r"
  by (auto simp: rule_id_native_def rule_id_is_custom_def split: if_splits)

lemma id_range_native: "owns_id c rid \<Longrightarrow> rule_id_native rid = Some rid"
  by (cases c)
    (auto simp: owns_id_def id_range_def Let_def rule_id_native_def CUSTOM_RULE_ID_BASE_def word_le_nat_alt word_less_nat_alt)

lemma owns_id_unique: "owns_id a rid \<Longrightarrow> owns_id b rid \<Longrightarrow> a = b"
  by (cases a; cases b) (auto simp: owns_id_def id_range_def Let_def word_le_nat_alt)

end
