(* ===== verification/Waf_Config.thy ===== *)
theory Waf_Config
  imports Waf_Rule "HOL-Library.AList"
begin

text \<open>
  \<open>crates/pingap-waf/src/config.rs\<close> and \<open>budget.rs\<close>'s policy: the typed configuration, its
  validation with every rejection, and the cost check on operator patterns. The \<open>fancy_regex\<close>
  engine is a parameter. A \<open>BTreeMap\<close> read in key order is an association list; the messages of
  the cost check are the constructors of \<open>cost_error\<close>.
\<close>

section \<open>Modes\<close>

datatype RequestMode = RqOff | RqDetect | RqBlock | RqChallenge

datatype ResponseMode = RsOff | RsDetect | RsRedact

datatype RawMode = MOff | MDetect | MBlock | MChallenge | MRedact

fun request_mode_key :: "RequestMode \<Rightarrow> string" where
  "request_mode_key RqOff = ''off''"
| "request_mode_key RqDetect = ''detect''"
| "request_mode_key RqBlock = ''block''"
| "request_mode_key RqChallenge = ''challenge''"

fun response_mode_key :: "ResponseMode \<Rightarrow> string" where
  "response_mode_key RsOff = ''off''"
| "response_mode_key RsDetect = ''detect''"
| "response_mode_key RsRedact = ''redact''"

fun raw_mode_key :: "RawMode \<Rightarrow> string" where
  "raw_mode_key MOff = ''off''"
| "raw_mode_key MDetect = ''detect''"
| "raw_mode_key MBlock = ''block''"
| "raw_mode_key MChallenge = ''challenge''"
| "raw_mode_key MRedact = ''redact''"

definition request_mode_ALL :: "RequestMode list" where
  "request_mode_ALL = [RqOff, RqDetect, RqBlock, RqChallenge]"

definition response_mode_ALL :: "ResponseMode list" where
  "response_mode_ALL = [RsOff, RsDetect, RsRedact]"

definition available_request_modes :: string where
  "available_request_modes = join_with '', '' (map request_mode_key request_mode_ALL)"

definition available_response_modes :: string where
  "available_response_modes = join_with '', '' (map response_mode_key response_mode_ALL)"

datatype ExhaustedPolicy = PolicyAllow | PolicyBlock

section \<open>The configuration as written and as validated\<close>

datatype cost_error = TooLong nat | UnboundedLookaround string | NestedQuantifiers

datatype ConfigError =
    UnknownCategory string string
  | BlockOnResponseCategory string
  | ChallengeOnResponseCategory string
  | RedactOnRequestCategory string
  | ZeroThreshold
  | ZeroBudget
  | BadCustomPattern string string
  | CostlyCustomPattern string cost_error
  | CustomRuleActionUnavailable string string string string
  | ZeroBodyLimit
  | CustomRuleIdCollision string string u32

record 're regex_lib =
  fr_new :: "string \<Rightarrow> ('re, string) result"
  fr_find :: "'re \<Rightarrow> string \<Rightarrow> ((usize \<times> usize) option, unit) result"

record custom_rule =
  cr_category :: Category
  cr_pattern :: string
  cr_severity :: Severity
  cr_paranoia :: paranoia
  cr_action :: "RawMode option"

record 're validated_custom_rule =
  vc_spec :: custom_rule
  vc_pattern :: 're

record waf_config =
  wc_profile :: string
  wc_categories :: "(string \<times> RawMode) list"
  wc_paranoia :: paranoia
  wc_anomaly_threshold :: u32
  wc_budget_ms :: u64
  wc_on_budget_exhausted :: ExhaustedPolicy
  wc_body_inspect_limit :: usize
  wc_response_prefix_limit :: usize
  wc_custom_rules :: "(string \<times> custom_rule) list"

record 're validated_config =
  v_request_modes :: "(Category \<times> RequestMode) list"
  v_response_modes :: "(Category \<times> ResponseMode) list"
  v_profile :: string
  v_paranoia :: paranoia
  v_anomaly_threshold :: u32
  v_budget :: nat
  v_on_budget_exhausted :: ExhaustedPolicy
  v_body_inspect_limit :: usize
  v_response_prefix_limit :: usize
  v_custom_rules :: "(string \<times> 're validated_custom_rule) list"

definition waf_config_default :: waf_config where
  "waf_config_default =
     \<lparr>wc_profile = ''default'', wc_categories = [], wc_paranoia = 1, wc_anomaly_threshold = 5,
      wc_budget_ms = 10, wc_on_budget_exhausted = PolicyAllow,
      wc_body_inspect_limit = 128 * 1024, wc_response_prefix_limit = 64 * 1024,
      wc_custom_rules = []\<rparr>"

definition request_mode :: "'re validated_config \<Rightarrow> Category \<Rightarrow> RequestMode" where
  "request_mode v c =
     (if is_response_side c then RqOff
      else (case map_of (v_request_modes v) c of Some m \<Rightarrow> m | None \<Rightarrow> RqDetect))"

definition response_mode :: "'re validated_config \<Rightarrow> Category \<Rightarrow> ResponseMode" where
  "response_mode v c =
     (if \<not> is_response_side c then RsOff
      else (case map_of (v_response_modes v) c of Some m \<Rightarrow> m | None \<Rightarrow> RsDetect))"

section \<open>The cost check\<close>

definition lookaround_body_start :: "string \<Rightarrow> nat \<Rightarrow> nat option" where
  "lookaround_body_start p i =
     (let get = (\<lambda>k. if k < length p then Some (p ! k) else None) in
      if get (i + 1) \<noteq> Some CHR ''?'' then None
      else if get (i + 2) = Some CHR ''='' \<or> get (i + 2) = Some CHR ''!'' then Some (i + 3)
      else if get (i + 2) = Some CHR ''<''
      then (if get (i + 3) = Some CHR ''='' \<or> get (i + 3) = Some CHR ''!'' then Some (i + 4) else None)
      else None)"

lemma lookaround_body_start_gt: "lookaround_body_start p i = Some k \<Longrightarrow> i < k"
  by (auto simp: lookaround_body_start_def Let_def split: if_splits)

definition backslash :: char where
  "backslash = CHR 0x5C"

text \<open>The text between an opening brace at \<open>i\<close> and the next closing one, if any.\<close>

definition brace_inner :: "string \<Rightarrow> nat \<Rightarrow> string option" where
  "brace_inner s i = map_option (\<lambda>(inner, _). drop 1 inner) (split_once CHR ''}'' (drop i s))"

definition open_ended :: "string \<Rightarrow> bool" where
  "open_ended inner \<longleftrightarrow> inner \<noteq> [] \<and> last inner = CHR '','' \<and> list_all is_ascii_digit (butlast inner)"

function hq_loop :: "string \<Rightarrow> nat \<Rightarrow> bool \<Rightarrow> bool" where
  "hq_loop s i in_class =
     (if length s \<le> i then False
      else (let c = s ! i in
        if c = backslash then hq_loop s (i + 2) in_class
        else if c = CHR ''['' \<and> \<not> in_class then hq_loop s (i + 1) True
        else if c = CHR '']'' \<and> in_class then hq_loop s (i + 1) False
        else if (c = CHR ''*'' \<or> c = CHR ''+'') \<and> \<not> in_class then True
        else if c = CHR ''{'' \<and> \<not> in_class
          \<and> (case brace_inner s i of Some inner \<Rightarrow> open_ended inner | None \<Rightarrow> False) then True
        else hq_loop s (i + 1) in_class))"
  by pat_completeness auto
termination
  by (relation "measure (\<lambda>(s, i, _). length s - i)") auto

declare hq_loop.simps [simp del]

definition has_unbounded_quantifier :: "string \<Rightarrow> bool" where
  "has_unbounded_quantifier s = hq_loop s 0 False"

definition str_get :: "string \<Rightarrow> nat \<Rightarrow> nat \<Rightarrow> string option" where
  "str_get p a b = (if a \<le> b \<and> b \<le> length p then Some (take (b - a) (drop a p)) else None)"

function ul_loop :: "string \<Rightarrow> nat \<Rightarrow> bool \<Rightarrow> (bool \<times> nat) list \<Rightarrow> string option" where
  "ul_loop p i in_class stack =
     (if length p \<le> i then None
      else (let c = p ! i in
        if c = backslash then ul_loop p (i + 2) in_class stack
        else if c = CHR ''['' \<and> \<not> in_class then ul_loop p (i + 1) True stack
        else if c = CHR '']'' \<and> in_class then ul_loop p (i + 1) False stack
        else if c = CHR ''('' \<and> \<not> in_class
        then (case lookaround_body_start p i of
                Some k \<Rightarrow> ul_loop p k in_class ((True, k) # stack)
              | None \<Rightarrow> ul_loop p (i + 1) in_class ((False, i + 1) # stack))
        else if c = CHR '')'' \<and> \<not> in_class
        then (case stack of
                [] \<Rightarrow> ul_loop p (i + 1) in_class []
              | (is_lookaround, start) # rest \<Rightarrow>
                  (case str_get p start i of
                     Some body \<Rightarrow>
                       if is_lookaround \<and> has_unbounded_quantifier body then Some body
                       else ul_loop p (i + 1) in_class rest
                   | None \<Rightarrow> ul_loop p (i + 1) in_class rest))
        else ul_loop p (i + 1) in_class stack))"
  by pat_completeness auto
termination
  by (relation "measure (\<lambda>(p, i, _). length p - i)")
    (auto dest: lookaround_body_start_gt simp: diff_less_mono2)

declare ul_loop.simps [simp del]

definition unbounded_lookaround :: "string \<Rightarrow> string option" where
  "unbounded_lookaround pattern = ul_loop pattern 0 False []"

definition depth_quant :: "string \<Rightarrow> nat" where
  "depth_quant p =
     length (filter (\<lambda>i. p ! i \<in> {CHR ''+'', CHR ''*''} \<and> 0 < i \<and> p ! (i - 1) = CHR '')'') [0..<length p])"

definition cost_check :: "string \<Rightarrow> (unit, cost_error) result" where
  "cost_check pattern =
     (if 2000 < length pattern then Err (TooLong (length pattern))
      else (case unbounded_lookaround pattern of
              Some body \<Rightarrow> Err (UnboundedLookaround body)
            | None \<Rightarrow>
                if 0 < depth_quant pattern \<and> CHR ''+'' \<in> set pattern
                   \<and> list_ex (\<lambda>seg. CHR ''+'' \<in> set seg \<or> CHR ''*'' \<in> set seg) (split_on CHR '')'' pattern)
                   \<and> 2 \<le> depth_quant pattern
                then Err NestedQuantifiers
                else Ok ()))"

definition check_pattern_cost :: "string \<Rightarrow> (unit, cost_error) result" where
  "check_pattern_cost pattern = cost_check pattern"

section \<open>Validation\<close>

fun validate_categories ::
  "(string \<times> RawMode) list \<Rightarrow> (Category \<times> RequestMode) list \<Rightarrow> (Category \<times> ResponseMode) list \<Rightarrow>
     ((Category \<times> RequestMode) list \<times> (Category \<times> ResponseMode) list, ConfigError) result" where
  "validate_categories [] rq rs = Ok (rq, rs)"
| "validate_categories ((key, raw) # cats) rq rs =
     (case find (\<lambda>c. category_key c = key) category_ALL of
        None \<Rightarrow> Err (UnknownCategory key (join_with '', '' (map category_key category_ALL)))
      | Some category \<Rightarrow>
          if is_response_side category
          then (case raw of
                  MOff \<Rightarrow> validate_categories cats rq (AList.update category RsOff rs)
                | MDetect \<Rightarrow> validate_categories cats rq (AList.update category RsDetect rs)
                | MRedact \<Rightarrow> validate_categories cats rq (AList.update category RsRedact rs)
                | MBlock \<Rightarrow> Err (BlockOnResponseCategory (category_key category))
                | MChallenge \<Rightarrow> Err (ChallengeOnResponseCategory (category_key category)))
          else (case raw of
                  MOff \<Rightarrow> validate_categories cats (AList.update category RqOff rq) rs
                | MDetect \<Rightarrow> validate_categories cats (AList.update category RqDetect rq) rs
                | MBlock \<Rightarrow> validate_categories cats (AList.update category RqBlock rq) rs
                | MChallenge \<Rightarrow> validate_categories cats (AList.update category RqChallenge rq) rs
                | MRedact \<Rightarrow> Err (RedactOnRequestCategory (category_key category))))"

definition action_unavailable :: "custom_rule \<Rightarrow> (RawMode \<times> bool) option" where
  "action_unavailable rule =
     (case cr_action rule of
        Some MBlock \<Rightarrow> if is_response_side (cr_category rule) then Some (MBlock, False) else None
      | Some MChallenge \<Rightarrow> if is_response_side (cr_category rule) then Some (MChallenge, False) else None
      | Some MRedact \<Rightarrow> if \<not> is_response_side (cr_category rule) then Some (MRedact, True) else None
      | _ \<Rightarrow> None)"

definition validate_custom ::
  "'re regex_lib \<Rightarrow> string \<Rightarrow> custom_rule \<Rightarrow> ('re validated_custom_rule, ConfigError) result" where
  "validate_custom lib name rule =
     (case fr_new lib (cr_pattern rule) of
        Err e \<Rightarrow> Err (BadCustomPattern name e)
      | Ok compiled \<Rightarrow>
          (case cost_check (cr_pattern rule) of
             Err reason \<Rightarrow> Err (CostlyCustomPattern name reason)
           | Ok _ \<Rightarrow>
               (case action_unavailable rule of
                  Some (action, request_side) \<Rightarrow>
                    Err (CustomRuleActionUnavailable name (category_key (cr_category rule))
                          (raw_mode_key action)
                          (if request_side then available_request_modes else available_response_modes))
                | None \<Rightarrow> Ok \<lparr>vc_spec = rule, vc_pattern = compiled\<rparr>)))"

fun validate_customs ::
  "'re regex_lib \<Rightarrow> (string \<times> custom_rule) list \<Rightarrow> (string \<times> 're validated_custom_rule) list \<Rightarrow>
     ((string \<times> 're validated_custom_rule) list, ConfigError) result" where
  "validate_customs lib [] acc = Ok acc"
| "validate_customs lib ((name, rule) # rules) acc =
     (case validate_custom lib name rule of
        Err e \<Rightarrow> Err e
      | Ok v \<Rightarrow> validate_customs lib rules (acc @ [(name, v)]))"

definition waf_validate ::
  "'re regex_lib \<Rightarrow> waf_config \<Rightarrow> ('re validated_config, ConfigError) result" where
  "waf_validate lib cfg =
     (if wc_anomaly_threshold cfg = 0 then Err ZeroThreshold
      else if wc_budget_ms cfg = 0 then Err ZeroBudget
      else if wc_body_inspect_limit cfg = 0 then Err ZeroBodyLimit
      else (case validate_categories (wc_categories cfg) [] [] of
              Err e \<Rightarrow> Err e
            | Ok (rq, rs) \<Rightarrow>
                (case validate_customs lib (wc_custom_rules cfg) [] of
                   Err e \<Rightarrow> Err e
                 | Ok customs \<Rightarrow>
                     Ok \<lparr>v_request_modes = rq, v_response_modes = rs, v_profile = wc_profile cfg,
                         v_paranoia = wc_paranoia cfg, v_anomaly_threshold = wc_anomaly_threshold cfg,
                         v_budget = unat (wc_budget_ms cfg),
                         v_on_budget_exhausted = wc_on_budget_exhausted cfg,
                         v_body_inspect_limit = wc_body_inspect_limit cfg,
                         v_response_prefix_limit = wc_response_prefix_limit cfg,
                         v_custom_rules = customs\<rparr>)))"

section \<open>What validation accepts\<close>

definition mode_available :: "Category \<Rightarrow> RawMode \<Rightarrow> bool" where
  "mode_available c raw \<longleftrightarrow>
     raw \<in> (if is_response_side c then {MOff, MDetect, MRedact} else {MOff, MDetect, MBlock, MChallenge})"

fun as_request_mode :: "RawMode \<Rightarrow> RequestMode" where
  "as_request_mode MOff = RqOff"
| "as_request_mode MBlock = RqBlock"
| "as_request_mode MChallenge = RqChallenge"
| "as_request_mode _ = RqDetect"

fun as_response_mode :: "RawMode \<Rightarrow> ResponseMode" where
  "as_response_mode MOff = RsOff"
| "as_response_mode MRedact = RsRedact"
| "as_response_mode _ = RsDetect"

definition categories_ok :: "(string \<times> RawMode) list \<Rightarrow> bool" where
  "categories_ok cats \<longleftrightarrow> (\<forall>(key, raw)\<in>set cats. \<exists>c. category_key c = key \<and> mode_available c raw)"

definition custom_ok :: "'re regex_lib \<Rightarrow> custom_rule \<Rightarrow> bool" where
  "custom_ok lib rule \<longleftrightarrow>
     is_Ok (fr_new lib (cr_pattern rule)) \<and> cost_check (cr_pattern rule) = Ok () \<and>
     (\<forall>a. cr_action rule = Some a \<longrightarrow> mode_available (cr_category rule) a)"

lemma find_category_None:
  "find (\<lambda>c. category_key c = key) category_ALL = None \<longleftrightarrow> (\<nexists>c. category_key c = key)"
  using category_ALL_complete by (auto simp: find_None_iff)

lemma validate_categories_Cons:
  assumes "category_key c = key"
  shows "validate_categories ((key, raw) # cats) rq rs = Ok r \<longleftrightarrow>
    mode_available c raw \<and>
    validate_categories cats
      (if is_response_side c then rq else AList.update c (as_request_mode raw) rq)
      (if is_response_side c then AList.update c (as_response_mode raw) rs else rs) = Ok r"
  using assms find_category_key [of key c]
  by (cases raw) (auto simp: mode_available_def)

lemma validate_categories_Ok:
  "validate_categories cats rq rs = Ok (rq', rs') \<Longrightarrow>
     categories_ok cats \<and>
     (\<forall>c. \<not> is_response_side c \<longrightarrow> map_of rq' c =
        (case map_of (rev cats) (category_key c) of
           Some raw \<Rightarrow> Some (as_request_mode raw) | None \<Rightarrow> map_of rq c)) \<and>
     (\<forall>c. is_response_side c \<longrightarrow> map_of rs' c =
        (case map_of (rev cats) (category_key c) of
           Some raw \<Rightarrow> Some (as_response_mode raw) | None \<Rightarrow> map_of rs c))"
proof (induction cats arbitrary: rq rs)
  case (Cons a cats)
  obtain key raw where a: "a = (key, raw)" by (cases a)
  show ?case
  proof (cases "\<exists>c. category_key c = key")
    case False
    then have "find (\<lambda>c. category_key c = key) category_ALL = None"
      by (subst find_category_None)
    with Cons.prems a show ?thesis by simp
  next
    case True
    then obtain c where c: "category_key c = key" by blast
    have inj: "category_key d = key \<longleftrightarrow> d = c" for d
      using c category_key_inj by blast
    from Cons.prems [unfolded a validate_categories_Cons [OF c]] Cons.IH
    have ok: "mode_available c raw" and IH: "categories_ok cats"
      and rq: "\<forall>d. \<not> is_response_side d \<longrightarrow> map_of rq' d =
        (case map_of (rev cats) (category_key d) of Some raw \<Rightarrow> Some (as_request_mode raw)
         | None \<Rightarrow> map_of (if is_response_side c then rq else AList.update c (as_request_mode raw) rq) d)"
      and rs: "\<forall>d. is_response_side d \<longrightarrow> map_of rs' d =
        (case map_of (rev cats) (category_key d) of Some raw \<Rightarrow> Some (as_response_mode raw)
         | None \<Rightarrow> map_of (if is_response_side c then AList.update c (as_response_mode raw) rs else rs) d)"
      by auto
    from ok c IH have "categories_ok (a # cats)" by (auto simp: categories_ok_def a)
    moreover have "map_of rq' d = (case map_of (rev (a # cats)) (category_key d) of
        Some raw \<Rightarrow> Some (as_request_mode raw) | None \<Rightarrow> map_of rq d)" if "\<not> is_response_side d" for d
      using rq that
      by (cases "map_of (rev cats) (category_key d)")
        (auto simp: a map_add_def AList.update_conv' inj)
    moreover have "map_of rs' d = (case map_of (rev (a # cats)) (category_key d) of
        Some raw \<Rightarrow> Some (as_response_mode raw) | None \<Rightarrow> map_of rs d)" if "is_response_side d" for d
      using rs that
      by (cases "map_of (rev cats) (category_key d)")
        (auto simp: a map_add_def AList.update_conv' inj)
    ultimately show ?thesis by blast
  qed
qed (simp add: categories_ok_def)

lemma validate_categories_total:
  "categories_ok cats \<Longrightarrow> \<exists>r. validate_categories cats rq rs = Ok r"
proof (induction cats arbitrary: rq rs)
  case (Cons a cats)
  obtain key raw where a: "a = (key, raw)" by (cases a)
  with Cons.prems obtain c where "category_key c = key" "mode_available c raw"
    by (auto simp: categories_ok_def)
  moreover have "categories_ok cats" using Cons.prems by (simp add: categories_ok_def)
  ultimately show ?case
    using Cons.IH by (simp add: a validate_categories_Cons del: validate_categories.simps)
qed simp

lemma action_unavailable_None:
  "action_unavailable rule = None \<longleftrightarrow> (\<forall>a. cr_action rule = Some a \<longrightarrow> mode_available (cr_category rule) a)"
  by (auto simp: action_unavailable_def mode_available_def split: option.splits RawMode.splits)

lemma validate_custom_Ok:
  "validate_custom lib name rule = Ok v \<longleftrightarrow>
     custom_ok lib rule \<and> v = \<lparr>vc_spec = rule, vc_pattern = ok (fr_new lib (cr_pattern rule))\<rparr>"
proof (cases "fr_new lib (cr_pattern rule)")
  case (Ok re)
  then show ?thesis
    by (cases "cost_check (cr_pattern rule)"; cases "action_unavailable rule")
      (auto simp: validate_custom_def custom_ok_def action_unavailable_None [symmetric])
qed (simp add: validate_custom_def custom_ok_def)

definition compile_custom :: "'re regex_lib \<Rightarrow> custom_rule \<Rightarrow> 're validated_custom_rule" where
  "compile_custom lib rule = \<lparr>vc_spec = rule, vc_pattern = ok (fr_new lib (cr_pattern rule))\<rparr>"

lemma validate_customs_Ok:
  "validate_customs lib rules acc = Ok r \<longleftrightarrow>
     (\<forall>(name, rule)\<in>set rules. custom_ok lib rule) \<and>
     r = acc @ map (\<lambda>(name, rule). (name, compile_custom lib rule)) rules"
proof (induction rules arbitrary: acc)
  case (Cons a rules)
  obtain name rule where a: "a = (name, rule)" by (cases a)
  show ?case
  proof (cases "validate_custom lib name rule")
    case (Ok v)
    then have "custom_ok lib rule" "v = compile_custom lib rule"
      by (auto simp: validate_custom_Ok compile_custom_def)
    with Ok Cons.IH show ?thesis by (simp add: a)
  next
    case (Err e)
    then have "\<not> custom_ok lib rule"
      using validate_custom_Ok [of lib name rule] by auto
    with Err show ?thesis by (simp add: a)
  qed
qed auto

lemma waf_validate_Ok:
  assumes "waf_validate lib cfg = Ok v"
  shows "v_anomaly_threshold v = wc_anomaly_threshold cfg" "v_anomaly_threshold v \<noteq> 0"
    and "v_budget v = unat (wc_budget_ms cfg)" "0 < v_budget v"
    and "v_body_inspect_limit v = wc_body_inspect_limit cfg" "0 < v_body_inspect_limit v"
    and "v_response_prefix_limit v = wc_response_prefix_limit cfg"
    and "v_paranoia v = wc_paranoia cfg" "v_on_budget_exhausted v = wc_on_budget_exhausted cfg"
    and "v_custom_rules v = map (\<lambda>(name, rule). (name, compile_custom lib rule)) (wc_custom_rules cfg)"
    and "\<forall>(name, rule)\<in>set (wc_custom_rules cfg). custom_ok lib rule"
    and "validate_categories (wc_categories cfg) [] [] = Ok (v_request_modes v, v_response_modes v)"
  using assms
  by (auto simp: waf_validate_def validate_customs_Ok unat_gt_0 split: if_splits result.splits)

lemma waf_validate_is_Ok:
  "is_Ok (waf_validate lib cfg) \<longleftrightarrow>
     wc_anomaly_threshold cfg \<noteq> 0 \<and> wc_budget_ms cfg \<noteq> 0 \<and> wc_body_inspect_limit cfg \<noteq> 0 \<and>
     categories_ok (wc_categories cfg) \<and> (\<forall>(name, rule)\<in>set (wc_custom_rules cfg). custom_ok lib rule)"
proof
  assume "is_Ok (waf_validate lib cfg)"
  then obtain v where v: "waf_validate lib cfg = Ok v" by (auto simp: is_Ok_def)
  note ok = waf_validate_Ok [OF v]
  have "categories_ok (wc_categories cfg)"
    using validate_categories_Ok [OF ok(12)] by blast
  with v ok(11) show "wc_anomaly_threshold cfg \<noteq> 0 \<and> wc_budget_ms cfg \<noteq> 0 \<and>
     wc_body_inspect_limit cfg \<noteq> 0 \<and> categories_ok (wc_categories cfg) \<and>
     (\<forall>(name, rule)\<in>set (wc_custom_rules cfg). custom_ok lib rule)"
    by (auto simp: waf_validate_def split: if_splits)
next
  assume "wc_anomaly_threshold cfg \<noteq> 0 \<and> wc_budget_ms cfg \<noteq> 0 \<and> wc_body_inspect_limit cfg \<noteq> 0 \<and>
     categories_ok (wc_categories cfg) \<and> (\<forall>(name, rule)\<in>set (wc_custom_rules cfg). custom_ok lib rule)"
  moreover from this obtain rq rs where "validate_categories (wc_categories cfg) [] [] = Ok (rq, rs)"
    using validate_categories_total [of "wc_categories cfg" "[]" "[]"] by auto
  moreover from calculation obtain cs where "validate_customs lib (wc_custom_rules cfg) [] = Ok cs"
    using validate_customs_Ok [of lib "wc_custom_rules cfg" "[]"] by blast
  ultimately show "is_Ok (waf_validate lib cfg)"
    by (simp add: waf_validate_def)
qed

lemma waf_validate_modes:
  assumes "waf_validate lib cfg = Ok v"
  shows "request_mode v c =
      (if is_response_side c then RqOff
       else (case map_of (rev (wc_categories cfg)) (category_key c) of
               Some raw \<Rightarrow> as_request_mode raw | None \<Rightarrow> RqDetect))"
    and "response_mode v c =
      (if \<not> is_response_side c then RsOff
       else (case map_of (rev (wc_categories cfg)) (category_key c) of
               Some raw \<Rightarrow> as_response_mode raw | None \<Rightarrow> RsDetect))"
  using validate_categories_Ok [OF waf_validate_Ok(12) [OF assms]]
  by (auto simp: request_mode_def response_mode_def split: option.splits)

end
