(* ===== verification/Waf_Match.thy ===== *)
theory Waf_Match
  imports Waf_Config Utf8 Ip_Addr
begin

text \<open>
  The matching half of \<open>crates/pingap-waf/src/engine.rs\<close> and \<open>detectors/mod.rs\<close>: what a rule may
  look at, in which forms, and what a match reports. \<open>urlencoding::decode\<close> is a parameter that
  distinguishes a borrowed from an owned result, as the source does; regexes come from
  \<open>regex_lib\<close>. A rule trait object is the record \<open>rule\<close>.
\<close>

section \<open>Inputs\<close>

record request_input =
  ri_method :: string
  ri_uri :: string
  ri_headers :: "(string \<times> string) list"
  ri_query :: "(string \<times> string) list"
  ri_body :: "string option"
  ri_client_ip :: "IpAddr option"
  ri_body_truncated :: bool

record response_input =
  rp_status :: u16
  rp_headers :: "(string \<times> string) list"
  rp_body_chunk :: "string option"
  rp_request_score :: u32
  rp_body_truncated :: bool

definition text_prefix :: "string \<Rightarrow> string" where
  "text_prefix bytes =
     (case from_utf8 bytes of
        Ok s \<Rightarrow> s
      | Err n \<Rightarrow> (case from_utf8 (take n bytes) of Ok s \<Rightarrow> s | Err _ \<Rightarrow> []))"

definition clamp :: "string option \<Rightarrow> usize \<Rightarrow> string option \<times> bool" where
  "clamp body limit =
     (case body of
        None \<Rightarrow> (None, False)
      | Some b \<Rightarrow> if limit < length b then (Some (take limit b), True) else (Some b, False))"

section \<open>The forms of a field\<close>

datatype cow = Borrowed string | Owned string

fun cow_into_owned :: "cow \<Rightarrow> string" where
  "cow_into_owned (Borrowed s) = s"
| "cow_into_owned (Owned s) = s"

definition replace_plus :: "string \<Rightarrow> string" where
  "replace_plus value = map (\<lambda>c. if c = CHR ''+'' then CHR '' '' else c) value"

definition forms :: "(string \<Rightarrow> cow option) \<Rightarrow> string \<Rightarrow> string list" where
  "forms decode value =
     [value]
     @ (case decode value of Some (Owned decoded) \<Rightarrow> [decoded] | _ \<Rightarrow> [])
     @ (if CHR ''+'' \<in> set value
        then (let spaced = replace_plus value in
              [case decode spaced of Some c \<Rightarrow> cow_into_owned c | None \<Rightarrow> spaced])
        else [])"

text \<open>\<open>each_form\<close> with its visitor as a state transformer that says whether to stop.\<close>

fun visit_until :: "(string \<Rightarrow> 's \<Rightarrow> bool \<times> 's) \<Rightarrow> string list \<Rightarrow> 's \<Rightarrow> 's" where
  "visit_until visit [] s = s"
| "visit_until visit (form # fs) s =
     (case visit form s of (stop, s') \<Rightarrow> if stop then s' else visit_until visit fs s')"

definition each_form ::
  "(string \<Rightarrow> cow option) \<Rightarrow> string \<Rightarrow> (string \<Rightarrow> 's \<Rightarrow> bool \<times> 's) \<Rightarrow> 's \<Rightarrow> 's" where
  "each_form decode value visit s = visit_until visit (forms decode value) s"

type_synonym find_fn = "string \<Rightarrow> (usize \<times> usize) option"

definition find_both_forms :: "(string \<Rightarrow> cow option) \<Rightarrow> string \<Rightarrow> find_fn \<Rightarrow> (usize \<times> usize) option" where
  "find_both_forms decode value finder =
     each_form decode value
       (\<lambda>form at. let at = (if at = None then finder form else at) in (at \<noteq> None, at)) None"

fun find_pair :: "((string \<times> string) \<Rightarrow> bool) \<Rightarrow> (string \<times> string) list \<Rightarrow> string option" where
  "find_pair hit [] = None"
| "find_pair hit ((k, v) # rest) = (if hit (k, v) then Some k else find_pair hit rest)"

definition find_in_request ::
  "(string \<Rightarrow> cow option) \<Rightarrow> request_input \<Rightarrow> (string \<Rightarrow> bool) \<Rightarrow> find_fn \<Rightarrow> MatchedField option" where
  "find_in_request decode input inspect_header finder =
     (if find_both_forms decode (ri_method input) finder \<noteq> None then Some FMethod
      else if find_both_forms decode (ri_uri input) finder \<noteq> None then Some FUri
      else (case find_pair (\<lambda>(k, v). find_both_forms decode v finder \<noteq> None) (ri_query input) of
        Some key \<Rightarrow> Some (FQuery key)
      | None \<Rightarrow>
          (case find_pair (\<lambda>(name, v). inspect_header name \<and> find_both_forms decode v finder \<noteq> None)
                  (ri_headers input) of
             Some name \<Rightarrow> Some (FHeader name)
           | None \<Rightarrow>
               Option.bind (ri_body input) (\<lambda>body.
               map_option (\<lambda>(a, b). FBody a (b - a)) (find_both_forms decode (text_prefix body) finder)))))"

definition find_in_response ::
  "response_input \<Rightarrow> (string \<Rightarrow> bool) \<Rightarrow> find_fn \<Rightarrow> MatchedField option" where
  "find_in_response input inspect_header finder =
     (case find_pair (\<lambda>(name, v). inspect_header name \<and> finder v \<noteq> None) (rp_headers input) of
        Some name \<Rightarrow> Some (FResponseHeader name)
      | None \<Rightarrow>
          Option.bind (rp_body_chunk input) (\<lambda>body.
          map_option (\<lambda>(a, b). FResponseBody a (b - a)) (finder (text_prefix body))))"

section \<open>Rules\<close>

record 'i rule =
  r_id :: rule_id
  r_category :: Category
  r_severity :: Severity
  r_paranoia :: paranoia
  r_score :: u32
  r_action_override :: "RawMode option"
  r_required_literals :: "string list option"
  r_evaluate :: "'i \<Rightarrow> Hit option"

definition find_at :: "'re regex_lib \<Rightarrow> 're \<Rightarrow> find_fn" where
  "find_at lib pattern text = (case fr_find lib pattern text of Ok m \<Rightarrow> m | Err _ \<Rightarrow> None)"

definition make_hit :: "rule_id \<Rightarrow> Category \<Rightarrow> Severity \<Rightarrow> MatchedField \<Rightarrow> Hit" where
  "make_hit rid category severity field =
     \<lparr>h_rule_id = rid, h_category = category, h_severity = severity,
      h_score = default_score severity, h_matched_field = field\<rparr>"

definition every_header :: "string \<Rightarrow> bool" where
  "every_header name = True"

text \<open>Operator-authored rules, compiled.\<close>

record 're compiled_custom_rule =
  cc_id :: rule_id
  cc_category :: Category
  cc_severity :: Severity
  cc_paranoia :: paranoia
  cc_pattern :: 're
  cc_needles :: "string list option"
  cc_action :: "RawMode option"

definition custom_request_rule ::
  "(string \<Rightarrow> cow option) \<Rightarrow> 're regex_lib \<Rightarrow> 're compiled_custom_rule \<Rightarrow> request_input rule" where
  "custom_request_rule decode lib c =
     \<lparr>r_id = cc_id c, r_category = cc_category c, r_severity = cc_severity c,
      r_paranoia = cc_paranoia c, r_score = default_score (cc_severity c),
      r_action_override = cc_action c, r_required_literals = cc_needles c,
      r_evaluate = (\<lambda>input. map_option (make_hit (cc_id c) (cc_category c) (cc_severity c))
        (find_in_request decode input every_header (find_at lib (cc_pattern c))))\<rparr>"

definition custom_response_rule ::
  "'re regex_lib \<Rightarrow> 're compiled_custom_rule \<Rightarrow> response_input rule" where
  "custom_response_rule lib c =
     \<lparr>r_id = cc_id c, r_category = cc_category c, r_severity = cc_severity c,
      r_paranoia = cc_paranoia c, r_score = default_score (cc_severity c),
      r_action_override = cc_action c, r_required_literals = cc_needles c,
      r_evaluate = (\<lambda>input. map_option (make_hit (cc_id c) (cc_category c) (cc_severity c))
        (find_in_response input every_header (find_at lib (cc_pattern c))))\<rparr>"

section \<open>Native detectors\<close>

datatype Scope = AnyField | OneHeader string

record spec =
  sp_offset :: u32
  sp_pattern :: string
  sp_severity :: Severity
  sp_paranoia :: paranoia
  sp_scope :: Scope

definition NEVER_INSPECTED :: "string list" where
  "NEVER_INSPECTED = []"

definition inspect_header :: "string \<Rightarrow> bool" where
  "inspect_header name = (\<not> list_ex (\<lambda>skip. eq_ignore_ascii_case skip name) NEVER_INSPECTED)"

record 're pattern_rule =
  pr_id :: rule_id
  pr_category :: Category
  pr_severity :: Severity
  pr_paranoia :: paranoia
  pr_scope :: Scope
  pr_pattern :: 're
  pr_needles :: "string list option"

text \<open>\<open>None\<close> is the panic of the source on an offset out of range or a pattern that does not compile.\<close>

definition pattern_rule_compile ::
  "(string \<Rightarrow> string list option) \<Rightarrow> 're regex_lib \<Rightarrow> Category \<Rightarrow> spec \<Rightarrow> 're pattern_rule option" where
  "pattern_rule_compile required_needles lib category s =
     (case rule_id_native (fst (id_range category) + sp_offset s) of
        None \<Rightarrow> None
      | Some rid \<Rightarrow>
          (case fr_new lib (sp_pattern s) of
             Err _ \<Rightarrow> None
           | Ok pattern \<Rightarrow>
               Some \<lparr>pr_id = rid, pr_category = category, pr_severity = sp_severity s,
                     pr_paranoia = sp_paranoia s, pr_scope = sp_scope s, pr_pattern = pattern,
                     pr_needles = required_needles (sp_pattern s)\<rparr>))"

definition pattern_request_field ::
  "(string \<Rightarrow> cow option) \<Rightarrow> 're regex_lib \<Rightarrow> 're pattern_rule \<Rightarrow> request_input \<Rightarrow> MatchedField option" where
  "pattern_request_field decode lib p input =
     (case pr_scope p of
        AnyField \<Rightarrow> find_in_request decode input inspect_header (find_at lib (pr_pattern p))
      | OneHeader want \<Rightarrow>
          (case find (\<lambda>(name, _). eq_ignore_ascii_case name want) (ri_headers input) of
             None \<Rightarrow> None
           | Some (name, v) \<Rightarrow> map_option (\<lambda>_. FHeader name) (find_at lib (pr_pattern p) v)))"

definition pattern_request_rule ::
  "(string \<Rightarrow> cow option) \<Rightarrow> 're regex_lib \<Rightarrow> 're pattern_rule \<Rightarrow> request_input rule" where
  "pattern_request_rule decode lib p =
     \<lparr>r_id = pr_id p, r_category = pr_category p, r_severity = pr_severity p,
      r_paranoia = pr_paranoia p, r_score = default_score (pr_severity p),
      r_action_override = None, r_required_literals = pr_needles p,
      r_evaluate = (\<lambda>input. map_option (make_hit (pr_id p) (pr_category p) (pr_severity p))
        (pattern_request_field decode lib p input))\<rparr>"

definition pattern_response_rule :: "'re regex_lib \<Rightarrow> 're pattern_rule \<Rightarrow> response_input rule" where
  "pattern_response_rule lib p =
     \<lparr>r_id = pr_id p, r_category = pr_category p, r_severity = pr_severity p,
      r_paranoia = pr_paranoia p, r_score = default_score (pr_severity p),
      r_action_override = None, r_required_literals = pr_needles p,
      r_evaluate = (\<lambda>input. map_option (make_hit (pr_id p) (pr_category p) (pr_severity p))
        (find_in_response input inspect_header (find_at lib (pr_pattern p))))\<rparr>"

text \<open>One round over the queues: the head of every queue that still has one.\<close>

definition interleave_round :: "(Category \<times> 'a list) list \<Rightarrow> (Category \<times> 'a) list" where
  "interleave_round queues = List.map_filter (\<lambda>(c, q). case q of x # _ \<Rightarrow> Some (c, x) | [] \<Rightarrow> None) queues"

fun interleave_rounds :: "nat \<Rightarrow> (Category \<times> 'a list) list \<Rightarrow> (Category \<times> 'a) list" where
  "interleave_rounds 0 queues = []"
| "interleave_rounds (Suc n) queues =
     interleave_round queues @ interleave_rounds n (map (apsnd (drop 1)) queues)"

definition interleave :: "(Category \<times> 'a list) list \<Rightarrow> (Category \<times> 'a) list" where
  "interleave sets =
     (let longest = foldr max (map (length \<circ> snd) sets) 0 in interleave_rounds longest sets)"

end
