(* ===== verification/Waf_Prefilter.thy ===== *)
theory Waf_Prefilter
  imports Waf_Match
begin

text \<open>
  \<open>crates/pingap-waf/src/prefilter.rs\<close>: which rules could possibly match, from the literals their
  matches must contain. The \<open>regex_syntax\<close> extractor and the Aho-Corasick automaton are
  parameters; their documented contracts are \<open>extractor_sound\<close> and, in \<open>Waf_Gate\<close>,
  \<open>automaton_ok\<close>.
\<close>

section \<open>Needles of a pattern\<close>

datatype ExtractKind = Prefix | Suffix

record 'hir literal_lib =
  ll_parse :: "string \<Rightarrow> 'hir option"
  ll_literals :: "ExtractKind \<Rightarrow> 'hir \<Rightarrow> string list option"

definition NEEDLE_CAP :: usize where
  "NEEDLE_CAP = 64"

definition TOTAL_NEEDLE_CAP :: usize where
  "TOTAL_NEEDLE_CAP = 4096"

fun collapse_loop :: "string list \<Rightarrow> string list \<Rightarrow> string list option" where
  "collapse_loop [] needles = Some needles"
| "collapse_loop (literal # literals) needles =
     (if literal = [] then None
      else (case from_utf8 literal of
              Err _ \<Rightarrow> None
            | Ok text \<Rightarrow>
                (let needle = to_ascii_lowercase text in
                 collapse_loop literals (if needle \<in> set needles then needles else needles @ [needle]))))"

definition collapse :: "string list \<Rightarrow> string list option" where
  "collapse literals = collapse_loop literals []"

definition needles_of_kind :: "'hir literal_lib \<Rightarrow> 'hir \<Rightarrow> ExtractKind \<Rightarrow> string list option" where
  "needles_of_kind ll hir kind =
     Option.bind (ll_literals ll kind hir) (\<lambda>literals.
     Option.bind (collapse literals) (\<lambda>needles.
     if needles = [] \<or> NEEDLE_CAP < length needles then None else Some needles))"

definition required_needles :: "'hir literal_lib \<Rightarrow> string \<Rightarrow> string list option" where
  "required_needles ll pattern =
     Option.bind (ll_parse ll pattern) (\<lambda>hir.
     case needles_of_kind ll hir Prefix of
       Some needles \<Rightarrow> Some needles
     | None \<Rightarrow> needles_of_kind ll hir Suffix)"

section \<open>Building the gate\<close>

record 'ac ac_lib =
  ac_build :: "string list \<Rightarrow> 'ac option"
  ac_overlapping :: "'ac \<Rightarrow> string \<Rightarrow> nat list"

record 'ac prefilter =
  pf_ac :: "'ac option"
  pf_by_needle :: "u32 list list"
  pf_ungated :: "bool list"

record build_state =
  bs_ungated :: "bool list"
  bs_needle_id :: "(string \<times> nat) list"
  bs_needles :: "string list"
  bs_by_needle :: "u32 list list"

definition add_needle :: "nat \<Rightarrow> build_state \<Rightarrow> string \<Rightarrow> build_state" where
  "add_needle index st needle =
     (case map_of (bs_needle_id st) needle of
        Some k \<Rightarrow> st\<lparr>bs_by_needle := (bs_by_needle st)[k := bs_by_needle st ! k @ [word_of_nat index]]\<rparr>
      | None \<Rightarrow>
          st\<lparr>bs_needle_id := (needle, length (bs_needles st)) # bs_needle_id st,
             bs_needles := bs_needles st @ [needle],
             bs_by_needle := bs_by_needle st @ [[word_of_nat index]]\<rparr>)"

definition build_step :: "build_state \<Rightarrow> nat \<times> string list option \<Rightarrow> build_state" where
  "build_step st = (\<lambda>(index, literals).
     (case literals of
        None \<Rightarrow> st\<lparr>bs_ungated := (bs_ungated st)[index := True]\<rparr>
      | Some required \<Rightarrow>
          if required = [] then st\<lparr>bs_ungated := (bs_ungated st)[index := True]\<rparr>
          else (let missing = length (filter (\<lambda>n. map_of (bs_needle_id st) n = None) required) in
                if TOTAL_NEEDLE_CAP < length (bs_needles st) + missing
                then st\<lparr>bs_ungated := (bs_ungated st)[index := True]\<rparr>
                else foldl (add_needle index) st required)))"

definition prefilter_build :: "'ac ac_lib \<Rightarrow> 'i rule list \<Rightarrow> 'ac prefilter" where
  "prefilter_build al rules =
     (let st = foldl build_step
             \<lparr>bs_ungated = replicate (length rules) False, bs_needle_id = [], bs_needles = [],
              bs_by_needle = []\<rparr>
             (enumerate 0 (map r_required_literals rules));
          ac = (if bs_needles st = [] then None else ac_build al (bs_needles st)) in
      \<lparr>pf_ac = ac, pf_by_needle = bs_by_needle st,
       pf_ungated = (if ac = None then replicate (length (bs_ungated st)) True else bs_ungated st)\<rparr>)"

definition prefilter_always :: "nat \<Rightarrow> 'ac prefilter" where
  "prefilter_always n = \<lparr>pf_ac = None, pf_by_needle = [], pf_ungated = replicate n True\<rparr>"

definition present_mask :: "'ac prefilter \<Rightarrow> bool list" where
  "present_mask pf = pf_ungated pf"

section \<open>The prescan\<close>

definition absent :: "bool list \<Rightarrow> usize" where
  "absent present = length (filter Not present)"

text \<open>The inner loops of \<open>scan\<close>: the rules of every reported needle in order, until none is absent.\<close>

fun scan_rules :: "u32 list \<Rightarrow> bool list \<times> usize \<Rightarrow> bool list \<times> usize" where
  "scan_rules [] st = st"
| "scan_rules (rule # rest) (present, remaining) =
     (if \<not> present ! unat rule
      then (if remaining - 1 = 0 then (present[unat rule := True], 0)
            else scan_rules rest (present[unat rule := True], remaining - 1))
      else scan_rules rest (present, remaining))"

definition scan ::
  "'ac ac_lib \<Rightarrow> 'ac \<Rightarrow> u32 list list \<Rightarrow> string \<Rightarrow> bool list \<times> usize \<Rightarrow> bool list \<times> usize" where
  "scan al ac by_needle form st =
     (if snd st = 0 then st
      else scan_rules (concat (map (\<lambda>p. by_needle ! p) (ac_overlapping al ac form))) st)"

definition mark_field ::
  "(string \<Rightarrow> cow option) \<Rightarrow> 'ac ac_lib \<Rightarrow> 'ac \<Rightarrow> u32 list list \<Rightarrow> string \<Rightarrow> bool list \<times> usize \<Rightarrow> bool list \<times> usize" where
  "mark_field decode al ac by_needle value st =
     each_form decode value (\<lambda>form st. let st = scan al ac by_needle form st in (snd st = 0, st)) st"

fun mark_values :: "('s \<Rightarrow> bool) \<Rightarrow> (string \<Rightarrow> 's \<Rightarrow> 's) \<Rightarrow> string list \<Rightarrow> 's \<Rightarrow> 's" where
  "mark_values stop mark [] st = st"
| "mark_values stop mark (v # vs) st =
     (let st = mark v st in if stop st then st else mark_values stop mark vs st)"

text \<open>The values \<open>mark_request\<close> and \<open>mark_response\<close> visit, in their order.\<close>

definition request_values :: "request_input \<Rightarrow> string list" where
  "request_values input =
     [ri_method input, ri_uri input] @ map snd (ri_query input) @ map snd (ri_headers input)
     @ (case ri_body input of Some body \<Rightarrow> [text_prefix body] | None \<Rightarrow> [])"

definition response_values :: "response_input \<Rightarrow> string list" where
  "response_values input =
     map snd (rp_headers input)
     @ (case rp_body_chunk input of Some body \<Rightarrow> [text_prefix body] | None \<Rightarrow> [])"

definition mark_request ::
  "(string \<Rightarrow> cow option) \<Rightarrow> 'ac ac_lib \<Rightarrow> 'ac prefilter \<Rightarrow> request_input \<Rightarrow> bool list \<Rightarrow> bool list" where
  "mark_request decode al pf input present =
     (case pf_ac pf of
        None \<Rightarrow> present
      | Some ac \<Rightarrow>
          if absent present = 0 then present
          else fst (mark_values (\<lambda>st. snd st = 0) (mark_field decode al ac (pf_by_needle pf))
                 (request_values input) (present, absent present)))"

definition mark_response ::
  "'ac ac_lib \<Rightarrow> 'ac prefilter \<Rightarrow> response_input \<Rightarrow> bool list \<Rightarrow> bool list" where
  "mark_response al pf input present =
     (case pf_ac pf of
        None \<Rightarrow> present
      | Some ac \<Rightarrow>
          if absent present = 0 then present
          else fst (mark_values (\<lambda>st. snd st = 0) (scan al ac (pf_by_needle pf))
                 (response_values input) (present, absent present)))"

section \<open>Needles are contained in every match\<close>

definition occurs_in :: "string \<Rightarrow> string \<Rightarrow> bool" where
  "occurs_in needle text \<longleftrightarrow> str_contains (to_ascii_lowercase text) (to_ascii_lowercase needle)"

lemma lower_lower [simp]: "to_ascii_lowercase (to_ascii_lowercase s) = to_ascii_lowercase s"
  by (induction s) (auto simp: to_ascii_lowercase_def ascii_lower_def byte_of_def)

lemma str_contains_lower:
  "str_contains text needle \<Longrightarrow> str_contains (to_ascii_lowercase text) (to_ascii_lowercase needle)"
  by (simp add: str_contains_def to_ascii_lowercase_def map_mono_sublist)

lemma from_utf8_Ok: "from_utf8 bs = Ok s \<Longrightarrow> s = bs"
  by (auto simp: from_utf8_def split: if_splits)

lemma collapse_loop_set:
  "collapse_loop literals needles = Some ns \<Longrightarrow>
     set ns = set needles \<union> to_ascii_lowercase ` set literals \<and> [] \<notin> set literals"
proof (induction literals arbitrary: needles)
  case (Cons l ls)
  then obtain t where "from_utf8 l = Ok t" "l \<noteq> []"
    by (auto split: if_splits result.splits)
  with Cons show ?case
    by (auto simp: Let_def dest: from_utf8_Ok split: if_splits)
qed auto

lemma collapse_set:
  "collapse literals = Some ns \<Longrightarrow> set ns = to_ascii_lowercase ` set literals \<and> [] \<notin> set literals"
  using collapse_loop_set [of literals "[]" ns] by (simp add: collapse_def)

lemma required_needles_Some:
  assumes "required_needles ll pattern = Some ns"
  obtains hir kind literals where "ll_parse ll pattern = Some hir"
    and "ll_literals ll kind hir = Some literals" and "set ns = to_ascii_lowercase ` set literals"
    and "ns \<noteq> []" and "length ns \<le> NEEDLE_CAP"
proof -
  have "\<exists>literals. ll_literals ll kind hir = Some literals \<and> set ns = to_ascii_lowercase ` set literals \<and>
      ns \<noteq> [] \<and> length ns \<le> NEEDLE_CAP" if "needles_of_kind ll hir kind = Some ns" for hir kind
    using that collapse_set
    by (fastforce simp: needles_of_kind_def bind_eq_Some_conv split: if_splits)
  moreover obtain hir kind where "ll_parse ll pattern = Some hir" "needles_of_kind ll hir kind = Some ns"
    using assms by (auto simp: required_needles_def bind_eq_Some_conv split: option.splits)
  ultimately show thesis using that by blast
qed

text \<open>
  The documented contract of the extractor: every match of a pattern contains (as its prefix or
  suffix) one of the literals extracted from it.
\<close>

definition extractor_sound :: "'hir literal_lib \<Rightarrow> 're regex_lib \<Rightarrow> bool" where
  "extractor_sound ll lib \<longleftrightarrow>
     (\<forall>pattern re hir kind literals text at.
        fr_new lib pattern = Ok re \<longrightarrow> ll_parse ll pattern = Some hir \<longrightarrow>
        ll_literals ll kind hir = Some literals \<longrightarrow> fr_find lib re text = Ok (Some at) \<longrightarrow>
        (\<exists>l\<in>set literals. str_contains text l))"

lemma required_needles_occur:
  assumes "extractor_sound ll lib" and "fr_new lib pattern = Ok re"
    and "required_needles ll pattern = Some ns" and "find_at lib re t \<noteq> None"
  shows "\<exists>nd\<in>set ns. occurs_in nd t"
proof -
  from assms(3) obtain hir kind literals where p: "ll_parse ll pattern = Some hir"
    and l: "ll_literals ll kind hir = Some literals"
    and ns: "set ns = to_ascii_lowercase ` set literals"
    by (rule required_needles_Some)
  from assms(4) obtain at where "fr_find lib re t = Ok (Some at)"
    by (auto simp: find_at_def split: result.splits)
  with assms(1,2) p l obtain x where "x \<in> set literals" "str_contains t x"
    unfolding extractor_sound_def by blast
  with ns str_contains_lower [of t x] show ?thesis
    by (auto simp: occurs_in_def)
qed

section \<open>Marking\<close>

definition mark_all :: "bool list \<Rightarrow> u32 list \<Rightarrow> bool list" where
  "mark_all m rs = foldl (\<lambda>m r. m[unat r := True]) m rs"

lemma length_mark_all [simp]: "length (mark_all m rs) = length m"
  by (induction rs arbitrary: m) (simp_all add: mark_all_def)

lemma mark_all_simps [simp]:
  "mark_all m [] = m" "mark_all m (r # rs) = mark_all (m[unat r := True]) rs"
  by (simp_all add: mark_all_def)

lemma mark_all_append: "mark_all m (xs @ ys) = mark_all (mark_all m xs) ys"
  by (simp add: mark_all_def)

lemma mark_all_nth:
  "i < length m \<Longrightarrow> mark_all m rs ! i \<longleftrightarrow> m ! i \<or> (\<exists>r\<in>set rs. unat r = i)"
proof (induction rs arbitrary: m)
  case (Cons r rs)
  then show ?case by (cases "unat r = i") auto
qed simp

lemma absent_0: "absent m = 0 \<longleftrightarrow> (\<forall>i<length m. m ! i)"
  by (auto simp: absent_def filter_empty_conv all_set_conv_all_nth)

lemma absent_update: "k < length m \<Longrightarrow> \<not> m ! k \<Longrightarrow> absent (m[k := True]) = absent m - 1"
proof (induction m arbitrary: k)
  case (Cons a m)
  show ?case
  proof (cases k)
    case (Suc j)
    with Cons.prems have j: "j < length m" "\<not> m ! j" by simp_all
    then have "0 < absent m" using absent_0 [of m] by auto
    with Cons.IH [OF j] Suc show ?thesis by (auto simp: absent_def)
  qed (use Cons.prems in \<open>simp add: absent_def\<close>)
qed simp

lemma mark_all_full: "absent m = 0 \<Longrightarrow> mark_all m rs = m"
  by (rule nth_equalityI) (auto simp: mark_all_nth absent_0)

lemma scan_rules_mark:
  "\<forall>r\<in>set rs. unat r < length m \<Longrightarrow>
     scan_rules rs (m, absent m) = (mark_all m rs, absent (mark_all m rs))"
proof (induction rs arbitrary: m)
  case (Cons r rs)
  let ?m = "m[unat r := True]"
  show ?case
  proof (cases "m ! unat r")
    case True
    then have "?m = m" using list_update_id [of m "unat r"] by simp
    with True Cons show ?thesis by simp
  next
    case False
    with Cons.prems have a: "absent ?m = absent m - 1" by (simp add: absent_update)
    from Cons have "scan_rules rs (?m, absent ?m) = (mark_all ?m rs, absent (mark_all ?m rs))"
      by simp
    with a False mark_all_full [of ?m rs] show ?thesis by (auto simp: Let_def)
  qed
qed simp

text \<open>A state transformer that marks \<open>G v\<close> for a value \<open>v\<close>, keeping the count of the absent.\<close>

definition marks :: "nat \<Rightarrow> (string \<Rightarrow> bool list \<times> usize \<Rightarrow> bool list \<times> usize) \<Rightarrow> (string \<Rightarrow> u32 list) \<Rightarrow> bool" where
  "marks n F G \<longleftrightarrow>
     (\<forall>v m. length m = n \<longrightarrow> F v (m, absent m) = (mark_all m (G v), absent (mark_all m (G v))))"

lemma marksD: "marks n F G \<Longrightarrow> length m = n \<Longrightarrow>
    F v (m, absent m) = (mark_all m (G v), absent (mark_all m (G v)))"
  by (simp add: marks_def)

lemma mark_values_mark:
  assumes "marks n F G" and "length m = n"
  shows "mark_values (\<lambda>st. snd st = 0) F vs (m, absent m) =
    (mark_all m (concat (map G vs)), absent (mark_all m (concat (map G vs))))"
  using assms(2)
proof (induction vs arbitrary: m)
  case (Cons v vs)
  from marksD [OF assms(1) Cons.prems, of v] Cons.IH [of "mark_all m (G v)"] Cons.prems
    mark_all_full [of "mark_all m (G v)" "concat (map G vs)"]
  show ?case by (auto simp: mark_all_append Let_def)
qed simp

lemma visit_until_mark_values:
  "visit_until (\<lambda>form st. let st = F form st in (stop st, st)) fs st = mark_values stop F fs st"
  by (induction fs arbitrary: st) (simp_all add: Let_def)

definition needle_rules :: "'ac ac_lib \<Rightarrow> 'ac \<Rightarrow> u32 list list \<Rightarrow> string \<Rightarrow> u32 list" where
  "needle_rules al ac by_needle form = concat (map (\<lambda>p. by_needle ! p) (ac_overlapping al ac form))"

lemma marks_scan:
  assumes "\<forall>form. \<forall>r\<in>set (needle_rules al ac bn form). unat r < n"
  shows "marks n (scan al ac bn) (needle_rules al ac bn)"
  unfolding marks_def
proof (intro allI impI)
  fix v :: string and m :: "bool list"
  assume "length m = n"
  with assms scan_rules_mark [of "needle_rules al ac bn v" m]
    mark_all_full [of m "needle_rules al ac bn v"]
  show "scan al ac bn v (m, absent m) =
      (mark_all m (needle_rules al ac bn v), absent (mark_all m (needle_rules al ac bn v)))"
    by (simp add: scan_def needle_rules_def)
qed

lemma marks_mark_field:
  assumes "marks n (scan al ac bn) G"
  shows "marks n (mark_field decode al ac bn) (\<lambda>v. concat (map G (forms decode v)))"
  unfolding marks_def mark_field_def each_form_def visit_until_mark_values
  using mark_values_mark [OF assms] by blast

end
