(* ===== verification/Waf_Gate.thy ===== *)
theory Waf_Gate
  imports Waf_Prefilter
begin

text \<open>
  The literal gate never hides a rule that would match. The build keeps, for every gated rule, all
  its needles in the automaton (\<open>build_inv\<close>); the prescan marks exactly the ungated rules and those
  with an occurring needle; a rule compiled from a pattern only matches a text that contains one of
  its needles. The locale \<open>rule_gate\<close> is what the evaluation loop relies on.
\<close>

section \<open>What a match looks at\<close>

lemma find_both_forms_None:
  "find_both_forms decode v finder = None \<longleftrightarrow> (\<forall>form\<in>set (forms decode v). finder form = None)"
proof -
  let ?visit = "\<lambda>form at. let at = (if at = None then finder form else at) in (at \<noteq> None, at)"
  have "visit_until ?visit fs None = None \<longleftrightarrow> (\<forall>form\<in>set fs. finder form = None)" for fs
  proof (induction fs)
    case (Cons form fs)
    then show ?case by (cases "finder form") simp_all
  qed simp
  then show ?thesis by (simp add: find_both_forms_def each_form_def)
qed

lemma find_pair_Some:
  "find_pair hit kvs = Some k \<Longrightarrow> \<exists>v. (k, v) \<in> set kvs \<and> hit (k, v)"
  by (induction hit kvs rule: find_pair.induct) (auto split: if_splits)

lemma find_pair_None:
  "(\<And>k v. (k, v) \<in> set kvs \<Longrightarrow> \<not> hit (k, v)) \<Longrightarrow> find_pair hit kvs = None"
  by (induction hit kvs rule: find_pair.induct) auto

lemma request_values_pairs:
  "(k, v) \<in> set (ri_query input) \<Longrightarrow> v \<in> set (request_values input)"
  "(k, v) \<in> set (ri_headers input) \<Longrightarrow> v \<in> set (request_values input)"
  by (force simp: request_values_def)+

lemma response_values_pairs:
  "(k, v) \<in> set (rp_headers input) \<Longrightarrow> v \<in> set (response_values input)"
  by (force simp: response_values_def)

definition request_forms :: "(string \<Rightarrow> cow option) \<Rightarrow> request_input \<Rightarrow> string list" where
  "request_forms decode input = concat (map (forms decode) (request_values input))"

lemma find_in_request_text:
  assumes "find_in_request decode input hdr finder = Some field"
  shows "\<exists>t\<in>set (request_forms decode input). finder t \<noteq> None"
proof (rule ccontr)
  assume "\<not> ?thesis"
  then have none: "find_both_forms decode v finder = None" if "v \<in> set (request_values input)" for v
    using that unfolding find_both_forms_None request_forms_def by (auto simp del: not_None_eq)
  have q: "find_pair (\<lambda>(k, v). find_both_forms decode v finder \<noteq> None) (ri_query input) = None"
    by (rule find_pair_None) (auto simp: none dest: request_values_pairs)
  have h: "find_pair (\<lambda>(n, v). hdr n \<and> find_both_forms decode v finder \<noteq> None) (ri_headers input) = None"
    by (rule find_pair_None) (auto simp: none dest: request_values_pairs)
  have "find_both_forms decode (text_prefix body) finder = None" if "ri_body input = Some body" for body
    using that by (intro none) (simp add: request_values_def)
  moreover have "find_both_forms decode (ri_method input) finder = None"
      "find_both_forms decode (ri_uri input) finder = None"
    by (simp_all add: none request_values_def)
  ultimately show False
    using assms q h by (simp add: find_in_request_def bind_eq_Some_conv) (auto split: option.splits)
qed

lemma find_in_response_text:
  assumes "find_in_response input hdr finder = Some field"
  shows "\<exists>t\<in>set (response_values input). finder t \<noteq> None"
proof (rule ccontr)
  assume "\<not> ?thesis"
  then have none: "finder v = None" if "v \<in> set (response_values input)" for v
    using that by blast
  have h: "find_pair (\<lambda>(n, v). hdr n \<and> finder v \<noteq> None) (rp_headers input) = None"
    by (rule find_pair_None) (auto simp: none dest: response_values_pairs)
  have "finder (text_prefix body) = None" if "rp_body_chunk input = Some body" for body
    using that by (intro none) (simp add: response_values_def)
  with assms h show False
    by (auto simp: find_in_response_def bind_eq_Some_conv)
qed

lemma value_is_a_form [simp]: "v \<in> set (forms decode v)"
  by (simp add: forms_def)

lemma find_SomeD: "List.find P xs = Some x \<Longrightarrow> x \<in> set xs \<and> P x"
  by (auto simp: find_Some_iff)

lemma pattern_request_field_text:
  assumes "pattern_request_field decode lib p input = Some field"
  shows "\<exists>t\<in>set (request_forms decode input). find_at lib (pr_pattern p) t \<noteq> None"
proof (cases "pr_scope p")
  case AnyField
  with assms show ?thesis by (simp add: pattern_request_field_def find_in_request_text del: not_None_eq)
next
  case (OneHeader want)
  with assms obtain name v where "(name, v) \<in> set (ri_headers input)" "find_at lib (pr_pattern p) v \<noteq> None"
    by (auto simp: pattern_request_field_def split: option.splits dest!: find_SomeD)
  then have "v \<in> set (request_values input)" "find_at lib (pr_pattern p) v \<noteq> None"
    by (auto dest: request_values_pairs)
  moreover from this have "v \<in> set (request_forms decode input)"
    by (auto simp: request_forms_def intro!: bexI [of _ v])
  ultimately show ?thesis by blast
qed

section \<open>A rule's declared literals\<close>

definition literals_sound :: "('i \<Rightarrow> string list) \<Rightarrow> 'i rule \<Rightarrow> bool" where
  "literals_sound texts rule \<longleftrightarrow>
     (\<forall>input required. r_required_literals rule = Some required \<longrightarrow> r_evaluate rule input \<noteq> None \<longrightarrow>
        (\<exists>nd\<in>set required. \<exists>t\<in>set (texts input). occurs_in nd t))"

lemma literals_sound_of_pattern:
  assumes "extractor_sound ll lib" and "fr_new lib pattern = Ok re"
    and "r_required_literals rule = required_needles ll pattern"
    and "\<And>input. r_evaluate rule input \<noteq> None \<Longrightarrow> \<exists>t\<in>set (texts input). find_at lib re t \<noteq> None"
  shows "literals_sound texts rule"
  unfolding literals_sound_def
proof (intro allI impI)
  fix input required
  assume "r_required_literals rule = Some required" "r_evaluate rule input \<noteq> None"
  moreover from this assms(4) obtain t where "t \<in> set (texts input)" "find_at lib re t \<noteq> None"
    by blast
  ultimately show "\<exists>nd\<in>set required. \<exists>t\<in>set (texts input). occurs_in nd t"
    using required_needles_occur [OF assms(1,2)] assms(3) by metis
qed

lemma evaluate_text:
  "r_evaluate (custom_request_rule decode lib c) q \<noteq> None \<Longrightarrow>
     \<exists>t\<in>set (request_forms decode q). find_at lib (cc_pattern c) t \<noteq> None"
  "r_evaluate (custom_response_rule lib c) p \<noteq> None \<Longrightarrow>
     \<exists>t\<in>set (response_values p). find_at lib (cc_pattern c) t \<noteq> None"
  "r_evaluate (pattern_request_rule decode lib r) q \<noteq> None \<Longrightarrow>
     \<exists>t\<in>set (request_forms decode q). find_at lib (pr_pattern r) t \<noteq> None"
  "r_evaluate (pattern_response_rule lib r) p \<noteq> None \<Longrightarrow>
     \<exists>t\<in>set (response_values p). find_at lib (pr_pattern r) t \<noteq> None"
  using find_in_request_text [of decode q every_header "find_at lib (cc_pattern c)"]
    find_in_response_text [of p every_header "find_at lib (cc_pattern c)"]
    pattern_request_field_text [of decode lib r q]
    find_in_response_text [of p inspect_header "find_at lib (pr_pattern r)"]
  by (auto simp: custom_request_rule_def custom_response_rule_def pattern_request_rule_def
      pattern_response_rule_def)

lemma required_literals_simps [simp]:
  "r_required_literals (custom_request_rule decode lib c) = cc_needles c"
  "r_required_literals (custom_response_rule lib c) = cc_needles c"
  "r_required_literals (pattern_request_rule decode lib r) = pr_needles r"
  "r_required_literals (pattern_response_rule lib r) = pr_needles r"
  by (simp_all add: custom_request_rule_def custom_response_rule_def pattern_request_rule_def
      pattern_response_rule_def)

lemma custom_rule_literals_sound:
  assumes "extractor_sound ll lib" "fr_new lib pattern = Ok (cc_pattern c)"
    and "cc_needles c = required_needles ll pattern"
  shows "literals_sound (request_forms decode) (custom_request_rule decode lib c)"
    and "literals_sound response_values (custom_response_rule lib c)"
  by (rule literals_sound_of_pattern [OF assms(1,2) _ evaluate_text(1)], simp_all add: assms)
    (rule literals_sound_of_pattern [OF assms(1,2) _ evaluate_text(2)], simp_all add: assms)

lemma pattern_rule_literals_sound:
  assumes "extractor_sound ll lib"
    and "pattern_rule_compile (required_needles ll) lib category s = Some r"
  shows "literals_sound (request_forms decode) (pattern_request_rule decode lib r)"
    and "literals_sound response_values (pattern_response_rule lib r)"
proof -
  from assms(2) have r: "fr_new lib (sp_pattern s) = Ok (pr_pattern r)"
      "pr_needles r = required_needles ll (sp_pattern s)"
    by (auto simp: pattern_rule_compile_def split: option.splits result.splits)
  show "literals_sound (request_forms decode) (pattern_request_rule decode lib r)"
    by (rule literals_sound_of_pattern [OF assms(1) r(1) _ evaluate_text(3)]) (simp_all add: r)
  show "literals_sound response_values (pattern_response_rule lib r)"
    by (rule literals_sound_of_pattern [OF assms(1) r(1) _ evaluate_text(4)]) (simp_all add: r)
qed

section \<open>The built gate\<close>

definition automaton_ok :: "'ac ac_lib \<Rightarrow> bool" where
  "automaton_ok al \<longleftrightarrow>
     (\<forall>needles ac text. ac_build al needles = Some ac \<longrightarrow>
        set (ac_overlapping al ac text) = {j. j < length needles \<and> occurs_in (needles ! j) text})"

definition indexed :: "build_state \<Rightarrow> nat \<Rightarrow> string \<Rightarrow> bool" where
  "indexed st index needle \<longleftrightarrow>
     (\<exists>j<length (bs_needles st). bs_needles st ! j = needle \<and> word_of_nat index \<in> set (bs_by_needle st ! j))"

definition build_inv :: "nat \<Rightarrow> build_state \<Rightarrow> bool" where
  "build_inv n st \<longleftrightarrow>
     length (bs_ungated st) = n \<and> length (bs_by_needle st) = length (bs_needles st) \<and>
     (\<forall>nd j. map_of (bs_needle_id st) nd = Some j \<longrightarrow> j < length (bs_needles st) \<and> bs_needles st ! j = nd) \<and>
     (\<forall>rs\<in>set (bs_by_needle st). \<forall>r\<in>set rs. unat r < n)"

definition gated :: "string list option list \<Rightarrow> build_state \<Rightarrow> nat \<Rightarrow> bool" where
  "gated lits st i \<longleftrightarrow>
     bs_ungated st ! i \<or> (\<exists>required. lits ! i = Some required \<and> (\<forall>nd\<in>set required. indexed st i nd))"

lemma unat_index: "i < n \<Longrightarrow> n \<le> 2 ^ 32 \<Longrightarrow> unat (word_of_nat i :: u32) = i"
  by (simp add: unat_of_nat take_bit_nat_eq_self)

lemma add_needle_inv:
  assumes "build_inv n st" "index < n" "n \<le> 2 ^ 32"
  shows "build_inv n (add_needle index st nd)"
proof (cases "map_of (bs_needle_id st) nd")
  case None
  with assms(1) unat_index [OF assms(2,3)] assms(2) show ?thesis
    by (auto simp: build_inv_def add_needle_def nth_append less_Suc_eq)
next
  case (Some k)
  let ?bn = "bs_by_needle st"
  from Some assms(1) have k: "k < length ?bn" by (auto simp: build_inv_def)
  have "\<forall>rs\<in>set (?bn[k := ?bn ! k @ [word_of_nat index]]). \<forall>r\<in>set rs. unat r < n"
  proof (intro ballI)
    fix rs r assume "rs \<in> set (?bn[k := ?bn ! k @ [word_of_nat index]])" "r \<in> set rs"
    then have "rs \<in> set ?bn \<or> rs = ?bn ! k @ [word_of_nat index]"
      by (auto dest!: subsetD [OF set_update_subset_insert])
    with \<open>r \<in> set rs\<close> nth_mem [OF k] assms(1,2) unat_index [OF assms(2,3)] show "unat r < n"
      unfolding build_inv_def by auto
  qed
  with Some assms(1) show ?thesis by (simp add: build_inv_def add_needle_def)
qed

lemma add_needle_ungated [simp]: "bs_ungated (add_needle index st nd) = bs_ungated st"
  by (simp add: add_needle_def split: option.splits)

lemma add_needle_indexed:
  assumes "build_inv n st"
  shows "indexed (add_needle index st nd) index nd"
proof (cases "map_of (bs_needle_id st) nd")
  case None
  with assms show ?thesis
    by (auto simp: build_inv_def add_needle_def indexed_def nth_append intro!: exI [of _ "length (bs_needles st)"])
next
  case (Some k)
  with assms show ?thesis
    by (auto simp: build_inv_def add_needle_def indexed_def intro!: exI [of _ k])
qed

lemma add_needle_keeps_indexed:
  assumes "build_inv n st" "indexed st i nd'"
  shows "indexed (add_needle index st nd) i nd'"
proof -
  from assms(2) obtain j where j: "j < length (bs_needles st)" "bs_needles st ! j = nd'"
      "word_of_nat i \<in> set (bs_by_needle st ! j)"
    by (auto simp: indexed_def)
  with assms(1) show ?thesis
    by (cases "map_of (bs_needle_id st) nd")
      (auto simp: build_inv_def add_needle_def indexed_def nth_append nth_list_update intro!: exI [of _ j])
qed

lemma add_needles_inv:
  assumes "build_inv n st" "index < n" "n \<le> 2 ^ 32"
  shows "build_inv n (foldl (add_needle index) st required)"
    and "bs_ungated (foldl (add_needle index) st required) = bs_ungated st"
    and "indexed st i nd \<Longrightarrow> indexed (foldl (add_needle index) st required) i nd"
    and "nd \<in> set required \<Longrightarrow> indexed (foldl (add_needle index) st required) index nd"
proof -
  show inv: "build_inv n (foldl (add_needle index) st required)" for required
    by (induction required rule: rev_induct) (simp_all add: assms(1) add_needle_inv [OF _ assms(2,3)])
  show "bs_ungated (foldl (add_needle index) st required) = bs_ungated st"
    by (induction required rule: rev_induct) simp_all
  show "indexed st i nd \<Longrightarrow> indexed (foldl (add_needle index) st required) i nd"
    by (induction required rule: rev_induct) (simp_all add: add_needle_keeps_indexed [OF inv])
  show "nd \<in> set required \<Longrightarrow> indexed (foldl (add_needle index) st required) index nd"
    by (induction required rule: rev_induct)
      (auto simp: add_needle_keeps_indexed [OF inv] add_needle_indexed [OF inv])
qed

lemma build_step_inv:
  assumes "build_inv n st" "index < n" "n \<le> 2 ^ 32"
  shows "build_inv n (build_step st (index, lits ! index))"
    and "gated lits (build_step st (index, lits ! index)) index"
    and "gated lits st i \<Longrightarrow> gated lits (build_step st (index, lits ! index)) i"
proof -
  note add = add_needles_inv [OF assms]
  have un: "build_inv n (st\<lparr>bs_ungated := (bs_ungated st)[index := True]\<rparr>)"
      "bs_ungated (st\<lparr>bs_ungated := (bs_ungated st)[index := True]\<rparr>) ! index"
    using assms(1,2) by (simp_all add: build_inv_def)
  show "build_inv n (build_step st (index, lits ! index))"
    using un(1) add(1) by (simp add: build_step_def Let_def split: option.split)
  show "gated lits (build_step st (index, lits ! index)) index"
    using un(2) add(4) by (auto simp: build_step_def gated_def Let_def split: option.split)
  have "gated lits (st\<lparr>bs_ungated := (bs_ungated st)[index := True]\<rparr>) i" if "gated lits st i"
    using that un(2) by (cases "i = index") (simp_all add: gated_def indexed_def)
  moreover have "gated lits (foldl (add_needle index) st required) i" if "gated lits st i" for required
    using that add(2,3) unfolding gated_def by simp blast
  ultimately show "gated lits (build_step st (index, lits ! index)) i" if "gated lits st i"
    using that by (simp add: build_step_def Let_def split: option.split)
qed

definition build_start :: "nat \<Rightarrow> build_state" where
  "build_start n = \<lparr>bs_ungated = replicate n False, bs_needle_id = [], bs_needles = [], bs_by_needle = []\<rparr>"

lemma build_fold_inv:
  assumes "length lits = n" "n \<le> 2 ^ 32" "k \<le> n"
  shows "build_inv n (foldl build_step (build_start n) (enumerate 0 (take k lits))) \<and>
    (\<forall>i<k. gated lits (foldl build_step (build_start n) (enumerate 0 (take k lits))) i)"
  using assms(3)
proof (induction k)
  case (Suc k)
  then have "enumerate 0 (take (Suc k) lits) = enumerate 0 (take k lits) @ [(k, lits ! k)]"
    using assms(1) by (simp add: take_Suc_conv_app_nth enumerate_append_eq)
  with Suc build_step_inv [of n _ k lits] assms(2) show ?case
    by (auto simp: less_Suc_eq)
qed (simp add: build_inv_def build_start_def)

lemma prefilter_build_spec:
  fixes rules :: "'i rule list" and al :: "'ac ac_lib"
  defines "pf \<equiv> prefilter_build al rules"
  assumes "length rules \<le> 2 ^ 32" and "pf_ac pf = Some ac"
  obtains st where "build_inv (length rules) st" "ac_build al (bs_needles st) = Some ac"
    "pf_by_needle pf = bs_by_needle st" "pf_ungated pf = bs_ungated st"
    "\<And>i. i < length rules \<Longrightarrow> gated (map r_required_literals rules) st i"
proof -
  let ?st = "foldl build_step (build_start (length rules)) (enumerate 0 (map r_required_literals rules))"
  have "build_inv (length rules) ?st \<and> (\<forall>i<length rules. gated (map r_required_literals rules) ?st i)"
    using build_fold_inv [of "map r_required_literals rules" "length rules" "length rules"] assms(2) by simp
  with assms(3) show thesis
    by (intro that [of ?st])
      (auto simp: pf_def prefilter_build_def build_start_def Let_def split: if_splits)
qed

lemma prefilter_build_none: "pf_ac (prefilter_build al rules) = None \<Longrightarrow>
    pf_ungated (prefilter_build al rules) = replicate (length (pf_ungated (prefilter_build al rules))) True"
  by (simp add: prefilter_build_def Let_def split: if_splits)

lemma length_build_step [simp]: "length (bs_ungated (build_step st x)) = length (bs_ungated st)"
proof -
  have "bs_ungated (foldl (add_needle k) st required) = bs_ungated st" for k required
    by (induction required rule: rev_induct) simp_all
  then show ?thesis by (cases x) (simp add: build_step_def Let_def split: option.split)
qed

lemma length_pf_ungated [simp]: "length (pf_ungated (prefilter_build al rules)) = length rules"
proof -
  have "length (bs_ungated (foldl build_step st xs)) = length (bs_ungated st)" for st xs
    by (induction xs arbitrary: st) simp_all
  then show ?thesis by (simp add: prefilter_build_def Let_def)
qed

text \<open>The rules a prescan reports for a text: those with a needle that occurs in it.\<close>

lemma needle_rules_spec:
  assumes "automaton_ok al" "ac_build al (bs_needles st) = Some ac" "build_inv n st"
  shows "r \<in> set (needle_rules al ac (bs_by_needle st) t) \<longleftrightarrow>
      (\<exists>j<length (bs_needles st). occurs_in (bs_needles st ! j) t \<and> r \<in> set (bs_by_needle st ! j))"
    and "r \<in> set (needle_rules al ac (bs_by_needle st) t) \<Longrightarrow> unat r < n"
proof -
  have "set (ac_overlapping al ac t) = {j. j < length (bs_needles st) \<and> occurs_in (bs_needles st ! j) t}"
    using assms(1,2) by (simp add: automaton_ok_def)
  then show iff: "r \<in> set (needle_rules al ac (bs_by_needle st) t) \<longleftrightarrow>
      (\<exists>j<length (bs_needles st). occurs_in (bs_needles st ! j) t \<and> r \<in> set (bs_by_needle st ! j))"
    by (auto simp: needle_rules_def)
  show "unat r < n" if "r \<in> set (needle_rules al ac (bs_by_needle st) t)"
    using that assms(3) unfolding iff build_inv_def by (metis nth_mem)
qed

section \<open>The gate never hides a match\<close>

lemma marks_sound:
  fixes rules :: "'i rule list" and al :: "'ac ac_lib"
  defines "pf \<equiv> prefilter_build al rules"
  assumes al: "automaton_ok al" and n: "length rules \<le> 2 ^ 32" and ac: "pf_ac pf = Some ac"
    and marks: "set marked = (\<Union>t\<in>set ts. set (needle_rules al ac (pf_by_needle pf) t))"
    and m: "length m = length rules" "pf_ungated pf ! i \<Longrightarrow> m ! i" and i: "i < length rules"
    and lit: "\<And>required. r_required_literals (rules ! i) = Some required \<Longrightarrow>
      \<exists>nd\<in>set required. \<exists>t\<in>set ts. occurs_in nd t"
  shows "mark_all m marked ! i"
proof -
  from n ac obtain st where st: "build_inv (length rules) st" "ac_build al (bs_needles st) = Some ac"
      "pf_by_needle pf = bs_by_needle st" "pf_ungated pf = bs_ungated st"
      "gated (map r_required_literals rules) st i"
    unfolding pf_def by (rule prefilter_build_spec) (use i in blast)
  show ?thesis
  proof (cases "bs_ungated st ! i")
    case False
    with st(5) i obtain required where r: "r_required_literals (rules ! i) = Some required"
        "\<forall>nd\<in>set required. indexed st i nd"
      by (auto simp: gated_def)
    with lit obtain nd t where "indexed st i nd" "t \<in> set ts" "occurs_in nd t" by blast
    then have "word_of_nat i \<in> set marked"
      using marks st(3) needle_rules_spec(1) [OF al st(2,1)] by (auto simp: indexed_def)
    with i m(1) unat_index [OF i n] show ?thesis by (force simp: mark_all_nth)
  qed (use st m i in \<open>simp add: mark_all_nth\<close>)
qed

lemma marks_needle_rules:
  fixes rules :: "'i rule list" and al :: "'ac ac_lib"
  defines "pf \<equiv> prefilter_build al rules"
  assumes "automaton_ok al" "length rules \<le> 2 ^ 32" "pf_ac pf = Some ac"
  shows "marks (length rules) (scan al ac (pf_by_needle pf)) (needle_rules al ac (pf_by_needle pf))"
proof -
  from assms(3,4) obtain st where st: "build_inv (length rules) st"
      "ac_build al (bs_needles st) = Some ac" "pf_by_needle pf = bs_by_needle st"
    unfolding pf_def by (rule prefilter_build_spec)
  show ?thesis unfolding st(3)
    by (rule marks_scan) (use needle_rules_spec(2) [OF assms(2) st(2,1)] in blast)
qed

text \<open>
  What the evaluation loop relies on: the mask a gate starts from, and that marking it with an
  input leaves no rule unmarked that would match that input. \<open>admissible\<close> is the condition on the
  rule list under which the gate promises it.
\<close>

locale rule_gate =
  fixes admissible :: "'i rule list \<Rightarrow> bool"
    and ungated :: "'i rule list \<Rightarrow> bool list"
    and mark :: "'i rule list \<Rightarrow> 'i \<Rightarrow> bool list \<Rightarrow> bool list"
  assumes length_ungated: "length (ungated rules) = length rules"
    and mark_sound: "\<lbrakk>admissible rules; length m = length rules;
        \<And>i. i < length rules \<Longrightarrow> ungated rules ! i \<Longrightarrow> m ! i;
        i < length rules; r_evaluate (rules ! i) input \<noteq> None\<rbrakk> \<Longrightarrow> mark rules input m ! i"

definition gate_admissible :: "'ac ac_lib \<Rightarrow> ('i \<Rightarrow> string list) \<Rightarrow> 'i rule list \<Rightarrow> bool" where
  "gate_admissible al texts rules \<longleftrightarrow>
     automaton_ok al \<and> length rules \<le> 2 ^ 32 \<and> (\<forall>rule\<in>set rules. literals_sound texts rule)"

lemma gate_admissibleD:
  assumes "gate_admissible al texts rules"
  shows "automaton_ok al" "length rules \<le> 2 ^ 32"
    and "i < length rules \<Longrightarrow> r_evaluate (rules ! i) input \<noteq> None \<Longrightarrow>
      r_required_literals (rules ! i) = Some required \<Longrightarrow>
      \<exists>nd\<in>set required. \<exists>t\<in>set (texts input). occurs_in nd t"
  using assms by (auto simp: gate_admissible_def literals_sound_def dest!: bspec [of _ _ "rules ! i"])

lemma mark_request_sound:
  assumes adm: "gate_admissible al (request_forms decode) rules" and m: "length m = length rules"
    "\<And>i. i < length rules \<Longrightarrow> present_mask (prefilter_build al rules) ! i \<Longrightarrow> m ! i"
    and i: "i < length rules" and ev: "r_evaluate (rules ! i) input \<noteq> None"
  shows "mark_request decode al (prefilter_build al rules) input m ! i"
proof (cases "pf_ac (prefilter_build al rules)")
  case None
  with i m(2) prefilter_build_none [OF None] show ?thesis
    by (simp add: mark_request_def present_mask_def)
next
  case (Some ac)
  note al = gate_admissibleD(1,2) [OF adm]
  let ?pf = "prefilter_build al rules"
  let ?G = "\<lambda>v. concat (map (needle_rules al ac (pf_by_needle ?pf)) (forms decode v))"
  have "mark_all m (concat (map ?G (request_values input))) ! i"
    by (rule marks_sound [OF al Some _ m(1) _ i, of _ "request_forms decode input"])
      (use gate_admissibleD(3) [OF adm i ev] m(2) i in \<open>auto simp: request_forms_def present_mask_def\<close>)
  with mark_values_mark [OF marks_mark_field [OF marks_needle_rules [OF al Some]],
      of m decode "request_values input"] Some i m(1)
  show ?thesis
    by (auto simp: mark_request_def absent_0)
qed

lemma mark_response_sound:
  assumes adm: "gate_admissible al response_values rules" and m: "length m = length rules"
    "\<And>i. i < length rules \<Longrightarrow> present_mask (prefilter_build al rules) ! i \<Longrightarrow> m ! i"
    and i: "i < length rules" and ev: "r_evaluate (rules ! i) input \<noteq> None"
  shows "mark_response al (prefilter_build al rules) input m ! i"
proof (cases "pf_ac (prefilter_build al rules)")
  case None
  with i m(2) prefilter_build_none [OF None] show ?thesis
    by (simp add: mark_response_def present_mask_def)
next
  case (Some ac)
  note al = gate_admissibleD(1,2) [OF adm]
  let ?G = "needle_rules al ac (pf_by_needle (prefilter_build al rules))"
  have "mark_all m (concat (map ?G (response_values input))) ! i"
    by (rule marks_sound [OF al Some _ m(1) _ i, of _ "response_values input"])
      (use gate_admissibleD(3) [OF adm i ev] m(2) i in \<open>auto simp: present_mask_def\<close>)
  with mark_values_mark [OF marks_needle_rules [OF al Some], of m "response_values input"] Some i m(1)
  show ?thesis
    by (auto simp: mark_response_def absent_0)
qed

interpretation request_gate: rule_gate
  "gate_admissible al (request_forms decode)"
  "\<lambda>rules. present_mask (prefilter_build al rules)"
  "\<lambda>rules. mark_request decode al (prefilter_build al rules)"
  for al :: "'ac ac_lib" and decode
  by unfold_locales (simp_all only: present_mask_def length_pf_ungated, rule mark_request_sound,
      simp_all add: present_mask_def)

interpretation response_gate: rule_gate
  "gate_admissible al response_values"
  "\<lambda>rules. present_mask (prefilter_build al rules)"
  "\<lambda>rules. mark_response al (prefilter_build al rules)"
  for al :: "'ac ac_lib"
  by unfold_locales (simp_all only: present_mask_def length_pf_ungated, rule mark_response_sound,
      simp_all add: present_mask_def)

end
