(* ===== verification/Waf_Engine.thy ===== *)
theory Waf_Engine
  imports Waf_Gate
begin

text \<open>
  \<open>crates/pingap-waf/src/budget.rs\<close> and the evaluation half of \<open>engine.rs\<close>: the time budget, the
  scorer, the gates, building an engine and evaluating a request or a response.

  Durations are whole milliseconds; a limit is one, so comparing readings rounded down compares
  the exact ones. The wall clock is a parameter: what it reads at a budget check is a function of
  the indices of the rules evaluated so far, which is all that has happened since it started.
\<close>

section \<open>Budget\<close>

record budget =
  bu_limit :: nat
  bu_policy :: ExhaustedPolicy
  bu_checked :: u32

record exhausted =
  ex_elapsed :: nat
  ex_limit :: nat
  ex_rules_checked :: u32
  ex_policy :: ExhaustedPolicy

record clock =
  ck_check :: "nat list \<Rightarrow> nat"
  ck_end :: "nat list \<Rightarrow> nat"

definition budget_new :: "nat \<Rightarrow> ExhaustedPolicy \<Rightarrow> budget" where
  "budget_new limit policy = \<lparr>bu_limit = limit, bu_policy = policy, bu_checked = 0\<rparr>"

definition budget_check :: "nat \<Rightarrow> budget \<Rightarrow> (unit, exhausted) result \<times> budget" where
  "budget_check elapsed b =
     (if bu_limit b \<le> elapsed
      then (Err \<lparr>ex_elapsed = elapsed, ex_limit = bu_limit b, ex_rules_checked = bu_checked b,
                 ex_policy = bu_policy b\<rparr>, b)
      else (Ok (), b\<lparr>bu_checked := sat_add (bu_checked b) 1\<rparr>))"

section \<open>Verdicts and scoring\<close>

datatype RequestVerdict =
    RqVAllow | RqVDetected "Hit list" u32 | RqVBlock "Hit list" u32 | RqVChallenge "Hit list" u32

datatype ResponseVerdict = RsVAllow | RsVDetected "Hit list" u32 | RsVRedact "Hit list" u32

fun rq_hits :: "RequestVerdict \<Rightarrow> Hit list" where
  "rq_hits RqVAllow = []"
| "rq_hits (RqVDetected hits _) = hits"
| "rq_hits (RqVBlock hits _) = hits"
| "rq_hits (RqVChallenge hits _) = hits"

fun rq_score :: "RequestVerdict \<Rightarrow> u32" where
  "rq_score RqVAllow = 0"
| "rq_score (RqVDetected _ score) = score"
| "rq_score (RqVBlock _ score) = score"
| "rq_score (RqVChallenge _ score) = score"

fun rq_is_enforcing :: "RequestVerdict \<Rightarrow> bool" where
  "rq_is_enforcing (RqVBlock _ _) = True"
| "rq_is_enforcing (RqVChallenge _ _) = True"
| "rq_is_enforcing _ = False"

fun rq_is_challenge :: "RequestVerdict \<Rightarrow> bool" where
  "rq_is_challenge (RqVChallenge _ _) = True"
| "rq_is_challenge _ = False"

fun rs_hits :: "ResponseVerdict \<Rightarrow> Hit list" where
  "rs_hits RsVAllow = []"
| "rs_hits (RsVDetected hits _) = hits"
| "rs_hits (RsVRedact hits _) = hits"

fun rs_score :: "ResponseVerdict \<Rightarrow> u32" where
  "rs_score RsVAllow = 0"
| "rs_score (RsVDetected _ score) = score"
| "rs_score (RsVRedact _ score) = score"

fun rs_is_enforcing :: "ResponseVerdict \<Rightarrow> bool" where
  "rs_is_enforcing (RsVRedact _ _) = True"
| "rs_is_enforcing _ = False"

record 'v evaluation =
  e_verdict :: 'v
  e_rules_checked :: u32
  e_truncated :: bool
  e_exhausted :: "exhausted option"
  e_elapsed :: nat
  e_enforcing_score :: u32

datatype Gate = GSkip | GDetect | GEnforce | GChallenge

record scorer =
  s_hits :: "Hit list"
  s_total :: u32
  s_enforcing :: u32
  s_challenge_only :: bool
  s_block_seen :: bool
  s_threshold :: u32

definition scorer_new :: "u32 \<Rightarrow> scorer" where
  "scorer_new threshold =
     \<lparr>s_hits = [], s_total = 0, s_enforcing = 0, s_challenge_only = True, s_block_seen = False,
      s_threshold = threshold\<rparr>"

definition scorer_record :: "scorer \<Rightarrow> Hit \<Rightarrow> Gate \<Rightarrow> scorer" where
  "scorer_record s hit gate =
     (let s = s\<lparr>s_total := sat_add (s_total s) (h_score hit)\<rparr>;
          s = (if gate = GEnforce \<or> gate = GChallenge
               then (let s = s\<lparr>s_enforcing := sat_add (s_enforcing s) (h_score hit)\<rparr> in
                     if gate = GEnforce then s\<lparr>s_block_seen := True, s_challenge_only := False\<rparr> else s)
               else s) in
      s\<lparr>s_hits := s_hits s @ [hit]\<rparr>)"

definition reached :: "scorer \<Rightarrow> bool" where
  "reached s \<longleftrightarrow> s_threshold s \<le> s_enforcing s"

section \<open>Gates\<close>

fun gate_of_request_mode :: "RequestMode \<Rightarrow> Gate" where
  "gate_of_request_mode RqOff = GSkip"
| "gate_of_request_mode RqDetect = GDetect"
| "gate_of_request_mode RqBlock = GEnforce"
| "gate_of_request_mode RqChallenge = GChallenge"

fun gate_of_response_mode :: "ResponseMode \<Rightarrow> Gate" where
  "gate_of_response_mode RsOff = GSkip"
| "gate_of_response_mode RsDetect = GDetect"
| "gate_of_response_mode RsRedact = GEnforce"

fun resolve_gate :: "Gate \<Rightarrow> RawMode option \<Rightarrow> bool \<Rightarrow> Gate" where
  "resolve_gate category None response_side = category"
| "resolve_gate category (Some MOff) response_side = GSkip"
| "resolve_gate category (Some MDetect) response_side = GDetect"
| "resolve_gate category (Some MBlock) response_side = (if \<not> response_side then GEnforce else GDetect)"
| "resolve_gate category (Some MChallenge) response_side = (if \<not> response_side then GChallenge else GDetect)"
| "resolve_gate category (Some MRedact) response_side = (if response_side then GEnforce else GDetect)"

definition resolve_gates ::
  "'re validated_config \<Rightarrow> 'i rule list \<Rightarrow> bool \<Rightarrow> Gate option list" where
  "resolve_gates config rules response_side =
     map (\<lambda>rule.
       let gate = (if response_side
                   then resolve_gate (gate_of_response_mode (response_mode config (r_category rule)))
                          (r_action_override rule) True
                   else resolve_gate (gate_of_request_mode (request_mode config (r_category rule)))
                          (r_action_override rule) False) in
       if gate \<noteq> GSkip \<and> r_paranoia rule \<le> v_paranoia config then Some gate else None) rules"

section \<open>Building an engine\<close>

text \<open>The third-party code an engine is built on.\<close>

record ('re, 'hir, 'ac) waf_libs =
  wl_decode :: "string \<Rightarrow> cow option"
  wl_regex :: "'re regex_lib"
  wl_literal :: "'hir literal_lib"
  wl_ac :: "'ac ac_lib"

definition FNV_OFFSET :: u64 where
  "FNV_OFFSET = 0xcbf29ce484222325"

definition FNV_PRIME :: u64 where
  "FNV_PRIME = 0x00000100000001b3"

definition fnv1a :: "string \<Rightarrow> u64" where
  "fnv1a name = foldl (\<lambda>h b. (h XOR word_of_nat (byte_of b)) * FNV_PRIME) FNV_OFFSET name"

definition custom_id_for :: "string \<Rightarrow> rule_id" where
  "custom_id_for name = custom_wrapping (ucast (fnv1a name))"

definition build_custom ::
  "'hir literal_lib \<Rightarrow> string \<Rightarrow> 're validated_custom_rule \<Rightarrow> 're compiled_custom_rule" where
  "build_custom ll name validated =
     (let s = vc_spec validated in
      \<lparr>cc_id = custom_id_for name, cc_category = cr_category s, cc_severity = cr_severity s,
       cc_paranoia = cr_paranoia s, cc_pattern = vc_pattern validated,
       cc_needles = required_needles ll (cr_pattern s), cc_action = cr_action s\<rparr>)"

record ('re, 'ac) rule_engine =
  en_config :: "'re validated_config"
  en_request_rules :: "request_input rule list"
  en_response_rules :: "response_input rule list"
  en_request_prefilter :: "'ac prefilter"
  en_response_prefilter :: "'ac prefilter"
  en_request_gates :: "Gate option list"
  en_response_gates :: "Gate option list"

fun build_customs ::
  "('re, 'hir, 'ac) waf_libs \<Rightarrow> (string \<times> 're validated_custom_rule) list \<Rightarrow> (rule_id \<times> string) list \<Rightarrow>
     request_input rule list \<Rightarrow> response_input rule list \<Rightarrow>
     (request_input rule list \<times> response_input rule list, ConfigError) result" where
  "build_customs libs [] seen rq rs = Ok (rq, rs)"
| "build_customs libs ((name, validated) # customs) seen rq rs =
     (let compiled = build_custom (wl_literal libs) name validated in
      case find (\<lambda>(rid, _). rid = cc_id compiled) seen of
        Some (_, other) \<Rightarrow> Err (CustomRuleIdCollision name other (cc_id compiled))
      | None \<Rightarrow>
          (let seen = seen @ [(cc_id compiled, name)] in
           if is_response_side (cc_category compiled)
           then build_customs libs customs seen rq (rs @ [custom_response_rule (wl_regex libs) compiled])
           else build_customs libs customs seen
                  (rq @ [custom_request_rule (wl_decode libs) (wl_regex libs) compiled]) rs))"

definition engine_build ::
  "('re, 'hir, 'ac) waf_libs \<Rightarrow> 're validated_config \<Rightarrow> request_input rule list \<Rightarrow>
     response_input rule list \<Rightarrow> (('re, 'ac) rule_engine, ConfigError) result" where
  "engine_build libs config request_rules response_rules =
     (case build_customs libs (v_custom_rules config) [] request_rules response_rules of
        Err e \<Rightarrow> Err e
      | Ok (rq, rs) \<Rightarrow>
          Ok \<lparr>en_config = config, en_request_rules = rq, en_response_rules = rs,
              en_request_prefilter = prefilter_build (wl_ac libs) rq,
              en_response_prefilter = prefilter_build (wl_ac libs) rs,
              en_request_gates = resolve_gates config rq False,
              en_response_gates = resolve_gates config rs True\<rparr>)"

section \<open>Evaluation\<close>

definition mark_inactive :: "Gate option list \<Rightarrow> bool list \<Rightarrow> bool list" where
  "mark_inactive gates present =
     foldl (\<lambda>present (index, gate). if gate = None then present[index := True] else present)
       present (enumerate 0 gates)"

fun rule_loop ::
  "(nat list \<Rightarrow> nat) \<Rightarrow> 'i \<Rightarrow> bool list \<Rightarrow> (nat \<times> 'i rule \<times> Gate option) list \<Rightarrow> nat list \<Rightarrow> budget \<Rightarrow>
     scorer \<Rightarrow> scorer \<times> budget \<times> exhausted option \<times> nat list" where
  "rule_loop clk input present [] evald b s = (s, b, None, evald)"
| "rule_loop clk input present ((index, rule, gate) # rest) evald b s =
     (case gate of
        None \<Rightarrow> rule_loop clk input present rest evald b s
      | Some g \<Rightarrow>
          if \<not> present ! index then rule_loop clk input present rest evald b s
          else (case budget_check (clk evald) b of
                  (Err e, b') \<Rightarrow> (s, b', Some e, evald)
                | (Ok _, b') \<Rightarrow>
                    rule_loop clk input present rest (evald @ [index]) b'
                      (case r_evaluate rule input of
                         Some hit \<Rightarrow> scorer_record s hit g
                       | None \<Rightarrow> s)))"

definition forced_by_policy :: "exhausted option \<Rightarrow> bool" where
  "forced_by_policy ex \<longleftrightarrow> map_option ex_policy ex = Some PolicyBlock"

definition finish_request :: "scorer \<Rightarrow> bool \<Rightarrow> RequestVerdict" where
  "finish_request s forced =
     (if forced \<or> reached s
      then (if \<not> forced \<and> s_challenge_only s \<and> \<not> s_block_seen s
            then RqVChallenge (s_hits s) (s_total s)
            else RqVBlock (s_hits s) (s_total s))
      else if s_hits s = [] then RqVAllow
      else RqVDetected (s_hits s) (s_total s))"

definition finish_response :: "scorer \<Rightarrow> ResponseVerdict" where
  "finish_response s =
     (if reached s then RsVRedact (s_hits s) (s_total s)
      else if s_hits s = [] then RsVAllow
      else RsVDetected (s_hits s) (s_total s))"

definition evaluate_request ::
  "('re, 'hir, 'ac) waf_libs \<Rightarrow> clock \<Rightarrow> ('re, 'ac) rule_engine \<Rightarrow> request_input \<Rightarrow> RequestVerdict evaluation" where
  "evaluate_request libs ck engine input =
     (let cfg = en_config engine;
          (body, clamped) = clamp (ri_body input) (v_body_inspect_limit cfg);
          scoped = input\<lparr>ri_body := body\<rparr>;
          present = mark_inactive (en_request_gates engine) (present_mask (en_request_prefilter engine));
          present = mark_request (wl_decode libs) (wl_ac libs) (en_request_prefilter engine) scoped present;
          (s, b, ex, evald) = rule_loop (ck_check ck) scoped present
             (enumerate 0 (zip (en_request_rules engine) (en_request_gates engine))) []
             (budget_new (v_budget cfg) (v_on_budget_exhausted cfg)) (scorer_new (v_anomaly_threshold cfg));
          forced = forced_by_policy ex in
      \<lparr>e_verdict = finish_request s forced, e_rules_checked = bu_checked b,
       e_truncated = (clamped \<or> ri_body_truncated input), e_exhausted = ex,
       e_elapsed = ck_end ck evald, e_enforcing_score = s_enforcing s\<rparr>)"

definition evaluate_response ::
  "('re, 'hir, 'ac) waf_libs \<Rightarrow> clock \<Rightarrow> ('re, 'ac) rule_engine \<Rightarrow> response_input \<Rightarrow> ResponseVerdict evaluation" where
  "evaluate_response libs ck engine input =
     (let cfg = en_config engine;
          (body_chunk, clamped) = clamp (rp_body_chunk input) (v_response_prefix_limit cfg);
          scoped = input\<lparr>rp_body_chunk := body_chunk\<rparr>;
          present = mark_inactive (en_response_gates engine) (present_mask (en_response_prefilter engine));
          present = mark_response (wl_ac libs) (en_response_prefilter engine) scoped present;
          (s, b, ex, evald) = rule_loop (ck_check ck) scoped present
             (enumerate 0 (zip (en_response_rules engine) (en_response_gates engine))) []
             (budget_new (v_budget cfg) (v_on_budget_exhausted cfg)) (scorer_new (v_anomaly_threshold cfg)) in
      \<lparr>e_verdict = finish_response s, e_rules_checked = bu_checked b,
       e_truncated = (clamped \<or> rp_body_truncated input), e_exhausted = ex,
       e_elapsed = ck_end ck evald, e_enforcing_score = s_enforcing s\<rparr>)"

end
