(* ===== verification/Waf_Engine_Ref.thy ===== *)
theory Waf_Engine_Ref
  imports Waf_Engine
begin

text \<open>
  A reference definition of a verdict, with no gate, no clock and no machine arithmetic inside the
  sum, and that the evaluation loop computes it on the rules it reached. The loop's lemmas are
  proved once, in the locale \<open>rule_gate\<close>, for both surfaces.
\<close>

section \<open>The scorer sums\<close>

definition hit_sum :: "(Hit \<times> Gate) list \<Rightarrow> nat" where
  "hit_sum hgs = sum_list (map (\<lambda>(h, _). unat (h_score h)) hgs)"

definition can_enforce :: "Gate \<Rightarrow> bool" where
  "can_enforce g \<longleftrightarrow> g = GEnforce \<or> g = GChallenge"

definition score_of :: "(Hit \<times> Gate) list \<Rightarrow> nat" where
  "score_of hgs = min (hit_sum hgs) (2 ^ 32 - 1)"

definition enforcing_of :: "(Hit \<times> Gate) list \<Rightarrow> nat" where
  "enforcing_of hgs = score_of (filter (can_enforce \<circ> snd) hgs)"

definition record_all :: "scorer \<Rightarrow> (Hit \<times> Gate) list \<Rightarrow> scorer" where
  "record_all s hgs = foldl (\<lambda>s (h, g). scorer_record s h g) s hgs"

lemma record_all_simps [simp]:
  "record_all s [] = s" "record_all s ((h, g) # hgs) = record_all (scorer_record s h g) hgs"
  by (simp_all add: record_all_def)

lemma scorer_record_fields:
  "s_hits (scorer_record s h g) = s_hits s @ [h]"
  "unat (s_total (scorer_record s h g)) = min (unat (s_total s) + unat (h_score h)) (2 ^ 32 - 1)"
  "unat (s_enforcing (scorer_record s h g)) =
     (if can_enforce g then min (unat (s_enforcing s) + unat (h_score h)) (2 ^ 32 - 1)
      else unat (s_enforcing s))"
  "s_block_seen (scorer_record s h g) \<longleftrightarrow> s_block_seen s \<or> g = GEnforce"
  "s_challenge_only (scorer_record s h g) \<longleftrightarrow> s_challenge_only s \<and> g \<noteq> GEnforce"
  "s_threshold (scorer_record s h g) = s_threshold s"
  by (auto simp: scorer_record_def can_enforce_def Let_def unat_sat_add)

lemma record_all_fields:
  "s_hits (record_all s hgs) = s_hits s @ map fst hgs"
  "s_block_seen (record_all s hgs) \<longleftrightarrow> s_block_seen s \<or> GEnforce \<in> snd ` set hgs"
  "s_challenge_only (record_all s hgs) \<longleftrightarrow> s_challenge_only s \<and> GEnforce \<notin> snd ` set hgs"
  "s_threshold (record_all s hgs) = s_threshold s"
  by (induction hgs arbitrary: s) (auto simp: scorer_record_fields)

lemma record_all_total:
  "unat (s_total (record_all s hgs)) = min (unat (s_total s) + hit_sum hgs) (2 ^ 32 - 1)"
proof (induction hgs arbitrary: s)
  case Nil
  show ?case using unat_less_exp [of "s_total s"] by (simp add: hit_sum_def)
next
  case (Cons hg hgs)
  then show ?case by (cases hg) (simp add: scorer_record_fields hit_sum_def)
qed

lemma record_all_enforcing:
  "unat (s_enforcing (record_all s hgs)) =
     min (unat (s_enforcing s) + hit_sum (filter (can_enforce \<circ> snd) hgs)) (2 ^ 32 - 1)"
proof (induction hgs arbitrary: s)
  case Nil
  show ?case using unat_less_exp [of "s_enforcing s"] by (simp add: hit_sum_def)
next
  case (Cons hg hgs)
  then show ?case by (cases hg) (auto simp: scorer_record_fields hit_sum_def)
qed

section \<open>Reference verdicts\<close>

definition ref_hits :: "'i \<Rightarrow> ('i rule \<times> Gate option) list \<Rightarrow> (Hit \<times> Gate) list" where
  "ref_hits input rgs =
     List.map_filter (\<lambda>(rule, gate). case gate of
         None \<Rightarrow> None
       | Some g \<Rightarrow> map_option (\<lambda>h. (h, g)) (r_evaluate rule input)) rgs"

definition ref_request :: "u32 \<Rightarrow> bool \<Rightarrow> (Hit \<times> Gate) list \<Rightarrow> RequestVerdict" where
  "ref_request threshold forced hgs =
     (let hits = map fst hgs; score = word_of_nat (score_of hgs) in
      if forced then RqVBlock hits score
      else if unat threshold \<le> enforcing_of hgs
      then (if GEnforce \<in> snd ` set hgs then RqVBlock hits score else RqVChallenge hits score)
      else if hits = [] then RqVAllow else RqVDetected hits score)"

definition ref_response :: "u32 \<Rightarrow> (Hit \<times> Gate) list \<Rightarrow> ResponseVerdict" where
  "ref_response threshold hgs =
     (let hits = map fst hgs; score = word_of_nat (score_of hgs) in
      if unat threshold \<le> enforcing_of hgs then RsVRedact hits score
      else if hits = [] then RsVAllow else RsVDetected hits score)"

lemma record_new_scores:
  "s_total (record_all (scorer_new t) hgs) = word_of_nat (score_of hgs)"
  "unat (s_enforcing (record_all (scorer_new t) hgs)) = enforcing_of hgs"
proof -
  have "unat (s_total (record_all (scorer_new t) hgs)) = score_of hgs"
    by (simp add: record_all_total score_of_def scorer_new_def)
  then show "s_total (record_all (scorer_new t) hgs) = word_of_nat (score_of hgs)"
    by (metis of_nat_unat ucast_id)
  show "unat (s_enforcing (record_all (scorer_new t) hgs)) = enforcing_of hgs"
    by (simp add: record_all_enforcing enforcing_of_def score_of_def scorer_new_def)
qed

lemma reached_record_new: "reached (record_all (scorer_new t) hgs) \<longleftrightarrow> unat t \<le> enforcing_of hgs"
  by (simp add: reached_def word_le_nat_alt record_new_scores record_all_fields)
    (simp add: scorer_new_def)

lemma record_new_fields:
  "s_hits (record_all (scorer_new t) hgs) = map fst hgs"
  "s_block_seen (record_all (scorer_new t) hgs) \<longleftrightarrow> GEnforce \<in> snd ` set hgs"
  "s_challenge_only (record_all (scorer_new t) hgs) \<longleftrightarrow> GEnforce \<notin> snd ` set hgs"
  unfolding record_all_fields by (simp_all add: scorer_new_def)

lemma finish_request_ref:
  "finish_request (record_all (scorer_new t) hgs) forced = ref_request t forced hgs"
  unfolding finish_request_def ref_request_def Let_def reached_record_new record_new_scores
    record_new_fields by simp

lemma finish_response_ref:
  "finish_response (record_all (scorer_new t) hgs) = ref_response t hgs"
  unfolding finish_response_def ref_response_def Let_def reached_record_new record_new_scores
    record_new_fields by simp

section \<open>The loop\<close>

text \<open>A mask that may only hide rules that do not match.\<close>

definition hides_nothing :: "'i \<Rightarrow> bool list \<Rightarrow> (nat \<times> 'i rule \<times> Gate option) list \<Rightarrow> bool" where
  "hides_nothing input present items \<longleftrightarrow>
     (\<forall>(index, rule, gate)\<in>set items. gate \<noteq> None \<longrightarrow> \<not> present ! index \<longrightarrow> r_evaluate rule input = None)"

lemma hides_nothing_Cons:
  "hides_nothing input present ((index, rule, gate) # items) \<longleftrightarrow>
     (gate \<noteq> None \<longrightarrow> \<not> present ! index \<longrightarrow> r_evaluate rule input = None) \<and>
     hides_nothing input present items"
  by (simp add: hides_nothing_def)

lemma ref_hits_simps [simp]:
  "ref_hits input [] = []"
  "ref_hits input ((rule, None) # rgs) = ref_hits input rgs"
  "ref_hits input ((rule, Some g) # rgs) =
     (case r_evaluate rule input of None \<Rightarrow> ref_hits input rgs | Some h \<Rightarrow> (h, g) # ref_hits input rgs)"
  by (simp_all add: ref_hits_def split: option.splits)

lemma rule_loop_ref:
  assumes "rule_loop clk input present items evald b s = (s', b', ex, evald')"
    and "hides_nothing input present items"
  shows "\<exists>k\<le>length items. s' = record_all s (ref_hits input (map snd (take k items))) \<and>
    (ex = None \<longrightarrow> k = length items)"
  using assms
proof (induction items arbitrary: evald b s)
  case (Cons item items)
  obtain index rule gate where item: "item = (index, rule, gate)" by (cases item)
  have step: ?case
    if "rule_loop clk input present items evald1 b1 s1 = (s', b', ex, evald')"
      "\<And>rgs. record_all s (ref_hits input ((rule, gate) # rgs)) = record_all s1 (ref_hits input rgs)"
    for evald1 b1 s1
  proof -
    from Cons.IH [OF that(1)] Cons.prems(2) obtain k where "k \<le> length items"
      "s' = record_all s1 (ref_hits input (map snd (take k items)))" "ex = None \<longrightarrow> k = length items"
      by (auto simp: item hides_nothing_Cons)
    with that(2) show ?thesis by (intro exI [of _ "Suc k"]) (simp add: item)
  qed
  show ?case
  proof (cases "gate = None \<or> \<not> present ! index")
    case True
    with Cons.prems have "rule_loop clk input present items evald b s = (s', b', ex, evald')"
      and "gate = None \<or> r_evaluate rule input = None"
      by (auto simp: item hides_nothing_Cons split: option.splits)
    then show ?thesis by (intro step) (auto split: option.splits simp: ref_hits_def)
  next
    case False
    then obtain g where g: "gate = Some g" "present ! index" by auto
    show ?thesis
    proof (cases "bu_limit b \<le> clk evald")
      case True
      with g Cons.prems(1) have "s' = s" "ex \<noteq> None" by (auto simp: item budget_check_def)
      then show ?thesis by (intro exI [of _ 0]) simp
    next
      case False
      show ?thesis
        by (rule step [of "evald @ [index]" "b\<lparr>bu_checked := sat_add (bu_checked b) 1\<rparr>"
            "case r_evaluate rule input of Some hit \<Rightarrow> scorer_record s hit g | None \<Rightarrow> s"])
          (use False g Cons.prems(1) in \<open>auto simp: item budget_check_def split: option.splits\<close>)
    qed
  qed
qed simp

text \<open>
  A loop that skips more evaluates a subsequence of the rules. On a clock that does not read later
  when fewer rules have run, it finishes whenever the fuller loop does, with the same score.
\<close>

definition clock_monotone :: "(nat list \<Rightarrow> nat) \<Rightarrow> bool" where
  "clock_monotone clk \<longleftrightarrow> (\<forall>xs ys. subseq xs ys \<longrightarrow> clk xs \<le> clk ys)"

lemma rule_loop_lift:
  assumes "clock_monotone clk" and "hides_nothing input present items"
    and "\<forall>(index, _)\<in>set items. full ! index"
    and "subseq e1 e2" and "bu_limit b1 = bu_limit b2"
    and "rule_loop clk input full items e2 b2 s = (s', b2', None, e2')"
  shows "\<exists>b1' e1'. rule_loop clk input present items e1 b1 s = (s', b1', None, e1')"
  using assms(2-)
proof (induction items arbitrary: e1 e2 b1 b2 s)
  case (Cons item items)
  obtain index rule gate where item: "item = (index, rule, gate)" by (cases item)
  let ?b = "\<lambda>b. b\<lparr>bu_checked := sat_add (bu_checked b) 1\<rparr>"
  have hn: "hides_nothing input present items" and full: "\<forall>(index, _)\<in>set items. full ! index"
    using Cons.prems(1,2) by (auto simp: item hides_nothing_Cons)
  note IH = Cons.IH [OF hn full]
  show ?case
  proof (cases gate)
    case None
    with Cons.prems(5) IH [OF Cons.prems(3,4)] show ?thesis by (simp add: item)
  next
    case (Some g)
    let ?s = "case r_evaluate rule input of Some hit \<Rightarrow> scorer_record s hit g | None \<Rightarrow> s"
    from Some Cons.prems(2,5) have lt: "\<not> bu_limit b2 \<le> clk e2"
      and loop: "rule_loop clk input full items (e2 @ [index]) (?b b2) ?s = (s', b2', None, e2')"
      by (auto simp: item budget_check_def split: if_splits)
    show ?thesis
    proof (cases "present ! index")
      case True
      from assms(1) Cons.prems(3) have "clk e1 \<le> clk e2" by (simp add: clock_monotone_def)
      with lt Cons.prems(4) have "\<not> bu_limit b1 \<le> clk e1" by simp
      moreover have "subseq (e1 @ [index]) (e2 @ [index])"
        using Cons.prems(3) by (simp add: list_emb_append_mono)
      ultimately show ?thesis
        using IH [OF _ _ loop, of "e1 @ [index]" "?b b1"] Cons.prems(4) Some True
        by (simp add: item budget_check_def)
    next
      case False
      with Cons.prems(1) Some have "?s = s" by (simp add: item hides_nothing_Cons)
      with loop have "rule_loop clk input full items (e2 @ [index]) (?b b2) s = (s', b2', None, e2')"
        by simp
      moreover have "subseq e1 (e2 @ [index])" using Cons.prems(3) by (meson subseq_order.trans list_emb_append2 subseq_order.refl sublist_imp_subseq sublist_append_rightI)
      ultimately show ?thesis
        using IH [of e1 "e2 @ [index]" b1 "?b b2"] Cons.prems(4) Some False by (simp add: item)
    qed
  qed
qed simp

lemma nth_update_True: "present ! i \<Longrightarrow> present[a := True] ! i"
  by (cases "a = i"; cases "i < length present") (auto simp: list_update_beyond)

lemma mark_inactive_mono: "present ! i \<Longrightarrow> mark_inactive gates present ! i"
  and length_mark_inactive [simp]: "length (mark_inactive gates present) = length present"
proof -
  let ?f = "\<lambda>present (index, gate). if gate = None then present[index := True] else present"
  have "foldl ?f present igs ! i" if "present ! i" for igs :: "(nat \<times> 'a option) list" and present
    using that
  proof (induction igs arbitrary: present)
    case (Cons ig igs)
    have "?f present ig ! i" using Cons.prems by (cases ig) (auto simp: nth_update_True)
    then show ?case using Cons.IH by simp
  qed simp
  then show "present ! i \<Longrightarrow> mark_inactive gates present ! i"
    by (simp add: mark_inactive_def)
  have "length (foldl ?f present igs) = length present" for igs :: "(nat \<times> 'a option) list" and present
    by (induction igs arbitrary: present) auto
  then show "length (mark_inactive gates present) = length present"
    by (simp add: mark_inactive_def)
qed

context rule_gate
begin

lemma gate_hides_nothing:
  assumes "admissible rules"
  shows "hides_nothing input (mark rules input (mark_inactive gates (ungated rules)))
    (enumerate 0 (zip rules gates))"
  unfolding hides_nothing_def
proof (clarsimp simp: in_set_enumerate_eq)
  fix i g assume i: "i < length rules" "i < length gates"
    and absent: "\<not> mark rules input (mark_inactive gates (ungated rules)) ! i"
  show "r_evaluate (rules ! i) input = None"
  proof (rule ccontr)
    assume "r_evaluate (rules ! i) input \<noteq> None"
    with absent show False
      using mark_sound [OF assms _ _ i(1), of "mark_inactive gates (ungated rules)" input]
      by (simp add: length_ungated mark_inactive_mono)
  qed
qed

lemma gated_loop_ref:
  assumes "admissible rules"
    and "rule_loop clk input (mark rules input (mark_inactive gates (ungated rules)))
      (enumerate 0 (zip rules gates)) evald b (scorer_new t) = (s', b', ex, evald')"
  shows "\<exists>k. s' = record_all (scorer_new t) (ref_hits input (take k (zip rules gates))) \<and>
    (ex = None \<longrightarrow> take k (zip rules gates) = zip rules gates)"
proof -
  from rule_loop_ref [OF assms(2) gate_hides_nothing [OF assms(1)]] obtain k where
    "s' = record_all (scorer_new t) (ref_hits input (map snd (take k (enumerate 0 (zip rules gates)))))"
    "ex = None \<longrightarrow> k = length (zip rules gates)"
    by auto
  then show ?thesis by (auto simp: take_map [symmetric] map_snd_enumerate intro!: exI [of _ k])
qed

lemma gated_loop_lift:
  assumes "admissible rules" "clock_monotone clk" "length full = length rules" "\<forall>i<length full. full ! i"
    and "rule_loop clk input full (enumerate 0 (zip rules gates)) [] b s = (s', b2', None, e2')"
  shows "\<exists>b1' e1'. rule_loop clk input (mark rules input (mark_inactive gates (ungated rules)))
    (enumerate 0 (zip rules gates)) [] b s = (s', b1', None, e1')"
  by (rule rule_loop_lift [OF assms(2) gate_hides_nothing [OF assms(1)] _ _ _ assms(5)])
    (use assms(3,4) in \<open>auto simp: in_set_enumerate_eq\<close>)

end

end
