(* ===== verification/Waf_Detectors.thy ===== *)
theory Waf_Detectors
  imports Waf_Gate
begin

text \<open>
  \<open>crates/pingap-waf/src/detectors/*.rs\<close>: the native pattern tables, and how they become the two
  rule lists. The source writes patterns as raw strings; here \<open>~\<close> stands for the backslash and \<open>!\<close>
  for the double quote, neither of which any pattern contains, and \<open>rx\<close> restores them. A constructor that may panic returns an option.
\<close>

section \<open>Specs\<close>

definition rx :: "string \<Rightarrow> string" where
  "rx s = map (\<lambda>c. if c = CHR ''~'' then backslash else if c = CHR ''!'' then CHR 0x22 else c) s"

definition spec_new :: "u32 \<Rightarrow> string \<Rightarrow> Severity \<Rightarrow> spec" where
  "spec_new offset pattern severity =
     \<lparr>sp_offset = offset, sp_pattern = pattern, sp_severity = severity, sp_paranoia = 1,
      sp_scope = AnyField\<rparr>"

definition spec_at :: "u32 \<Rightarrow> string \<Rightarrow> Severity \<Rightarrow> u8 \<Rightarrow> spec option" where
  "spec_at offset pattern severity level =
     map_option (\<lambda>p. (spec_new offset pattern severity)\<lparr>sp_paranoia := p\<rparr>) (paranoia_new level)"

definition spec_in_header :: "u32 \<Rightarrow> string \<Rightarrow> string \<Rightarrow> Severity \<Rightarrow> u8 \<Rightarrow> spec option" where
  "spec_in_header offset header pattern severity level =
     map_option (\<lambda>s. s\<lparr>sp_scope := OneHeader header\<rparr>) (spec_at offset pattern severity level)"

section \<open>The tables\<close>

definition IDENT :: string where
  "IDENT = rx ''[~w.'!`~[~]]+''"

definition SHELL_COMMANDS :: string where
  "SHELL_COMMANDS =
     ''cat|head|tail|less|more|ls|dir|rm|del|rmdir|mv|cp|dd|touch|echo|env|''
     @ ''export|eval|exec|wget|curl|nc|netcat|ncat|bash|sh|zsh|ksh|csh|dash|''
     @ ''python[23]?|perl|ruby|php|node|chmod|chown|chgrp|sudo|su|kill|killall|''
     @ ''pkill|nohup|id|whoami|uname|hostname|ifconfig|ipconfig|netstat|ping|''
     @ ''nslookup|dig''"

definition SHELL_PATHS :: string where
  "SHELL_PATHS = rx ''/(?:bin|sbin|usr|etc|dev|proc|tmp|var|home|root)/''"

definition sql_injection_specs :: "spec list option" where
  "sql_injection_specs = those [
     Some (spec_new 1 (rx ''(?i)~bunion~b[~s(]+(?:all[~s(]+)?~bselect~b'') Critical),
     Some (spec_new 10 (rx ''(?i)~b(?:or|and|having)~b~s+(?:0x[0-9a-f]+|~d+)~s*=~s*(?:0x[0-9a-f]+|~d+)'') Critical),
     Some (spec_new 11 (rx ''(?i)'~s*(?:or|and)~s*'' @ [CHR 0x27]) Critical),
     spec_at 12 (rx ''(?i)~bor~b~s+[!']?~w+[!']?~s*=~s*[!']?~w+[!']?'') Warning 2,
     Some (spec_new 13 (rx ''(?i)['~x22]~s*~|~|'') Critical),
     Some (spec_new 14 (rx ''(?i)~|~|~s*~(?~s*select~b'') Critical),
     Some (spec_new 15 (rx ''(?i)['~x22]~s*(?:order~s+by|group~s+by|having)~b'') Critical),
     Some (spec_new 16 (rx ''(?i)~b(?:and|or)~b~s*~(~s*select~b'') Critical),
     Some (spec_new 20 (rx ''['!);~]]~s*--'') Critical),
     Some (spec_new 21 (rx ''/~*[^*]{0,200}~*/'') Warning),
     Some (spec_new 30 (rx ''(?i)~bselect~b~s+~*~s*~bfrom~b'') Critical),
     Some (spec_new 31 (rx ''(?i)~bselect~b~s+'' @ IDENT @ rx ''~s*,~s*[~w.'~x22`~[~], ]{0,120}~bfrom~b'') Critical),
     Some (spec_new 32 (rx ''(?i)~bselect~b~s+'' @ IDENT @ rx ''~s+~bfrom~b~s+'' @ IDENT @ rx ''~s*(?:~bwhere~b|~blimit~b|~border~s+by~b|~bgroup~s+by~b|~bhaving~b|~bunion~b|[),;]|--|$)'') Critical),
     Some (spec_new 33 (rx ''(?i)~bselect~b~s+(?:count|sum|avg|min|max|group_concat|string_agg)~s*~('') Critical),
     Some (spec_new 40 (rx ''(?i)~binsert~b~s+into~b~s+'' @ IDENT @ rx ''~s*(?:[({]|~bvalues~b|~bselect~b|~binto~b|~bset~b|;|--|$)'') Critical),
     Some (spec_new 50 (rx ''(?i)~bdelete~b~s+from~b~s+'' @ IDENT @ rx ''~s*(?:~bwhere~b|;|--|$)'') Critical),
     Some (spec_new 60 (rx ''(?i)~bdrop~b~s+(?:table|database)~b~s+'' @ IDENT) Critical),
     Some (spec_new 70 (rx ''(?i)~bupdate~b~s+'' @ IDENT @ rx ''~s+~bset~b~s+'' @ IDENT @ rx ''~s*='') Critical),
     Some (spec_new 80 (rx ''(?i);~s*~b(?:drop|delete|update|insert|truncate|alter)~b'') Critical),
     Some (spec_new 81 (rx ''(?i)~b(?:exec|execute)~s*~('') Critical),
     Some (spec_new 82 (rx ''(?i)~b(?:xp_|sp_)~w+'') Error),
     Some (spec_new 90 (rx ''(?i)~b(?:benchmark|pg_sleep|waitfor~s+delay)~s*~('') Critical),
     Some (spec_new 91 (rx ''(?i)~bsleep~s*~(~s*~d'') Error),
     spec_at 95 (rx ''(?i)[=(,]~s*0x[0-9a-f]{4,}'') Notice 2,
     spec_at 96 (rx ''(?i)~b0x[0-9a-f]{2,}~b'') Notice 3]"

definition xss_specs :: "spec list option" where
  "xss_specs = those [
     Some (spec_new 1 (rx ''(?i)<script[^>]{0,200}>'') Critical),
     Some (spec_new 2 (rx ''(?i)</script>'') Critical),
     Some (spec_new 10 (rx ''(?i)~bon~w+~s*='') Error),
     Some (spec_new 20 (rx ''(?i)<iframe[^>]{0,200}>'') Error),
     Some (spec_new 21 (rx ''(?i)<object[^>]{0,200}>'') Error),
     Some (spec_new 22 (rx ''(?i)<embed[^>]{0,200}>'') Error),
     Some (spec_new 23 (rx ''(?i)<img[^>]{0,200}~bon~w+'') Critical),
     Some (spec_new 24 (rx ''(?i)<body[^>]{0,200}~bon~w+'') Critical),
     Some (spec_new 25 (rx ''(?i)<link[^>]{0,200}~brel~s*=~s*['~x22]?import'') Error),
     Some (spec_new 30 (rx ''(?i)javascript:~s*[~w'~x22]'') Critical),
     Some (spec_new 31 (rx ''(?i)data:text/html'') Error),
     Some (spec_new 40 (rx ''(?i)~beval~s*~('') Error),
     Some (spec_new 41 (rx ''(?i)~balert~s*~('') Warning),
     Some (spec_new 42 (rx ''(?i)expression~s*~('') Error)]"

definition path_traversal_specs :: "spec list option" where
  "path_traversal_specs = those [
     Some (spec_new 1 (rx ''~.~./'') Warning),
     Some (spec_new 2 (rx ''~.~.~~'') Warning),
     Some (spec_new 3 (rx ''(?i)~.~.%2f'') Warning),
     Some (spec_new 4 (rx ''(?i)~.~.%5c'') Warning),
     Some (spec_new 5 (rx ''(?i)%2e%2e%2f'') Warning),
     Some (spec_new 6 (rx ''(?i)%2e%2e/'') Warning),
     Some (spec_new 7 (rx ''(?i)%2e%2e%5c'') Warning),
     Some (spec_new 8 (rx ''(?i)%2e%2e~~'') Warning),
     Some (spec_new 9 (rx ''(?i)%252e%252e%252f'') Error),
     Some (spec_new 10 (rx ''(?i)%252e%252e/'') Error),
     Some (spec_new 11 (rx ''(?i)%c0%ae%c0%ae/'') Error),
     Some (spec_new 12 (rx ''(?i)%c0%ae%c0%ae%c0%af'') Error),
     Some (spec_new 13 (rx ''%00'') Error),
     Some (spec_new 14 (rx ''~~x00'') Error),
     Some (spec_new 15 (rx ''~.~.~.~./'') Error),
     Some (spec_new 16 (rx ''~.~.//'') Error),
     Some (spec_new 17 (rx ''~.~./~./'') Error),
     Some (spec_new 18 (rx ''(?i)~.~.%c[01]%[0-9a-f]{2}'') Error),
     Some (spec_new 100 (rx ''(?i)/etc/passwd'') Critical),
     Some (spec_new 101 (rx ''(?i)/etc/shadow'') Critical),
     Some (spec_new 102 (rx ''(?i)/etc/hosts'') Error),
     Some (spec_new 103 (rx ''(?i)/etc/group'') Error),
     Some (spec_new 104 (rx ''(?i)/proc/'') Error),
     Some (spec_new 105 (rx ''(?i)/sys/'') Error),
     Some (spec_new 106 (rx ''(?i)/var/log/'') Error),
     Some (spec_new 107 (rx ''(?i)/root/'') Error),
     Some (spec_new 108 (rx ''(?i)~.ssh/'') Critical),
     Some (spec_new 109 (rx ''(?i)~.bash_history'') Error),
     Some (spec_new 110 (rx ''(?i)~.env~b'') Critical),
     Some (spec_new 111 (rx ''(?i)id_rsa'') Critical),
     Some (spec_new 112 (rx ''(?i)id_dsa'') Critical),
     Some (spec_new 150 (rx ''(?i)c:~~windows'') Critical),
     Some (spec_new 151 (rx ''(?i)c:~~boot~.ini'') Critical),
     Some (spec_new 152 (rx ''(?i)~~windows~~system32'') Critical),
     Some (spec_new 153 (rx ''(?i)win~.ini'') Error),
     Some (spec_new 154 (rx ''(?i)system~.ini'') Error),
     Some (spec_new 200 (rx ''(?i)~.htaccess'') Error),
     Some (spec_new 201 (rx ''(?i)~.htpasswd'') Critical),
     Some (spec_new 202 (rx ''(?i)web~.config'') Error),
     Some (spec_new 203 (rx ''(?i)nginx~.conf'') Error),
     Some (spec_new 204 (rx ''(?i)httpd~.conf'') Error),
     Some (spec_new 205 (rx ''(?i)config~.php'') Error),
     Some (spec_new 206 (rx ''(?i)database~.yml'') Error),
     Some (spec_new 207 (rx ''(?i)settings~.py'') Error),
     Some (spec_new 208 (rx ''(?i)wp-config~.php'') Critical)]"

definition command_injection_specs :: "spec list option" where
  "command_injection_specs = those [
     Some (spec_new 1 (rx ''(?i)[;&|~r~n]{1,2}~s*(?:'' @ SHELL_PATHS @ rx ''|~b(?:'' @ SHELL_COMMANDS @ rx '')~b)'') Critical),
     Some (spec_new 10 (rx ''~$~(~s*~w'') Critical),
     Some (spec_new 11 (rx ''~$~{~s*~w'') Warning),
     Some (spec_new 12 (rx ''`[^`~r~n]{1,200}`'') Warning),
     Some (spec_new 20 (rx ''(?i)>{1,2}~s*'' @ SHELL_PATHS) Error),
     Some (spec_new 21 (rx ''(?i)<~s*'' @ SHELL_PATHS) Error),
     Some (spec_new 22 (rx ''2>&1'') Warning),
     Some (spec_new 30 (rx ''(?i)~b(?:cat|head|tail|less|more)~s+/'') Critical),
     Some (spec_new 31 (rx ''(?i)~b(?:ls|dir)~s+(?:-~w+~s+)?/'') Error),
     Some (spec_new 32 (rx ''(?i)~b(?:rm|del|rmdir)~s+(?:-~w+~s+)'') Critical),
     Some (spec_new 33 (rx ''(?i)~b(?:wget|curl)~s+(?:-~S+~s+)*(?:https?|ftp)://'') Critical),
     spec_at 34 (rx ''(?i)~b(?:wget|curl)~s+~S'') Warning 2,
     Some (spec_new 35 (rx ''(?i)~b(?:nc|netcat|ncat)~s+~S'') Critical),
     Some (spec_new 36 (rx ''(?i)~b(?:bash|sh|zsh|ksh|csh|dash)~s+-'') Critical),
     Some (spec_new 37 (rx ''(?i)~b(?:python[23]?|perl|ruby|php)~s+-'') Critical),
     Some (spec_new 38 (rx ''(?i)~b(?:chmod|chown|chgrp)~s+~S'') Critical),
     Some (spec_new 39 (rx ''(?i)~bsudo~s+~S'') Critical),
     Some (spec_new 40 (rx ''(?i)~b(?:kill|killall|pkill)~s+~S'') Error),
     Some (spec_new 41 (rx ''(?i)~bping~s+-'') Warning),
     Some (spec_new 50 (rx ''(?i)~b(?:whoami|uname~s+-)~b'') Error),
     Some (spec_new 51 (rx ''(?i)~b(?:useradd|userdel|usermod)~b'') Error),
     spec_at 52 (rx ''(?i)~b(?:ifconfig|ipconfig|netstat)~b'') Notice 2,
     Some (spec_new 60 (rx ''(?i)/bin/(?:sh|bash|zsh|ksh|csh|dash)'') Critical),
     Some (spec_new 61 (rx ''(?i)/usr/bin/(?:sh|bash|python[23]?|perl|ruby|php)'') Critical),
     Some (spec_new 62 (rx ''(?i)cmd~.exe'') Critical),
     Some (spec_new 63 (rx ''(?i)powershell'') Error),
     Some (spec_new 70 (rx ''~$PATH~b'') Warning),
     Some (spec_new 71 (rx ''~$HOME~b'') Warning),
     Some (spec_new 72 (rx ''~$USER~b'') Warning),
     Some (spec_new 73 (rx ''~$SHELL~b'') Warning),
     Some (spec_new 74 (rx ''(?i)%systemroot%'') Error),
     Some (spec_new 75 (rx ''(?i)%comspec%'') Error)]"

definition data_leakage_specs :: "spec list option" where
  "data_leakage_specs = those [
     Some (spec_new 1 (rx ''(?i)~bmysql_(?:connect|error|query|fetch_~w+|num_rows)~s*~('') Error),
     Some (spec_new 2 (rx ''(?i)You have an error in your SQL syntax'') Critical),
     Some (spec_new 3 (rx ''(?i)~bwarning~b.{0,40}~bmysqli?~b'') Error),
     Some (spec_new 4 (rx ''ORA-~d{5}'') Error),
     Some (spec_new 5 (rx ''(?i)~bPostgreSQL~b.{0,40}~bERROR~b'') Error),
     Some (spec_new 6 (rx ''SQLSTATE~['') Error),
     Some (spec_new 7 (rx ''(?i)~b(?:Unclosed quotation mark|Incorrect syntax near)~b'') Error),
     Some (spec_new 8 (rx ''(?i)SQLite3?::(?:query|exec|prepare)|sqlite3~.OperationalError'') Error),
     Some (spec_new 30 (rx ''Traceback ~(most recent call last~)'') Error),
     Some (spec_new 31 (rx ''~bat [~w.$]+~([~w]+~.java:~d+~)'') Error),
     Some (spec_new 32 (rx ''(?i)<b>(?:Fatal error|Warning|Notice)</b>:.{0,80}~bon line~b'') Error),
     Some (spec_new 33 (rx ''(?i)~bStack trace:~s'') Error),
     Some (spec_new 34 (rx ''(?i)~b(?:System~.~w+Exception|Microsoft~.~w+~.SqlException)~b'') Error),
     Some (spec_new 60 (rx ''-----BEGIN (?:RSA |EC |DSA |OPENSSH |PGP )?PRIVATE KEY-----'') Critical),
     Some (spec_new 61 (rx ''~bAKIA[0-9A-Z]{16}~b'') Critical),
     Some (spec_new 62 (rx ''(?i)~baws_secret_access_key~b~s*[=:]'') Critical),
     Some (spec_new 63 (rx ''~bgh[pousr]_[A-Za-z0-9]{36,}'') Critical),
     Some (spec_new 64 (rx ''~bxox[baprs]-[A-Za-z0-9-]{10,}'') Critical),
     Some (spec_new 65 (rx ''(?i)~b(?:api[_-]?key|secret[_-]?key|access[_-]?token)~b~s*[=:]~s*['~x22][A-Za-z0-9_~-]{16,}'') Error),
     Some (spec_new 90 (rx ''(?i)<title>Index of /'') Warning),
     Some (spec_new 91 (rx ''(?i)<title>phpinfo~(~)'') Critical),
     Some (spec_new 92 (rx ''(?i)~bphpinfo~s*~(~s*~)'') Error),
     spec_at 93 (rx ''(?i)~b(?:mysql|postgres(?:ql)?|mongodb|redis|amqp)://[^~s:@/]+:[^~s:@/]+@'') Critical 2]"

definition web_shell_specs :: "spec list option" where
  "web_shell_specs = those [
     Some (spec_new 1 (rx ''(?i)~b(?:eval|assert|passthru|shell_exec|system|exec|popen|proc_open|pcntl_exec)~s*~(~s*~$_(?:POST|GET|REQUEST|COOKIE|SERVER)'') Critical),
     Some (spec_new 2 (rx ''(?i)~bbase64_decode~s*~(~s*~$_(?:POST|GET|REQUEST|COOKIE)'') Critical),
     Some (spec_new 3 (rx ''(?i)~bpreg_replace~s*~(~s*['~x22].{0,40}/e['~x22]'') Critical),
     Some (spec_new 4 (rx ''(?i)~$_(?:POST|GET|REQUEST)~s*~[[^~]]{0,40}~]~s*~('') Critical),
     Some (spec_new 30 (rx ''(?i)~bc99shell~b'') Critical),
     Some (spec_new 31 (rx ''(?i)~br57shell~b'') Critical),
     Some (spec_new 32 (rx ''(?i)~bb374k~b'') Critical),
     Some (spec_new 33 (rx ''(?i)~bweevely~b'') Critical),
     Some (spec_new 34 (rx ''(?i)~bWSO~s+~d+~.~d+'') Critical),
     Some (spec_new 35 (rx ''(?i)~bChina~s*Chopper~b'') Critical),
     Some (spec_new 36 (rx ''(?i)<title>~s*(?:.{0,40}~bshell~b.{0,40})</title>'') Error),
     Some (spec_new 60 (rx ''~buid=~d+~([~w.-]+~)~s+gid=~d+~([~w.-]+~)'') Critical),
     Some (spec_new 61 (rx ''(?m)^[~w.-]+:[^:~r~n]*:~d+:~d+:[^:~r~n]*:[^:~r~n]*:/(?:bin|usr|sbin)/~S*$'') Critical),
     Some (spec_new 62 (rx ''(?i)~b(?:drwx|-rw-)[rwxsStT-]{6,7}~s+~d+~s+~w+~s+~w+~s+~d+'') Error),
     Some (spec_new 63 (rx ''(?i)~bLinux~s+~S+~s+~d+~.~d+~.~d+~S*~s+#~d+'') Error),
     Some (spec_new 64 (rx ''(?i)~bVolume~s+in~s+drive~s+[A-Z]~s+(?:is|has no label)'') Error),
     Some (spec_new 65 (rx ''(?i)~bnt authority~~system~b'') Critical)]"

section \<open>The rule lists\<close>

definition request_specs :: "(Category \<times> spec list) list option" where
  "request_specs =
     those (map (\<lambda>(c, s). map_option (Pair c) s)
       [(SqlInjection, sql_injection_specs), (Xss, xss_specs),
        (LocalFileInclusion, path_traversal_specs), (RemoteCodeExecution, command_injection_specs)])"

definition response_specs :: "(Category \<times> spec list) list option" where
  "response_specs =
     those (map (\<lambda>(c, s). map_option (Pair c) s)
       [(DataLeakage, data_leakage_specs), (WebShell, web_shell_specs)])"

definition compile_all ::
  "'hir literal_lib \<Rightarrow> 're regex_lib \<Rightarrow> (Category \<times> spec list) list \<Rightarrow> 're pattern_rule list option" where
  "compile_all ll lib sets =
     those (map (\<lambda>(category, s). pattern_rule_compile (required_needles ll) lib category s) (interleave sets))"

definition request_rules ::
  "(string \<Rightarrow> cow option) \<Rightarrow> 'hir literal_lib \<Rightarrow> 're regex_lib \<Rightarrow> request_input rule list option" where
  "request_rules decode ll lib =
     Option.bind request_specs (\<lambda>sets.
     map_option (map (pattern_request_rule decode lib)) (compile_all ll lib sets))"

definition response_rules ::
  "'hir literal_lib \<Rightarrow> 're regex_lib \<Rightarrow> response_input rule list option" where
  "response_rules ll lib =
     Option.bind response_specs (\<lambda>sets.
     map_option (map (pattern_response_rule lib)) (compile_all ll lib sets))"

definition native_rule_ids :: "(rule_id \<times> Category) list option" where
  "native_rule_ids =
     Option.bind request_specs (\<lambda>rq. Option.bind response_specs (\<lambda>rs.
     those (concat (map (\<lambda>(category, specs).
       map (\<lambda>s. map_option (\<lambda>rid. (rid, category)) (rule_id_native (fst (id_range category) + sp_offset s)))
         specs) (rq @ rs)))))"

end
