(* ===== verification/Waf_Engine_Built.thy ===== *)
theory Waf_Engine_Built
  imports Waf_Engine_Ref Waf_Detectors
begin

text \<open>
  What an engine built from a validated configuration contains, and that its rule lists satisfy
  the gate's condition: every rule it holds was compiled from a pattern, native or the operator's.
\<close>

section \<open>Custom rules\<close>

definition custom_compiled ::
  "('re, 'hir, 'ac) waf_libs \<Rightarrow> (string \<times> 're validated_custom_rule) list \<Rightarrow> 're compiled_custom_rule list" where
  "custom_compiled libs customs = map (\<lambda>(name, v). build_custom (wl_literal libs) name v) customs"

definition response_side_rule :: "'re compiled_custom_rule \<Rightarrow> bool" where
  "response_side_rule c \<longleftrightarrow> is_response_side (cc_category c)"

lemma custom_compiled_simps [simp]:
  "custom_compiled libs [] = []"
  "custom_compiled libs ((name, v) # customs) =
     build_custom (wl_literal libs) name v # custom_compiled libs customs"
  by (simp_all add: custom_compiled_def)

lemma find_seen: "find (\<lambda>(rid, _). rid = i) seen = None \<longleftrightarrow> i \<notin> fst ` set seen"
  by (auto simp: find_None_iff image_iff)

lemma build_customs_Ok:
  "build_customs libs customs seen rq rs = Ok (rq', rs') \<longleftrightarrow>
     (let cs = custom_compiled libs customs in
      distinct (map cc_id cs) \<and> set (map cc_id cs) \<inter> fst ` set seen = {} \<and>
      rq' = rq @ map (custom_request_rule (wl_decode libs) (wl_regex libs)) (filter (Not \<circ> response_side_rule) cs) \<and>
      rs' = rs @ map (custom_response_rule (wl_regex libs)) (filter response_side_rule cs))"
proof (induction customs arbitrary: seen rq rs)
  case Nil
  show ?case by auto
next
  case (Cons a customs)
  obtain name v where a: "a = (name, v)" by (cases a)
  let ?c = "build_custom (wl_literal libs) name v"
  show ?case
  proof (cases "cc_id ?c \<in> fst ` set seen")
    case True
    then obtain e where "find (\<lambda>(rid, _). rid = cc_id ?c) seen = Some e"
      using find_seen [of "cc_id ?c" seen] by auto
    with True show ?thesis by (cases e) (simp add: a Let_def)
  next
    case False
    then have "find (\<lambda>(rid, _). rid = cc_id ?c) seen = None" by (simp add: find_seen)
    with False show ?thesis
      by (cases "is_response_side (cc_category ?c)")
        (auto simp: a Let_def Cons.IH response_side_rule_def)
  qed
qed

lemma build_customs_Err:
  assumes "build_customs libs customs seen rq rs = Err e"
  shows "\<exists>name other. e = CustomRuleIdCollision name other (custom_id_for name) \<and> name \<in> fst ` set customs \<and>
    ((custom_id_for name, other) \<in> set seen \<or> other \<in> fst ` set customs \<and> custom_id_for other = custom_id_for name)"
  using assms
proof (induction customs arbitrary: seen rq rs)
  case (Cons a customs)
  obtain name v where a: "a = (name, v)" by (cases a)
  let ?c = "build_custom (wl_literal libs) name v"
  have id: "cc_id ?c = custom_id_for name" by (simp add: build_custom_def Let_def)
  show ?case
  proof (cases "find (\<lambda>(rid, _). rid = cc_id ?c) seen")
    case (Some p)
    then obtain other where p: "p = (cc_id ?c, other)" "p \<in> set seen"
      by (cases p) (auto dest!: find_SomeD)
    with Some Cons.prems show ?thesis
      by (intro exI [of _ name] exI [of _ other]) (simp add: a id Let_def)
  next
    case None
    let ?seen = "seen @ [(cc_id ?c, name)]"
    from None Cons.prems obtain rq' rs' where "build_customs libs customs ?seen rq' rs' = Err e"
      by (auto simp: a Let_def split: if_splits)
    from Cons.IH [OF this] show ?thesis by (auto simp: a id) force
  qed
qed simp

section \<open>Engines\<close>

definition built_customs ::
  "('re, 'hir, 'ac) waf_libs \<Rightarrow> 're validated_config \<Rightarrow> 're compiled_custom_rule list" where
  "built_customs libs v = custom_compiled libs (v_custom_rules v)"

lemma engine_build_Ok:
  "engine_build libs v rq rs = Ok en \<longleftrightarrow>
     distinct (map cc_id (built_customs libs v)) \<and>
     (let rq' = rq @ map (custom_request_rule (wl_decode libs) (wl_regex libs))
                       (filter (Not \<circ> response_side_rule) (built_customs libs v));
          rs' = rs @ map (custom_response_rule (wl_regex libs))
                       (filter response_side_rule (built_customs libs v)) in
      en = \<lparr>en_config = v, en_request_rules = rq', en_response_rules = rs',
            en_request_prefilter = prefilter_build (wl_ac libs) rq',
            en_response_prefilter = prefilter_build (wl_ac libs) rs',
            en_request_gates = resolve_gates v rq' False,
            en_response_gates = resolve_gates v rs' True\<rparr>)"
proof (cases "build_customs libs (v_custom_rules v) [] rq rs")
  case (Err e)
  with build_customs_Ok [of libs "v_custom_rules v" "[]" rq rs] show ?thesis
    by (auto simp: engine_build_def built_customs_def Let_def)
next
  case (Ok p)
  then obtain rq' rs' where p: "build_customs libs (v_custom_rules v) [] rq rs = Ok (rq', rs')"
    by (cases p) auto
  from p [unfolded build_customs_Ok] p show ?thesis
    by (auto simp: engine_build_def built_customs_def Let_def)
qed

text \<open>A rule list compiled from specs.\<close>

definition compiled_rules :: "'hir literal_lib \<Rightarrow> 're regex_lib \<Rightarrow> 're pattern_rule list \<Rightarrow> bool" where
  "compiled_rules ll lib ps \<longleftrightarrow>
     (\<forall>p\<in>set ps. \<exists>category s. pattern_rule_compile (required_needles ll) lib category s = Some p)"

definition libs_sound :: "('re, 'hir, 'ac) waf_libs \<Rightarrow> bool" where
  "libs_sound libs \<longleftrightarrow> automaton_ok (wl_ac libs) \<and> extractor_sound (wl_literal libs) (wl_regex libs)"

text \<open>An engine as the plugin makes it: native rules compiled from specs, a validated configuration.\<close>

definition engine_of ::
  "('re, 'hir, 'ac) waf_libs \<Rightarrow> waf_config \<Rightarrow> 're pattern_rule list \<Rightarrow> 're pattern_rule list \<Rightarrow>
     ('re, 'ac) rule_engine \<Rightarrow> bool" where
  "engine_of libs cfg prq prs en \<longleftrightarrow>
     compiled_rules (wl_literal libs) (wl_regex libs) (prq @ prs) \<and>
     (\<exists>v. waf_validate (wl_regex libs) cfg = Ok v \<and>
        engine_build libs v (map (pattern_request_rule (wl_decode libs) (wl_regex libs)) prq)
          (map (pattern_response_rule (wl_regex libs)) prs) = Ok en)"

lemma built_customs_sound:
  assumes "waf_validate (wl_regex libs) cfg = Ok v" and "c \<in> set (built_customs libs v)"
  shows "\<exists>pattern. fr_new (wl_regex libs) pattern = Ok (cc_pattern c) \<and>
    cc_needles c = required_needles (wl_literal libs) pattern"
proof -
  from assms obtain name rule where r: "(name, rule) \<in> set (wc_custom_rules cfg)"
      "c = build_custom (wl_literal libs) name (compile_custom (wl_regex libs) rule)"
    and ok: "\<forall>(name, rule)\<in>set (wc_custom_rules cfg). custom_ok (wl_regex libs) rule"
    by (auto simp: waf_validate_Ok built_customs_def custom_compiled_def)
  then have "is_Ok (fr_new (wl_regex libs) (cr_pattern rule))" by (auto simp: custom_ok_def)
  with r(2) show ?thesis
    by (intro exI [of _ "cr_pattern rule"]) (simp add: build_custom_def Let_def compile_custom_def)
qed

lemma engine_of_admissible:
  assumes "engine_of libs cfg prq prs en" "libs_sound libs"
  shows "length (en_request_rules en) \<le> 2 ^ 32 \<Longrightarrow>
      gate_admissible (wl_ac libs) (request_forms (wl_decode libs)) (en_request_rules en)"
    and "length (en_response_rules en) \<le> 2 ^ 32 \<Longrightarrow>
      gate_admissible (wl_ac libs) response_values (en_response_rules en)"
proof -
  from assms obtain v where v: "waf_validate (wl_regex libs) cfg = Ok v"
    and en: "engine_build libs v (map (pattern_request_rule (wl_decode libs) (wl_regex libs)) prq)
        (map (pattern_response_rule (wl_regex libs)) prs) = Ok en"
    and prq: "\<And>p. p \<in> set (prq @ prs) \<Longrightarrow> \<exists>category s. pattern_rule_compile
        (required_needles (wl_literal libs)) (wl_regex libs) category s = Some p"
    by (auto simp: engine_of_def compiled_rules_def)
  have ext: "extractor_sound (wl_literal libs) (wl_regex libs)" and ac: "automaton_ok (wl_ac libs)"
    using assms(2) by (simp_all add: libs_sound_def)
  have rq: "literals_sound (request_forms (wl_decode libs)) rule" if "rule \<in> set (en_request_rules en)" for rule
    using that en [unfolded engine_build_Ok] prq
    by (auto simp: Let_def dest!: built_customs_sound [OF v]
        intro: custom_rule_literals_sound(1) [OF ext] dest: pattern_rule_literals_sound(1) [OF ext])
  have rs: "literals_sound response_values rule" if "rule \<in> set (en_response_rules en)" for rule
    using that en [unfolded engine_build_Ok] prq
    by (auto simp: Let_def dest!: built_customs_sound [OF v]
        intro: custom_rule_literals_sound(2) [OF ext] dest: pattern_rule_literals_sound(2) [OF ext])
  show "length (en_request_rules en) \<le> 2 ^ 32 \<Longrightarrow>
      gate_admissible (wl_ac libs) (request_forms (wl_decode libs)) (en_request_rules en)"
    using ac rq by (simp add: gate_admissible_def)
  show "length (en_response_rules en) \<le> 2 ^ 32 \<Longrightarrow>
      gate_admissible (wl_ac libs) response_values (en_response_rules en)"
    using ac rs by (simp add: gate_admissible_def)
qed

end
