(* ===== verification/Waf_Body.thy ===== *)
theory Waf_Body
  imports Prelude
begin

text \<open>
  \<open>crates/pingap-waf/src/inspect.rs\<close>: the body accumulator that withholds chunks until a body
  can be judged, and the in-place mask. Chunks are byte strings; a \<open>None\<close> chunk is the empty
  trailing call.
\<close>

section \<open>The buffer\<close>

datatype OverCap = InspectPrefix | OcReject

datatype Feed = Hold | Release | PassThrough | FeedReject

record body_buffer =
  bb_limit :: usize
  bb_policy :: OverCap
  bb_buf :: string
  bb_released :: bool
  bb_truncated :: bool

definition body_buffer_new :: "usize \<Rightarrow> OverCap \<Rightarrow> body_buffer" where
  "body_buffer_new limit policy =
     \<lparr>bb_limit = limit, bb_policy = policy, bb_buf = [], bb_released = False, bb_truncated = False\<rparr>"

definition feed :: "body_buffer \<Rightarrow> string option \<Rightarrow> bool \<Rightarrow> Feed \<times> body_buffer" where
  "feed b chunk end_of_stream =
     (if bb_released b then (PassThrough, b)
      else (let b = (case chunk of Some bytes \<Rightarrow> b\<lparr>bb_buf := bb_buf b @ bytes\<rparr> | None \<Rightarrow> b) in
            if bb_limit b < length (bb_buf b)
            then (if bb_policy b = OcReject then (FeedReject, b)
                  else (Release, b\<lparr>bb_truncated := True, bb_released := True\<rparr>))
            else if end_of_stream then (Release, b\<lparr>bb_released := True\<rparr>)
            else (Hold, b)))"

definition inspected :: "body_buffer \<Rightarrow> string" where
  "inspected b = take (min (length (bb_buf b)) (bb_limit b)) (bb_buf b)"

definition body_take :: "body_buffer \<Rightarrow> string \<times> body_buffer" where
  "body_take b = (bb_buf b, b\<lparr>bb_buf := []\<rparr>)"

definition mask_body :: "string \<Rightarrow> usize \<Rightarrow> usize \<Rightarrow> bool \<times> string" where
  "mask_body body from len =
     (let stop = min (sat_add_usize from len) (length body) in
      if stop \<le> from then (False, body)
      else (True, take from body @ replicate (stop - from) CHR ''*'' @ drop stop body))"

section \<open>A whole body through the buffer\<close>

text \<open>
  A body is its chunks; the last one carries the end-of-stream flag. \<open>forwarded\<close> is what reaches
  the other side when every released prefix is allowed, as the callers do it.
\<close>

fun forwarded :: "body_buffer \<Rightarrow> (string option \<times> bool) list \<Rightarrow> string" where
  "forwarded b [] = []"
| "forwarded b ((chunk, eos) # chunks) =
     (case feed b chunk eos of
        (Hold, b') \<Rightarrow> forwarded b' chunks
      | (Release, b') \<Rightarrow> fst (body_take b') @ forwarded (snd (body_take b')) chunks
      | (PassThrough, b') \<Rightarrow> (case chunk of Some bytes \<Rightarrow> bytes | None \<Rightarrow> []) @ forwarded b' chunks
      | (FeedReject, b') \<Rightarrow> [])"

fun body_of :: "(string option \<times> bool) list \<Rightarrow> string" where
  "body_of [] = []"
| "body_of ((chunk, eos) # chunks) = (case chunk of Some bytes \<Rightarrow> bytes | None \<Rightarrow> []) @ body_of chunks"

definition ends_stream :: "(string option \<times> bool) list \<Rightarrow> bool" where
  "ends_stream chunks \<longleftrightarrow> (\<exists>(c, eos)\<in>set chunks. eos)"

definition chunk_bytes :: "string option \<Rightarrow> string" where
  "chunk_bytes chunk = (case chunk of Some bytes \<Rightarrow> bytes | None \<Rightarrow> [])"

lemma feed_cases:
  assumes "\<not> bb_released b"
  shows "feed b chunk eos =
    (let buf = bb_buf b @ chunk_bytes chunk in
     if bb_limit b < length buf
     then (if bb_policy b = OcReject then (FeedReject, b\<lparr>bb_buf := buf\<rparr>)
           else (Release, b\<lparr>bb_buf := buf, bb_truncated := True, bb_released := True\<rparr>))
     else if eos then (Release, b\<lparr>bb_buf := buf, bb_released := True\<rparr>)
     else (Hold, b\<lparr>bb_buf := buf\<rparr>))"
  using assms by (cases chunk) (simp_all add: feed_def Let_def chunk_bytes_def)

lemma feed_released: "bb_released b \<Longrightarrow> feed b chunk eos = (PassThrough, b)"
  by (simp add: feed_def)

lemma forwarded_released:
  "bb_released b \<Longrightarrow> bb_buf b = [] \<Longrightarrow> forwarded b chunks = body_of chunks"
  by (induction b chunks rule: forwarded.induct) (auto simp: feed_def)

lemma forwarded_identical:
  assumes "\<not> bb_released b" and "bb_policy b = InspectPrefix" and "ends_stream chunks"
  shows "forwarded b chunks = bb_buf b @ body_of chunks"
  using assms
proof (induction chunks arbitrary: b)
  case (Cons a chunks)
  obtain chunk eos where a: "a = (chunk, eos)" by (cases a)
  let ?buf = "bb_buf b @ chunk_bytes chunk"
  have body: "body_of (a # chunks) = chunk_bytes chunk @ body_of chunks"
    by (simp add: a chunk_bytes_def)
  note f = feed_cases [OF Cons.prems(1), of chunk eos]
  show ?case
  proof (cases "bb_limit b < length ?buf \<or> eos")
    case True
    then obtain b' where b': "feed b chunk eos = (Release, b')" "bb_buf b' = ?buf" "bb_released b'"
      using f Cons.prems(2) by (auto simp: Let_def split: if_splits)
    have "forwarded (b'\<lparr>bb_buf := []\<rparr>) chunks = body_of chunks"
      by (rule forwarded_released) (simp_all add: b')
    then show ?thesis
      unfolding body using b' by (simp add: a body_take_def)
  next
    case False
    have "feed b chunk eos = (Hold, b\<lparr>bb_buf := ?buf\<rparr>)"
      using f False by (simp add: Let_def)
    moreover have "ends_stream chunks"
      using Cons.prems(3) False by (simp add: a ends_stream_def)
    ultimately show ?thesis
      unfolding body using Cons.IH [of "b\<lparr>bb_buf := ?buf\<rparr>"] Cons.prems by (simp add: a)
  qed
qed (simp add: ends_stream_def)

text \<open>What is held while nothing has been released, and what a release inspects.\<close>

lemma feed_Hold:
  "feed b chunk eos = (Hold, b') \<Longrightarrow>
     \<not> bb_released b' \<and> bb_buf b' = bb_buf b @ chunk_bytes chunk \<and> length (bb_buf b') \<le> bb_limit b' \<and>
     bb_limit b' = bb_limit b \<and> bb_policy b' = bb_policy b"
  by (cases "bb_released b") (auto simp: feed_released feed_cases Let_def split: if_splits)

lemma feed_Release:
  "feed b chunk eos = (Release, b') \<Longrightarrow>
     bb_buf b' = bb_buf b @ chunk_bytes chunk \<and> bb_released b' \<and>
     inspected b' = take (bb_limit b) (bb_buf b @ chunk_bytes chunk) \<and>
     (\<not> bb_truncated b \<longrightarrow> (bb_truncated b' \<longleftrightarrow> bb_limit b < length (bb_buf b @ chunk_bytes chunk)))"
  by (cases "bb_released b")
    (auto simp: feed_released feed_cases Let_def inspected_def min_def split: if_splits)

lemma feed_Reject:
  "feed b chunk eos = (FeedReject, b') \<longleftrightarrow>
     \<not> bb_released b \<and> bb_policy b = OcReject \<and> bb_limit b < length (bb_buf b @ chunk_bytes chunk) \<and>
     b' = b\<lparr>bb_buf := bb_buf b @ chunk_bytes chunk\<rparr>"
  by (cases "bb_released b") (auto simp: feed_released feed_cases Let_def split: if_splits)

lemma forwarded_reject_nothing:
  assumes "\<not> bb_released b" and "bb_policy b = OcReject" and "length (bb_buf b) \<le> bb_limit b"
    and "bb_limit b < length (bb_buf b @ body_of chunks)"
    and "\<forall>(c, eos)\<in>set (butlast chunks). \<not> eos"
  shows "forwarded b chunks = []"
  using assms
proof (induction chunks arbitrary: b)
  case (Cons a chunks)
  obtain chunk eos where a: "a = (chunk, eos)" by (cases a)
  let ?buf = "bb_buf b @ chunk_bytes chunk"
  have body: "body_of (a # chunks) = chunk_bytes chunk @ body_of chunks"
    by (simp add: a chunk_bytes_def)
  note f = feed_cases [OF Cons.prems(1), of chunk eos]
  show ?case
  proof (cases "bb_limit b < length ?buf")
    case True
    with f Cons.prems(2) show ?thesis by (simp add: a Let_def)
  next
    case False
    with Cons.prems(4) have "chunks \<noteq> []" unfolding body by auto
    with Cons.prems(5) have "\<not> eos" "\<forall>(c, eos)\<in>set (butlast chunks). \<not> eos"
      by (auto simp: a)
    with False f Cons.prems Cons.IH [of "b\<lparr>bb_buf := ?buf\<rparr>"] show ?thesis
      unfolding body by (simp add: a Let_def)
  qed
qed simp

section \<open>The mask\<close>

lemma length_mask: "length (snd (mask_body body from len)) = length body"
  by (auto simp: mask_body_def Let_def min_def)

lemma mask_nth:
  assumes "i < length body"
  shows "snd (mask_body body from len) ! i =
    (if from \<le> i \<and> i < sat_add_usize from len then CHR ''*'' else body ! i)"
  using assms by (auto simp: mask_body_def Let_def nth_append min_def)

end
