(* ===== verification/Waf_Props.thy ===== *)
theory Waf_Props
  imports Waf_Engine_Built Waf_Body
begin

text \<open>
  The properties of the WAF engine. Hypotheses on third-party code are \<open>libs_sound\<close> (the literal
  extractor and the automaton do what they document) and, where the clock matters,
  \<open>clock_monotone\<close>. \<open>demo_libs\<close> instantiates them with a literal matcher.
\<close>

section \<open>A concrete library\<close>

primrec find_from :: "nat \<Rightarrow> string \<Rightarrow> string \<Rightarrow> (usize \<times> usize) option" where
  "find_from i needle [] = (if needle = [] then Some (i, i) else None)"
| "find_from i needle (c # rest) =
     (if prefix needle (c # rest) then Some (i, i + length needle) else find_from (Suc i) needle rest)"

definition demo_regex :: "string regex_lib" where
  "demo_regex = \<lparr>fr_new = Ok, fr_find = (\<lambda>re t. Ok (find_from 0 re t))\<rparr>"

definition demo_literal :: "string literal_lib" where
  "demo_literal = \<lparr>ll_parse = Some, ll_literals = (\<lambda>_ hir. Some [hir])\<rparr>"

definition demo_ac :: "string list ac_lib" where
  "demo_ac = \<lparr>ac_build = Some,
     ac_overlapping = (\<lambda>needles t. filter (\<lambda>j. occurs_in (needles ! j) t) [0..<length needles])\<rparr>"

definition demo_libs :: "(string, string, string list) waf_libs" where
  "demo_libs = \<lparr>wl_decode = (\<lambda>v. Some (Borrowed v)), wl_regex = demo_regex,
     wl_literal = demo_literal, wl_ac = demo_ac\<rparr>"

lemma find_from_contains: "find_from i needle hay = Some at \<Longrightarrow> str_contains hay needle"
  by (induction hay arbitrary: i)
    (auto simp: str_contains_def sublist_Cons_right prefix_imp_sublist split: if_splits)

lemma demo_libs_sound: "libs_sound demo_libs"
  by (auto simp: libs_sound_def demo_libs_def automaton_ok_def extractor_sound_def demo_ac_def
      demo_regex_def demo_literal_def dest: find_from_contains)

definition demo_waf_config :: waf_config where
  "demo_waf_config =
     \<lparr>wc_profile = ''default'', wc_categories = [(''sql_injection'', MBlock)], wc_paranoia = 1,
      wc_anomaly_threshold = 5, wc_budget_ms = 10, wc_on_budget_exhausted = PolicyAllow,
      wc_body_inspect_limit = 16, wc_response_prefix_limit = 16,
      wc_custom_rules = [(''probe'', \<lparr>cr_category = Xss, cr_pattern = ''probe'',
         cr_severity = Critical, cr_paranoia = 1, cr_action = Some MDetect\<rparr>)]\<rparr>"

definition demo_spec :: spec where
  "demo_spec = spec_new 1 ''union select'' Critical"

definition demo_prq :: "string pattern_rule list" where
  "demo_prq = (case pattern_rule_compile (required_needles demo_literal) demo_regex SqlInjection demo_spec of
     None \<Rightarrow> [] | Some p \<Rightarrow> [p])"

definition demo_engine :: "(string, string list) rule_engine" where
  "demo_engine = ok (engine_build demo_libs (ok (waf_validate demo_regex demo_waf_config))
     (map (pattern_request_rule (wl_decode demo_libs) demo_regex) demo_prq) [])"

definition demo_request :: request_input where
  "demo_request = \<lparr>ri_method = ''GET'', ri_uri = ''/?q=1 union select 2'', ri_headers = [],
     ri_query = [(''q'', ''1 union select 2'')], ri_body = Some ''probe'', ri_client_ip = None,
     ri_body_truncated = False\<rparr>"

definition demo_clock :: clock where
  "demo_clock = \<lparr>ck_check = (\<lambda>_. 3), ck_end = length\<rparr>"

lemma demo_engine_of: "engine_of demo_libs demo_waf_config demo_prq [] demo_engine"
proof -
  have v: "is_Ok (waf_validate demo_regex demo_waf_config)" by code_simp
  have e: "is_Ok (engine_build demo_libs (ok (waf_validate demo_regex demo_waf_config))
     (map (pattern_request_rule (wl_decode demo_libs) demo_regex) demo_prq) [])" by code_simp
  have "compiled_rules demo_literal demo_regex demo_prq"
    by (auto simp: compiled_rules_def demo_prq_def split: option.splits)
  with v e show ?thesis
    by (auto simp: engine_of_def demo_engine_def demo_libs_def is_Ok_def)
qed

lemma demo_engine_length: "length (en_request_rules demo_engine) = 2" "length (en_response_rules demo_engine) = 0"
  by code_simp+

lemma demo_clock_monotone: "clock_monotone (ck_check demo_clock)"
  by (simp add: clock_monotone_def demo_clock_def)

lemma demo_engine_budget: "v_budget (en_config demo_engine) = 10"
  by code_simp

section \<open>Evaluation\<close>

definition scoped_request :: "('re, 'ac) rule_engine \<Rightarrow> request_input \<Rightarrow> request_input" where
  "scoped_request en input = input\<lparr>ri_body := fst (clamp (ri_body input) (v_body_inspect_limit (en_config en)))\<rparr>"

definition scoped_response :: "('re, 'ac) rule_engine \<Rightarrow> response_input \<Rightarrow> response_input" where
  "scoped_response en input =
     input\<lparr>rp_body_chunk := fst (clamp (rp_body_chunk input) (v_response_prefix_limit (en_config en)))\<rparr>"

definition request_gated :: "('re, 'ac) rule_engine \<Rightarrow> (request_input rule \<times> Gate option) list" where
  "request_gated en = zip (en_request_rules en) (en_request_gates en)"

definition response_gated :: "('re, 'ac) rule_engine \<Rightarrow> (response_input rule \<times> Gate option) list" where
  "response_gated en = zip (en_response_rules en) (en_response_gates en)"

lemma engine_of_prefilters:
  assumes "engine_of libs cfg prq prs en"
  shows "en_request_prefilter en = prefilter_build (wl_ac libs) (en_request_rules en)"
    and "en_response_prefilter en = prefilter_build (wl_ac libs) (en_response_rules en)"
    and "en_request_gates en = resolve_gates (en_config en) (en_request_rules en) False"
    and "en_response_gates en = resolve_gates (en_config en) (en_response_rules en) True"
    and "waf_validate (wl_regex libs) cfg = Ok (en_config en)"
  using assms by (auto simp: engine_of_def engine_build_Ok Let_def)

lemma evaluate_request_ref:
  assumes "engine_of libs cfg prq prs en" "libs_sound libs" "length (en_request_rules en) \<le> 2 ^ 32"
  shows "\<exists>k. e_verdict (evaluate_request libs ck en input) =
        ref_request (v_anomaly_threshold (en_config en))
          (forced_by_policy (e_exhausted (evaluate_request libs ck en input)))
          (ref_hits (scoped_request en input) (take k (request_gated en))) \<and>
      unat (e_enforcing_score (evaluate_request libs ck en input)) =
        enforcing_of (ref_hits (scoped_request en input) (take k (request_gated en))) \<and>
      (e_exhausted (evaluate_request libs ck en input) = None \<longrightarrow> take k (request_gated en) = request_gated en)"
proof -
  let ?al = "wl_ac libs" and ?rules = "en_request_rules en" and ?t = "v_anomaly_threshold (en_config en)"
  let ?loop = "rule_loop (ck_check ck) (scoped_request en input)
      (mark_request (wl_decode libs) ?al (prefilter_build ?al ?rules) (scoped_request en input)
        (mark_inactive (en_request_gates en) (present_mask (prefilter_build ?al ?rules))))
      (enumerate 0 (zip ?rules (en_request_gates en))) []
      (budget_new (v_budget (en_config en)) (v_on_budget_exhausted (en_config en))) (scorer_new ?t)"
  obtain s b ex evald where loop: "?loop = (s, b, ex, evald)" by (cases ?loop)
  from request_gate.gated_loop_ref [OF engine_of_admissible(1) [OF assms] loop]
  obtain k where k: "s = record_all (scorer_new ?t) (ref_hits (scoped_request en input) (take k (request_gated en)))"
    "ex = None \<longrightarrow> take k (request_gated en) = request_gated en"
    by (auto simp: request_gated_def)
  have "evaluate_request libs ck en input =
      \<lparr>e_verdict = finish_request s (forced_by_policy ex), e_rules_checked = bu_checked b,
       e_truncated = (snd (clamp (ri_body input) (v_body_inspect_limit (en_config en))) \<or> ri_body_truncated input),
       e_exhausted = ex, e_elapsed = ck_end ck evald, e_enforcing_score = s_enforcing s\<rparr>"
    using loop
    by (simp add: evaluate_request_def Let_def split_beta engine_of_prefilters [OF assms(1)] scoped_request_def)
  with k show ?thesis
    by (intro exI [of _ k]) (simp add: finish_request_ref record_new_scores)
qed

lemma evaluate_response_ref:
  assumes "engine_of libs cfg prq prs en" "libs_sound libs" "length (en_response_rules en) \<le> 2 ^ 32"
  shows "\<exists>k. e_verdict (evaluate_response libs ck en input) =
        ref_response (v_anomaly_threshold (en_config en))
          (ref_hits (scoped_response en input) (take k (response_gated en))) \<and>
      (e_exhausted (evaluate_response libs ck en input) = None \<longrightarrow> take k (response_gated en) = response_gated en)"
proof -
  let ?al = "wl_ac libs" and ?rules = "en_response_rules en" and ?t = "v_anomaly_threshold (en_config en)"
  let ?loop = "rule_loop (ck_check ck) (scoped_response en input)
      (mark_response ?al (prefilter_build ?al ?rules) (scoped_response en input)
        (mark_inactive (en_response_gates en) (present_mask (prefilter_build ?al ?rules))))
      (enumerate 0 (zip ?rules (en_response_gates en))) []
      (budget_new (v_budget (en_config en)) (v_on_budget_exhausted (en_config en))) (scorer_new ?t)"
  obtain s b ex evald where loop: "?loop = (s, b, ex, evald)" by (cases ?loop)
  from response_gate.gated_loop_ref [OF engine_of_admissible(2) [OF assms] loop]
  obtain k where k: "s = record_all (scorer_new ?t) (ref_hits (scoped_response en input) (take k (response_gated en)))"
    "ex = None \<longrightarrow> take k (response_gated en) = response_gated en"
    by (auto simp: response_gated_def)
  have "e_verdict (evaluate_response libs ck en input) = finish_response s"
    "e_exhausted (evaluate_response libs ck en input) = ex"
    using loop
    by (simp_all add: evaluate_response_def Let_def split_beta engine_of_prefilters [OF assms(1)] scoped_response_def)
  with k show ?thesis
    by (intro exI [of _ k]) (simp add: finish_response_ref)
qed

text \<open>C1: An engine built from a validated configuration answers a request exactly as the
  reference definition does on the rules it reached: the hits of the participating rules in list
  order, their capped sum compared with the threshold. The literal prefilter, the scorer's
  saturating counters and the present mask are invisible, and if the budget was not exhausted every
  rule was reached.\<close>
theorem waf_request_refines_reference:
  assumes "engine_of libs cfg prq prs en" and "libs_sound libs" and "length (en_request_rules en) \<le> 2 ^ 32"
  shows "\<exists>k. e_verdict (evaluate_request libs ck en input) =
        ref_request (wc_anomaly_threshold cfg)
          (forced_by_policy (e_exhausted (evaluate_request libs ck en input)))
          (ref_hits (scoped_request en input) (take k (request_gated en))) \<and>
      (e_exhausted (evaluate_request libs ck en input) = None \<longrightarrow> take k (request_gated en) = request_gated en)"
  using evaluate_request_ref [OF assms, of ck input]
    waf_validate_Ok(1) [OF engine_of_prefilters(5) [OF assms(1)]] by auto

theorem waf_request_refines_reference_witness:
  "\<exists>k. e_verdict (evaluate_request demo_libs demo_clock demo_engine demo_request) =
        ref_request 5
          (forced_by_policy (e_exhausted (evaluate_request demo_libs demo_clock demo_engine demo_request)))
          (ref_hits (scoped_request demo_engine demo_request) (take k (request_gated demo_engine))) \<and>
      (e_exhausted (evaluate_request demo_libs demo_clock demo_engine demo_request) = None \<longrightarrow>
        take k (request_gated demo_engine) = request_gated demo_engine)"
  using waf_request_refines_reference [OF demo_engine_of demo_libs_sound, of demo_clock demo_request]
  by (simp add: demo_engine_length demo_waf_config_def)

text \<open>C18: The prefilter is transparent. Against the same engine with a gate that passes every rule
  (the source's \<open>Prefilter::always\<close>), on a clock that never reads later when fewer rules have run:
  whenever the ungated evaluation finishes within its budget, so does the gated one, with the same
  verdict and enforcing score. Exhaustion can only lift.\<close>
theorem waf_prefilter_transparent:
  assumes "engine_of libs cfg prq prs en" and "libs_sound libs" and "length (en_request_rules en) \<le> 2 ^ 32"
    and "clock_monotone (ck_check ck)"
    and "e_exhausted (evaluate_request libs ck
           (en\<lparr>en_request_prefilter := prefilter_always (length (en_request_rules en))\<rparr>) input) = None"
  shows "e_exhausted (evaluate_request libs ck en input) = None \<and>
    e_verdict (evaluate_request libs ck en input) =
      e_verdict (evaluate_request libs ck
        (en\<lparr>en_request_prefilter := prefilter_always (length (en_request_rules en))\<rparr>) input) \<and>
    e_enforcing_score (evaluate_request libs ck en input) =
      e_enforcing_score (evaluate_request libs ck
        (en\<lparr>en_request_prefilter := prefilter_always (length (en_request_rules en))\<rparr>) input)"
proof -
  let ?rules = "en_request_rules en" and ?gates = "en_request_gates en"
  let ?full = "mark_inactive ?gates (replicate (length ?rules) True)"
  let ?loop = "\<lambda>present. rule_loop (ck_check ck) (scoped_request en input) present
      (enumerate 0 (zip ?rules ?gates)) []
      (budget_new (v_budget (en_config en)) (v_on_budget_exhausted (en_config en)))
      (scorer_new (v_anomaly_threshold (en_config en)))"
  obtain s b ex evald where full: "?loop ?full = (s, b, ex, evald)" by (cases "?loop ?full")
  have u: "e_exhausted (evaluate_request libs ck (en\<lparr>en_request_prefilter := prefilter_always (length ?rules)\<rparr>) input) = ex"
      "e_verdict (evaluate_request libs ck (en\<lparr>en_request_prefilter := prefilter_always (length ?rules)\<rparr>) input) =
         finish_request s (forced_by_policy ex)"
      "e_enforcing_score (evaluate_request libs ck (en\<lparr>en_request_prefilter := prefilter_always (length ?rules)\<rparr>) input) =
         s_enforcing s"
    using full
    by (simp_all add: evaluate_request_def Let_def split_beta scoped_request_def prefilter_always_def
        present_mask_def mark_request_def)
  with assms(5) full have none: "?loop ?full = (s, b, None, evald)" "ex = None" by simp_all
  have "\<forall>i<length ?full. ?full ! i" by (simp add: mark_inactive_mono)
  from request_gate.gated_loop_lift [OF engine_of_admissible(1) [OF assms(1-3)] assms(4) _ this none(1)]
  obtain b' evald' where
    "?loop (mark_request (wl_decode libs) (wl_ac libs) (prefilter_build (wl_ac libs) ?rules)
      (scoped_request en input) (mark_inactive ?gates (present_mask (prefilter_build (wl_ac libs) ?rules))))
      = (s, b', None, evald')" by auto
  then show ?thesis
    by (simp add: u none(2) evaluate_request_def [of libs ck en] Let_def split_beta
        engine_of_prefilters [OF assms(1)] scoped_request_def)
qed

lemma rule_loop_finishes:
  assumes "\<And>xs. clk xs < limit"
  shows "rule_loop clk input present items evald b s = (s', b', ex, evald') \<Longrightarrow> bu_limit b = limit \<Longrightarrow> ex = None"
proof (induction items arbitrary: evald b s)
  case (Cons item items)
  obtain index rule gate where item: "item = (index, rule, gate)" by (cases item)
  have "budget_check (clk evald) b = (Ok (), b\<lparr>bu_checked := sat_add (bu_checked b) 1\<rparr>)"
    using assms [of evald] Cons.prems(2) by (simp add: budget_check_def)
  with Cons.prems show ?case
    by (auto simp: item split: option.splits if_splits dest: Cons.IH)
qed simp

lemma evaluate_request_finishes:
  assumes "\<And>xs. ck_check ck xs < v_budget (en_config en)"
  shows "e_exhausted (evaluate_request libs ck en input) = None"
proof -
  have "fst (snd (snd (rule_loop (ck_check ck) i present items []
      (budget_new (v_budget (en_config en)) policy) s))) = None" for i :: request_input and present items policy s
    using rule_loop_finishes [of "ck_check ck", OF assms] by (metis budget_new_def budget.select_convs(1) prod.collapse)
  then show ?thesis by (simp add: evaluate_request_def Let_def split_beta)
qed

theorem waf_prefilter_transparent_witness:
  "e_verdict (evaluate_request demo_libs demo_clock demo_engine demo_request) =
     e_verdict (evaluate_request demo_libs demo_clock
        (demo_engine\<lparr>en_request_prefilter := prefilter_always (length (en_request_rules demo_engine))\<rparr>) demo_request)"
proof -
  have "e_exhausted (evaluate_request demo_libs demo_clock
      (demo_engine\<lparr>en_request_prefilter := prefilter_always (length (en_request_rules demo_engine))\<rparr>) demo_request) = None"
    by (rule evaluate_request_finishes) (simp add: demo_engine_budget demo_clock_def)
  then show ?thesis
    using waf_prefilter_transparent [OF demo_engine_of demo_libs_sound _ demo_clock_monotone]
    by (simp add: demo_engine_length)
qed

section \<open>Modes\<close>

lemma ref_hits_gates: "g \<in> snd ` set (ref_hits input rgs) \<Longrightarrow> Some g \<in> snd ` set rgs"
  by (force simp: ref_hits_def List.map_filter_def split: option.splits)

lemma no_enforcing_gate:
  assumes "\<And>g. Some g \<in> snd ` set rgs \<Longrightarrow> \<not> can_enforce g"
  shows "enforcing_of (ref_hits input (take k rgs)) = 0"
proof -
  have "filter (can_enforce \<circ> snd) (ref_hits input (take k rgs)) = []"
    using assms ref_hits_gates [of _ input "take k rgs"] set_take_subset [of k rgs]
    by (fastforce simp: filter_empty_conv)
  then show ?thesis by (simp add: enforcing_of_def score_of_def hit_sum_def)
qed

lemma ref_request_enforcing:
  "rq_is_enforcing (ref_request t forced hgs) \<longleftrightarrow> forced \<or> unat t \<le> enforcing_of hgs"
  by (simp add: ref_request_def Let_def)

text \<open>A configuration that asks for no request-side enforcement anywhere.\<close>

definition detect_only :: "waf_config \<Rightarrow> bool" where
  "detect_only cfg \<longleftrightarrow>
     list_all (\<lambda>(_, m). m \<noteq> MBlock \<and> m \<noteq> MChallenge) (wc_categories cfg) \<and>
     list_all (\<lambda>(_, r). cr_action r \<noteq> Some MBlock \<and> cr_action r \<noteq> Some MChallenge) (wc_custom_rules cfg)"

lemma detect_only_gates:
  assumes "engine_of libs cfg prq prs en" and "detect_only cfg" and "Some g \<in> set (en_request_gates en)"
  shows "\<not> can_enforce g"
proof -
  note en = engine_of_prefilters [OF assms(1)]
  from assms(3) en(3) obtain rule where rule: "rule \<in> set (en_request_rules en)"
    and g: "g = resolve_gate (gate_of_request_mode (request_mode (en_config en) (r_category rule)))
      (r_action_override rule) False"
    by (auto simp: resolve_gates_def Let_def split: if_splits)
  have "r_action_override rule \<noteq> Some MBlock \<and> r_action_override rule \<noteq> Some MChallenge"
    using rule assms(1,2) waf_validate_Ok(10) [OF en(5)]
    by (fastforce simp: engine_of_def engine_build_Ok Let_def detect_only_def list_all_iff built_customs_def
        custom_compiled_def build_custom_def compile_custom_def custom_request_rule_def
        pattern_request_rule_def)
  moreover have "\<not> can_enforce (gate_of_request_mode (request_mode (en_config en) c))" for c
  proof -
    have "as_request_mode raw \<noteq> RqBlock \<and> as_request_mode raw \<noteq> RqChallenge"
      if "map_of (rev (wc_categories cfg)) (category_key c) = Some raw" for raw
      using assms(2) map_of_SomeD [OF that] by (cases raw) (auto simp: detect_only_def list_all_iff)
    then show ?thesis
      unfolding waf_validate_modes(1) [OF en(5)]
      by (auto simp: can_enforce_def split: option.splits)
         (metis gate_of_request_mode.simps RequestMode.exhaust Gate.distinct)+
  qed
  ultimately show ?thesis
    unfolding g
    by (cases "r_action_override rule"; cases "the (r_action_override rule)") (auto simp: can_enforce_def)
qed

text \<open>C24: With every category in \<open>off\<close> or \<open>detect\<close> and no custom rule asking to block or
  challenge, no request is blocked or challenged on its score, whatever the rules find. The only
  enforcing verdict left is the opt-in budget policy: the evaluation ran out of time under
  \<open>on_budget_exhausted = block\<close>.\<close>
theorem waf_detect_only_never_enforces:
  assumes "engine_of libs cfg prq prs en" and "libs_sound libs" and "length (en_request_rules en) \<le> 2 ^ 32"
    and "detect_only cfg"
  shows "e_enforcing_score (evaluate_request libs ck en input) = 0 \<and>
    (rq_is_enforcing (e_verdict (evaluate_request libs ck en input)) \<longleftrightarrow>
      forced_by_policy (e_exhausted (evaluate_request libs ck en input)))"
proof -
  have "\<not> can_enforce g" if "Some g \<in> snd ` set (request_gated en)" for g
    using that detect_only_gates [OF assms(1,4)] set_zip_rightD by (fastforce simp: request_gated_def)
  then have zero: "enforcing_of (ref_hits i (take k (request_gated en))) = 0" for i k
    by (intro no_enforcing_gate) blast
  have "v_anomaly_threshold (en_config en) \<noteq> 0"
    using waf_validate_Ok(2) [OF engine_of_prefilters(5) [OF assms(1)]] .
  then have "\<not> unat (v_anomaly_threshold (en_config en)) \<le> 0" by (simp add: unat_eq_0)
  moreover from evaluate_request_ref [OF assms(1-3), of ck input] obtain k where
    "e_verdict (evaluate_request libs ck en input) = ref_request (v_anomaly_threshold (en_config en))
      (forced_by_policy (e_exhausted (evaluate_request libs ck en input)))
      (ref_hits (scoped_request en input) (take k (request_gated en)))"
    "unat (e_enforcing_score (evaluate_request libs ck en input)) =
      enforcing_of (ref_hits (scoped_request en input) (take k (request_gated en)))" by blast
  ultimately show ?thesis by (simp add: ref_request_enforcing zero unat_eq_0)
qed

definition demo_detect_config :: waf_config where
  "demo_detect_config = demo_waf_config\<lparr>wc_categories := [(''sql_injection'', MDetect)]\<rparr>"

definition demo_detect_engine :: "(string, string list) rule_engine" where
  "demo_detect_engine = ok (engine_build demo_libs (ok (waf_validate demo_regex demo_detect_config))
     (map (pattern_request_rule (wl_decode demo_libs) demo_regex) demo_prq) [])"

lemma demo_detect_engine_of: "engine_of demo_libs demo_detect_config demo_prq [] demo_detect_engine"
proof -
  have v: "is_Ok (waf_validate demo_regex demo_detect_config)" by code_simp
  have e: "is_Ok (engine_build demo_libs (ok (waf_validate demo_regex demo_detect_config))
     (map (pattern_request_rule (wl_decode demo_libs) demo_regex) demo_prq) [])" by code_simp
  have "compiled_rules demo_literal demo_regex demo_prq"
    by (auto simp: compiled_rules_def demo_prq_def split: option.splits)
  with v e show ?thesis
    by (auto simp: engine_of_def demo_detect_engine_def demo_libs_def is_Ok_def)
qed

theorem waf_detect_only_never_enforces_witness:
  "\<not> rq_is_enforcing (e_verdict (evaluate_request demo_libs demo_clock demo_detect_engine demo_request))"
proof -
  have "length (en_request_rules demo_detect_engine) = 2" "v_budget (en_config demo_detect_engine) = 10"
    by code_simp+
  then show ?thesis
    using waf_detect_only_never_enforces [OF demo_detect_engine_of demo_libs_sound, of demo_clock demo_request]
      evaluate_request_finishes [of demo_clock demo_detect_engine demo_libs demo_request]
    by (simp add: demo_clock_def detect_only_def demo_detect_config_def demo_waf_config_def
        forced_by_policy_def)
qed

end
