(* ===== verification/Waf_Rule_Props.thy ===== *)
theory Waf_Rule_Props
  imports Waf_Props
begin

text \<open>
  Further properties of the WAF's parts: rule identity, the response surface, configuration
  validation, the text a body contributes, and the body buffer.
\<close>

section \<open>Rule identity\<close>








section \<open>Configuration\<close>

text \<open>C29: A configuration validates exactly when its threshold, budget and body limit are positive,
  every category key is known with an action its surface can perform, and every custom rule
  compiles, passes the cost check and names an available action. A validated configuration then
  gives each category the mode written last for it, \<open>detect\<close> where none is written, and \<open>off\<close> on the
  surface that is not its own.\<close>
theorem waf_validate_accepts_iff:
  "(is_Ok (waf_validate lib cfg) \<longleftrightarrow>
     wc_anomaly_threshold cfg \<noteq> 0 \<and> wc_budget_ms cfg \<noteq> 0 \<and> wc_body_inspect_limit cfg \<noteq> 0 \<and>
     categories_ok (wc_categories cfg) \<and> list_all (\<lambda>(name, rule). custom_ok lib rule) (wc_custom_rules cfg)) \<and>
   (\<forall>v c. waf_validate lib cfg = Ok v \<longrightarrow>
      request_mode v c =
        (if is_response_side c then RqOff
         else (case map_of (rev (wc_categories cfg)) (category_key c) of
                 Some raw \<Rightarrow> as_request_mode raw | None \<Rightarrow> RqDetect)) \<and>
      response_mode v c =
        (if \<not> is_response_side c then RsOff
         else (case map_of (rev (wc_categories cfg)) (category_key c) of
                 Some raw \<Rightarrow> as_response_mode raw | None \<Rightarrow> RsDetect)))"
  using waf_validate_is_Ok [of lib cfg] waf_validate_modes [of lib cfg] by (auto simp: list_all_iff)

theorem waf_validate_accepts_iff_witness:
  "request_mode (ok (waf_validate demo_regex demo_waf_config)) SqlInjection = RqBlock"
proof -
  have "waf_validate demo_regex demo_waf_config = Ok (ok (waf_validate demo_regex demo_waf_config))"
    by code_simp
  with waf_validate_accepts_iff [of demo_regex demo_waf_config] show ?thesis
    by (auto simp: demo_waf_config_def)
qed

text \<open>The cost check does not reject the classic exponential pattern its message names: it
  counts quantified groups and needs two of them, so \<open>(a+)+\<close> is accepted while the linear
  \<open>(ab)+(cd)+\<close> is refused as nested.\<close>
theorem waf_cost_check_misses_nested:
  "cost_check ''(a+)+'' = Ok () \<and> cost_check ''(ab)+(cd)+'' = Err NestedQuantifiers"
  by code_simp

section \<open>The response surface\<close>

lemma rule_loop_cong:
  "(\<And>index rule gate. (index, rule, gate) \<in> set items \<Longrightarrow> r_evaluate rule input = r_evaluate rule input') \<Longrightarrow>
     rule_loop clk input present items evald b s = rule_loop clk input' present items evald b s"
proof (induction items arbitrary: evald b s)
  case (Cons item items)
  obtain index rule gate where item: "item = (index, rule, gate)" by (cases item)
  have "r_evaluate rule input = r_evaluate rule input'"
    by (rule Cons.prems [of index rule gate]) (simp add: item)
  moreover have "rule_loop clk input present items evald b s = rule_loop clk input' present items evald b s" for evald b s
    by (rule Cons.IH) (rule Cons.prems, erule list.set_intros(2))
  ultimately show ?case
    by (auto simp: item split: option.split result.split prod.split)
qed simp

lemma find_in_response_score: "find_in_response (input\<lparr>rp_request_score := x\<rparr>) hdr finder = find_in_response input hdr finder"
  by (simp add: find_in_response_def cong: option.case_cong)

lemma response_score_irrelevant:
  "r_evaluate (custom_response_rule lib c) (input\<lparr>rp_request_score := x\<rparr>) = r_evaluate (custom_response_rule lib c) input"
  "r_evaluate (pattern_response_rule lib p) (input\<lparr>rp_request_score := x\<rparr>) = r_evaluate (pattern_response_rule lib p) input"
  by (simp_all add: custom_response_rule_def pattern_response_rule_def find_in_response_score)

text \<open>A response is judged on its own: the score its request earned, carried for correlation,
  changes nothing about the evaluation of the response.\<close>
theorem waf_response_ignores_request_score:
  assumes "engine_of libs cfg prq prs en"
  shows "evaluate_response libs ck en (input\<lparr>rp_request_score := x\<rparr>) = evaluate_response libs ck en input"
proof -
  let ?body = "fst (clamp (rp_body_chunk input) (v_response_prefix_limit (en_config en)))"
  have "r_evaluate rule (input\<lparr>rp_request_score := x, rp_body_chunk := ?body\<rparr>) =
      r_evaluate rule (input\<lparr>rp_body_chunk := ?body\<rparr>)" if "rule \<in> set (en_response_rules en)" for rule
  proof -
    have eq: "input\<lparr>rp_request_score := x, rp_body_chunk := ?body\<rparr> = input\<lparr>rp_body_chunk := ?body\<rparr>\<lparr>rp_request_score := x\<rparr>"
      by simp
    from that assms consider p where "rule = pattern_response_rule (wl_regex libs) p"
      | c where "rule = custom_response_rule (wl_regex libs) c"
      by (auto simp: engine_of_def engine_build_Ok Let_def)
    then show ?thesis unfolding eq by cases (simp_all only: response_score_irrelevant)
  qed
  then have "rule_loop clk (input\<lparr>rp_request_score := x, rp_body_chunk := ?body\<rparr>) present
        (enumerate 0 (zip (en_response_rules en) (en_response_gates en))) evald b s =
      rule_loop clk (input\<lparr>rp_body_chunk := ?body\<rparr>) present
        (enumerate 0 (zip (en_response_rules en) (en_response_gates en))) evald b s" for clk present evald b s
    by (intro rule_loop_cong) (auto simp: in_set_enumerate_eq)
  moreover have "mark_response al pf (input\<lparr>rp_request_score := x, rp_body_chunk := ?body\<rparr>) m =
      mark_response al pf (input\<lparr>rp_body_chunk := ?body\<rparr>) m" for al :: "'c ac_lib" and pf m
    by (simp add: mark_response_def response_values_def split: option.split)
  ultimately show ?thesis
    by (simp add: evaluate_response_def Let_def split_beta)
qed

definition demo_response :: response_input where
  "demo_response = \<lparr>rp_status = 200, rp_headers = [(''x'', ''y'')], rp_body_chunk = Some ''ok'',
     rp_request_score = 3, rp_body_truncated = False\<rparr>"

theorem waf_response_ignores_request_score_witness:
  "evaluate_response demo_libs demo_clock demo_engine (demo_response\<lparr>rp_request_score := 99\<rparr>) =
     evaluate_response demo_libs demo_clock demo_engine demo_response"
  by (rule waf_response_ignores_request_score [OF demo_engine_of])



section \<open>The text of a body\<close>

text \<open>The text a body contributes to matching is its longest valid UTF-8 prefix: a prefix of
  the bytes, valid, and no shorter than any other valid prefix.\<close>
theorem waf_text_prefix_longest:
  "prefix (text_prefix bytes) bytes \<and> utf8_valid (text_prefix bytes) \<and>
     (\<forall>p. prefix p bytes \<and> utf8_valid p \<longrightarrow> prefix p (text_prefix bytes))"
proof -
  have t: "text_prefix bytes = take (valid_up_to bytes) bytes"
    using utf8_valid_take_valid_up_to [of bytes]
    by (auto simp: text_prefix_def from_utf8_def utf8_valid_def)
  have "prefix p (text_prefix bytes)" if "prefix p bytes" "utf8_valid p" for p
    using that valid_prefix_le_valid_up_to [of p "drop (length p) bytes"] unfolding t
    by (auto simp: prefix_def)
  then show ?thesis
    using utf8_valid_take_valid_up_to [of bytes] by (auto simp: t take_is_prefix)
qed

theorem waf_text_prefix_longest_witness: "prefix ''ab'' (text_prefix [CHR ''a'', CHR ''b'', CHR 0xFF])"
proof -
  have "utf8_valid ''ab''" by code_simp
  with waf_text_prefix_longest [of "[CHR ''a'', CHR ''b'', CHR 0xFF]"] show ?thesis by simp
qed

section \<open>The body buffer\<close>

text \<open>C25: Under the inspect-prefix policy the bytes forwarded over a whole stream are exactly the
  bytes received, in order: chunks held for inspection are released with the chunk that triggers
  the inspection, and later chunks pass through, however the body was split.\<close>
theorem waf_body_forwarded_identical:
  assumes "ends_stream chunks"
  shows "forwarded (body_buffer_new limit InspectPrefix) chunks = body_of chunks"
  using forwarded_identical [of "body_buffer_new limit InspectPrefix" chunks] assms
  by (simp add: body_buffer_new_def)

theorem waf_body_forwarded_identical_witness:
  "forwarded (body_buffer_new 4 InspectPrefix) [(Some ''abc'', False), (Some ''def'', False), (None, True)] =
     ''abcdef''"
  using waf_body_forwarded_identical [of "[(Some ''abc'', False), (Some ''def'', False), (None, True)]" 4]
  by (simp add: ends_stream_def)

text \<open>Under the reject policy not one byte of a body longer than the limit is forwarded,
  however it was split into chunks.\<close>
theorem waf_body_over_cap_rejected:
  assumes "limit < length (body_of chunks)" and "\<forall>(c, eos)\<in>set (butlast chunks). \<not> eos"
  shows "forwarded (body_buffer_new limit OcReject) chunks = []"
  using forwarded_reject_nothing [of "body_buffer_new limit OcReject" chunks] assms
  by (simp add: body_buffer_new_def)

theorem waf_body_over_cap_rejected_witness:
  "forwarded (body_buffer_new 4 OcReject) [(Some ''abc'', False), (Some ''def'', True)] = []"
  using waf_body_over_cap_rejected [of 4 "[(Some ''abc'', False), (Some ''def'', True)]"] by simp

text \<open>Masking a span keeps the length of the body, overwrites exactly the bytes of the span
  that lie in the body with asterisks, and leaves every other byte as it was, also when the end of
  the span overflows.\<close>
theorem waf_mask_exact:
  "length (snd (mask_body body from len)) = length body \<and>
     (\<forall>i<length body. snd (mask_body body from len) ! i =
        (if from \<le> i \<and> i < sat_add_usize from len then CHR ''*'' else body ! i))"
  using length_mask mask_nth by blast

theorem waf_mask_exact_witness: "snd (mask_body ''secret=42;'' 7 2) ! 8 = CHR ''*''"
  using waf_mask_exact [of "''secret=42;''" 7 2]
  by (auto simp: sat_add_usize_def usize_max_def)

end
