(* ===== verification/Waf_Native_Ids.thy ===== *)
theory Waf_Native_Ids
  imports Waf_Detectors
begin

text \<open>
  The identifiers of the native tables: every table builds, every offset stays in its category's
  range, and no two patterns share an identifier.
\<close>

lemma spec_offsets:
  "map_option (map (unat \<circ> sp_offset)) sql_injection_specs = Some
          [1, 10, 11, 12, 13, 14, 15, 16, 20, 21, 30, 31, 32, 33, 40, 50, 60, 70, 80, 81, 82,
      90, 91, 95, 96]"
  "map_option (map (unat \<circ> sp_offset)) xss_specs = Some
     [1, 2, 10, 20, 21, 22, 23, 24, 25, 30, 31, 40, 41, 42]"
  "map_option (map (unat \<circ> sp_offset)) path_traversal_specs = Some
          [1, 2, 3, 4, 5, 6, 7, 8, 9, 10, 11, 12, 13, 14, 15, 16, 17, 18, 100, 101, 102, 103,
      104, 105, 106, 107, 108, 109, 110, 111, 112, 150, 151, 152, 153, 154, 200, 201, 202, 203,
      204, 205, 206, 207, 208]"
  "map_option (map (unat \<circ> sp_offset)) command_injection_specs = Some
          [1, 10, 11, 12, 20, 21, 22, 30, 31, 32, 33, 34, 35, 36, 37, 38, 39, 40, 41, 50, 51,
      52, 60, 61, 62, 63, 70, 71, 72, 73, 74, 75]"
  "map_option (map (unat \<circ> sp_offset)) data_leakage_specs = Some
     [1, 2, 3, 4, 5, 6, 7, 8, 30, 31, 32, 33, 34, 60, 61, 62, 63, 64, 65, 90, 91, 92, 93]"
  "map_option (map (unat \<circ> sp_offset)) web_shell_specs = Some
     [1, 2, 3, 4, 30, 31, 32, 33, 34, 35, 36, 60, 61, 62, 63, 64, 65]"
  by (simp_all only: sql_injection_specs_def xss_specs_def path_traversal_specs_def
      command_injection_specs_def data_leakage_specs_def web_shell_specs_def)
    (simp_all add: spec_new_def spec_at_def paranoia_new_def)

lemma those_Some: "those (map (\<lambda>x. Some (f x)) xs) = Some (map f xs)"
  by (induction xs) simp_all

lemma offset_owned: "unat offset \<le> 999 \<Longrightarrow> owns_id c (fst (id_range c) + offset)"
  by (cases c) (auto simp: owns_id_def id_range_def Let_def word_le_nat_alt unat_word_ariths)

definition table_ok :: "spec list \<Rightarrow> bool" where
  "table_ok specs \<longleftrightarrow> distinct (map sp_offset specs) \<and> (\<forall>s\<in>set specs. unat (sp_offset s) \<le> 999)"

lemma table_okI:
  assumes "map (unat \<circ> sp_offset) specs = offs" "sorted_wrt (<) offs" "list_all (\<lambda>n. n \<le> 999) offs"
  shows "table_ok specs"
proof -
  have "distinct (map (unat \<circ> sp_offset) specs)"
    using assms(1,2) strict_sorted_iff by blast
  then have "distinct (map sp_offset specs)"
    by (auto simp: distinct_map inj_on_def)
  moreover have "\<forall>s\<in>set specs. unat (sp_offset s) \<le> 999"
    using assms(1,3) by (auto simp: list_all_iff)
  ultimately show ?thesis by (simp add: table_ok_def)
qed

definition ids_of :: "(Category \<times> spec list) list \<Rightarrow> (rule_id \<times> Category) list" where
  "ids_of sets = concat (map (\<lambda>(c, specs). map (\<lambda>s. (fst (id_range c) + sp_offset s, c)) specs) sets)"

lemma ids_of_owned:
  assumes "\<forall>(c, specs)\<in>set sets. table_ok specs" "(rid, c) \<in> set (ids_of sets)"
  shows "owns_id c rid"
proof -
  from assms(2) obtain specs s where "(c, specs) \<in> set sets" "s \<in> set specs"
    "rid = fst (id_range c) + sp_offset s" by (auto simp: ids_of_def)
  moreover from this(1) assms(1) have "table_ok specs" by blast
  ultimately show ?thesis using offset_owned by (simp add: table_ok_def)
qed

lemma ids_of_distinct:
  assumes "distinct (map fst sets)" "\<forall>(c, specs)\<in>set sets. table_ok specs"
  shows "distinct (map fst (ids_of sets))"
  using assms
proof (induction sets)
  case (Cons a sets)
  obtain c specs where a: "a = (c, specs)" by (cases a)
  have own: "owns_id c (fst (id_range c) + sp_offset s)" if "s \<in> set specs" for s
    using Cons.prems(2) that offset_owned by (auto simp: a table_ok_def)
  have "rid \<noteq> fst (id_range c) + sp_offset s" if "(rid, d) \<in> set (ids_of sets)" "s \<in> set specs" for rid d s
  proof -
    have "d \<in> fst ` set sets" using that(1) by (force simp: ids_of_def)
    with Cons.prems(1) have "d \<noteq> c" by (auto simp: a)
    moreover have "owns_id d rid" using ids_of_owned that(1) Cons.prems(2) by (force simp: a)
    ultimately show ?thesis using own [OF that(2)] owns_id_unique by blast
  qed
  moreover have "distinct (map (\<lambda>s. fst (id_range c) + sp_offset s) specs)"
    using Cons.prems(2) by (auto simp: a table_ok_def distinct_map inj_on_def)
  moreover have "ids_of (a # sets) = map (\<lambda>s. (fst (id_range c) + sp_offset s, c)) specs @ ids_of sets"
    by (simp add: a ids_of_def)
  moreover have "distinct (map fst (ids_of sets))" using Cons by simp
  ultimately show ?case by (fastforce simp: comp_def)
qed (simp add: ids_of_def)

lemma native_ids_of:
  assumes "request_specs = Some rq" "response_specs = Some rs" "\<forall>(c, specs)\<in>set (rq @ rs). table_ok specs"
  shows "native_rule_ids = Some (ids_of (rq @ rs))"
proof -
  have native: "rule_id_native (fst (id_range c) + sp_offset s) = Some (fst (id_range c) + sp_offset s)"
    if "(c, specs) \<in> set (rq @ rs)" "s \<in> set specs" for c specs s
  proof -
    from that(1) assms(3) have "table_ok specs" by blast
    with that(2) show ?thesis by (intro id_range_native [OF offset_owned]) (simp add: table_ok_def)
  qed
  have "concat (map (\<lambda>(c, specs). map (\<lambda>s. map_option (\<lambda>rid. (rid, c))
      (rule_id_native (fst (id_range c) + sp_offset s))) specs) (rq @ rs)) = map Some (ids_of (rq @ rs))"
    unfolding ids_of_def map_concat by (intro arg_cong [of _ _ concat]) (auto, (rule native, auto)+)
  then show ?thesis
    using those_Some [of "\<lambda>x. x" "ids_of (rq @ rs)"]
    by (simp add: native_rule_ids_def assms(1,2))
qed

lemma those_tables:
  "list_all (\<lambda>(c, t). t \<noteq> None) ts \<Longrightarrow>
     those (map (\<lambda>(c, s). map_option (Pair c) s) ts) = Some (map (apsnd the) ts)"
  by (induction ts) auto

lemma table_ok_offsets:
  assumes "map_option (map (unat \<circ> sp_offset)) t = Some offs"
    and "sorted_wrt (<) offs" "list_all (\<lambda>n. n \<le> 999) offs"
  shows "t \<noteq> None \<and> table_ok (the t)"
  using assms by (cases t) (auto intro: table_okI)

lemma tables_ok:
  "sql_injection_specs \<noteq> None \<and> table_ok (the sql_injection_specs)"
  "xss_specs \<noteq> None \<and> table_ok (the xss_specs)"
  "path_traversal_specs \<noteq> None \<and> table_ok (the path_traversal_specs)"
  "command_injection_specs \<noteq> None \<and> table_ok (the command_injection_specs)"
  "data_leakage_specs \<noteq> None \<and> table_ok (the data_leakage_specs)"
  "web_shell_specs \<noteq> None \<and> table_ok (the web_shell_specs)"
  by (rule table_ok_offsets [OF spec_offsets(1)] table_ok_offsets [OF spec_offsets(2)]
      table_ok_offsets [OF spec_offsets(3)] table_ok_offsets [OF spec_offsets(4)]
      table_ok_offsets [OF spec_offsets(5)] table_ok_offsets [OF spec_offsets(6)], simp, simp)+

text \<open>C30: No native pattern table panics while it is built; every native rule's identifier lies in
  the range reserved for its category, and no two native rules of either surface share one.\<close>
theorem waf_native_ids_sound:
  "\<exists>ids. native_rule_ids = Some ids \<and> distinct (map fst ids) \<and> list_all (\<lambda>(rid, c). owns_id c rid) ids"
proof -
  let ?rq = "map (apsnd the) [(SqlInjection, sql_injection_specs), (Xss, xss_specs),
        (LocalFileInclusion, path_traversal_specs), (RemoteCodeExecution, command_injection_specs)]"
  let ?rs = "map (apsnd the) [(DataLeakage, data_leakage_specs), (WebShell, web_shell_specs)]"
  have rq: "request_specs = Some ?rq" and rs: "response_specs = Some ?rs"
    unfolding request_specs_def response_specs_def
    by (rule those_tables; use tables_ok in simp)+
  have ok: "\<forall>(c, specs)\<in>set (?rq @ ?rs). table_ok specs" and d: "distinct (map fst (?rq @ ?rs))"
    using tables_ok by simp_all
  show ?thesis
    unfolding native_ids_of [OF rq rs ok]
    using ids_of_distinct [OF d ok] ids_of_owned [OF ok] by (auto simp: list_all_iff)
qed

end
