(* ===== verification/Waf_Interleave.thy ===== *)
theory Waf_Interleave
  imports Waf_Detectors "HOL-Library.Multiset"
begin

text \<open>
  \<open>interleave\<close> of \<open>detectors/mod.rs\<close> is a fair merge: it keeps every rule, and any prefix of it (the
  rules a budget let run) gives two categories shares that differ by at most one rule, until the
  smaller category is used up.
\<close>

section \<open>Nothing is lost\<close>

lemma interleave_round_Cons:
  "interleave_round ((c, q) # qs) = (if q = [] then [] else [(c, hd q)]) @ interleave_round qs"
  by (cases q) (simp_all add: interleave_round_def)

lemma interleave_round_Nil [simp]: "interleave_round [] = []"
  by (simp add: interleave_round_def)

definition tagged :: "(Category \<times> 'a list) list \<Rightarrow> (Category \<times> 'a) list" where
  "tagged sets = concat (map (\<lambda>(c, q). map (Pair c) q) sets)"

lemma mset_round:
  "mset (interleave_round qs) + mset (tagged (map (apsnd (drop 1)) qs)) = mset (tagged qs)"
proof (induction qs)
  case (Cons a qs)
  obtain c q where a: "a = (c, q)" by (cases a)
  from Cons show ?case
    by (cases q) (auto simp: a interleave_round_Cons tagged_def ac_simps)
qed (simp add: tagged_def)

lemma mset_rounds:
  "\<forall>(c, q)\<in>set qs. length q \<le> n \<Longrightarrow> mset (interleave_rounds n qs) = mset (tagged qs)"
proof (induction n arbitrary: qs)
  case 0
  then have "tagged qs = []" by (auto simp: tagged_def)
  then show ?case by simp
next
  case (Suc n)
  have "\<forall>(c, q)\<in>set (map (apsnd (drop 1)) qs). length q \<le> n"
    using Suc.prems by fastforce
  from Suc.IH [OF this] mset_round [of qs] show ?case by simp
qed

lemma longest: "(c, q) \<in> set sets \<Longrightarrow> length q \<le> foldr max (map (length \<circ> snd) sets) 0"
  by (induction sets) (auto simp: le_max_iff_disj)

lemma mset_interleave: "mset (interleave sets) = mset (tagged sets)"
  using longest by (auto simp: interleave_def Let_def intro!: mset_rounds)

section \<open>Fair shares\<close>

definition share :: "Category \<Rightarrow> (Category \<times> 'a) list \<Rightarrow> nat" where
  "share c xs = length (filter (\<lambda>(d, _). d = c) xs)"

lemma share_simps [simp]:
  "share c [] = 0" "share c ((d, x) # xs) = (if d = c then Suc (share c xs) else share c xs)"
  "share c (xs @ ys) = share c xs + share c ys"
  by (simp_all add: share_def)

lemma share_round_absent: "c \<notin> fst ` set qs \<Longrightarrow> share c (interleave_round qs) = 0"
  by (induction qs) (auto simp: interleave_round_Cons)

lemma share_round:
  "distinct (map fst qs) \<Longrightarrow> (c, q) \<in> set qs \<Longrightarrow>
     share c (interleave_round qs) = (if q = [] then 0 else 1)"
  by (induction qs) (force simp: interleave_round_Cons share_round_absent)+

lemma share_take_le: "share c (take k xs) \<le> share c xs"
  by (metis append_take_drop_id le_add1 share_simps(3))

lemma share_rounds_le:
  "distinct (map fst qs) \<Longrightarrow> (c, q) \<in> set qs \<Longrightarrow> share c (interleave_rounds n qs) \<le> length q"
proof (induction n arbitrary: qs q)
  case (Suc n)
  have "distinct (map fst (map (apsnd (drop 1)) qs))" "(c, drop 1 q) \<in> set (map (apsnd (drop 1)) qs)"
    using Suc.prems by (force simp: comp_def)+
  from Suc.IH [OF this] share_round [OF Suc.prems] show ?case by (cases q) auto
qed simp

lemma rounds_fair:
  assumes "distinct (map fst qs)" "(c, qc) \<in> set qs" "(d, qd) \<in> set qs"
  shows "share d (take k (interleave_rounds n qs)) \<le> share c (take k (interleave_rounds n qs)) + 1 \<or>
    share c (take k (interleave_rounds n qs)) = length qc"
  using assms
proof (induction n arbitrary: k qs qc qd)
  case (Suc n)
  let ?r = "interleave_round qs" and ?qs = "map (apsnd (drop 1)) qs"
  have sub: "distinct (map fst ?qs)" "(c, drop 1 qc) \<in> set ?qs" "(d, drop 1 qd) \<in> set ?qs"
    using Suc.prems by (force simp: comp_def)+
  show ?case
  proof (cases "k \<le> length ?r")
    case True
    then have "share d (take k (interleave_rounds (Suc n) qs)) \<le> share d ?r"
      using share_take_le [of d k ?r] by simp
    with share_round [OF Suc.prems(1,3)] show ?thesis by (auto split: if_splits)
  next
    case False
    then have t: "share x (take k (interleave_rounds (Suc n) qs)) =
        share x ?r + share x (take (k - length ?r) (interleave_rounds n ?qs))" for x
      by simp
    have "share c (take (k - length ?r) (interleave_rounds n ?qs)) \<le> length (drop 1 qc)"
      using share_rounds_le [OF sub(1,2)] share_take_le order_trans by blast
    with Suc.IH [OF sub, of "k - length ?r"] share_round [OF Suc.prems(1,2)] share_round [OF Suc.prems(1,3)]
    show ?thesis unfolding t by (cases qc) (auto split: if_splits)
  qed
qed simp

text \<open>C28: The interleaving of the per-category pattern lists keeps every pattern with its
  category, and is fair: among the rules of any prefix, a category never trails another by more
  than one unless all its own rules are already in that prefix.\<close>
theorem waf_interleave_fair:
  assumes "distinct (map fst sets)" and "(c, qc) \<in> set sets" and "(d, qd) \<in> set sets"
  shows "mset (interleave sets) = mset (tagged sets) \<and>
    (share d (take k (interleave sets)) \<le> share c (take k (interleave sets)) + 1 \<or>
     share c (take k (interleave sets)) = length qc)"
  using mset_interleave rounds_fair [OF assms] by (auto simp: interleave_def Let_def)

theorem waf_interleave_fair_witness:
  "share Xss (take 3 (interleave [(SqlInjection, [1, 2, 3 :: nat]), (Xss, [4, 5])])) \<le>
     share SqlInjection (take 3 (interleave [(SqlInjection, [1, 2, 3 :: nat]), (Xss, [4, 5])])) + 1"
  using waf_interleave_fair [of "[(SqlInjection, [1, 2, 3 :: nat]), (Xss, [4, 5])]" SqlInjection "[1, 2, 3]" Xss "[4, 5]" 3]
  by (simp add: interleave_def interleave_round_def numeral_2_eq_2 numeral_3_eq_3)

end
