(* ===== verification/Http_Header.thy ===== *)
theory Http_Header
  imports Client_Ip
begin

text \<open>
  \<open>pingap-core/src/http_header.rs\<close>: the readers of a request's headers, cookies and query that the
  gateway's components share, and the configured headers. A request's URI is what its accessors return.
\<close>

section \<open>Requests with a URI\<close>

record http_session = session +
  wq_uri :: string
  wq_path :: string
  wq_query :: "string option"

definition get_req_header_value :: "http_lib \<Rightarrow> (string \<times> string) list \<Rightarrow> string \<Rightarrow> string option" where
  "get_req_header_value http headers key =
     (case hl_get http headers key of Some v \<Rightarrow> hl_to_str http v | None \<Rightarrow> None)"

fun find_map :: "('a \<Rightarrow> 'b option) \<Rightarrow> 'a list \<Rightarrow> 'b option" where
  "find_map f [] = None"
| "find_map f (x # xs) = (case f x of Some y \<Rightarrow> Some y | None \<Rightarrow> find_map f xs)"

definition cookie_item :: "string \<Rightarrow> string \<Rightarrow> string option" where
  "cookie_item cookie_name item =
     (case strip_prefix cookie_name (str_trim item) of
        None \<Rightarrow> None
      | Some rest \<Rightarrow>
          (case strip_prefix ''='' rest of
             Some v \<Rightarrow> Some v
           | None \<Rightarrow>
               (case split_once CHR ''='' item of
                  None \<Rightarrow> None
                | Some (k, v) \<Rightarrow> if str_trim k = cookie_name then Some (str_trim v) else None)))"

definition get_cookie_value :: "http_lib \<Rightarrow> (string \<times> string) list \<Rightarrow> string \<Rightarrow> string option" where
  "get_cookie_value http headers cookie_name =
     (case get_req_header_value http headers ''cookie'' of
        None \<Rightarrow> None
      | Some cookies \<Rightarrow> find_map (cookie_item cookie_name) (split_on CHR '';'' cookies))"

definition query_item :: "string \<Rightarrow> string \<Rightarrow> string option" where
  "query_item name item =
     (case split_once CHR ''='' item of
        None \<Rightarrow> None
      | Some (k, v) \<Rightarrow> if k = name then Some v else None)"

definition get_query_value :: "string option \<Rightarrow> string \<Rightarrow> string option" where
  "get_query_value query name =
     (case query of None \<Rightarrow> None | Some q \<Rightarrow> find_map (query_item name) (split_on CHR ''&'' q))"

section \<open>Removing a query parameter\<close>

definition query_key :: "string \<Rightarrow> string" where
  "query_key item = hd (split_on CHR ''='' item)"

definition remove_query :: "string \<Rightarrow> string \<Rightarrow> string" where
  "remove_query name query_str =
     foldl (\<lambda>new_query item.
              if query_key item = name then new_query
              else (if new_query = [] then item else new_query @ ''&'' @ item))
       [] (split_on CHR ''&'' query_str)"

text \<open>\<open>from_str\<close> is the URI parser: what the accessors of the parsed text return, or its error.\<close>

definition remove_query_from_header ::
  "(string \<Rightarrow> (string option \<times> string \<times> string option, 'e) result) \<Rightarrow> string \<Rightarrow> http_session
     \<Rightarrow> (http_session, 'e) result" where
  "remove_query_from_header from_str name s =
     (case wq_query s of
        None \<Rightarrow> Ok s
      | Some query_str \<Rightarrow>
          (let new_query = remove_query name query_str;
               new_uri = (if new_query = [] then wq_path s else wq_path s @ ''?'' @ new_query) in
           result_bind (from_str new_uri) (\<lambda>(host, path, query).
             Ok (s\<lparr>se_uri_host := host, wq_uri := new_uri, wq_path := path, wq_query := query\<rparr>))))"

section \<open>Configured headers\<close>

datatype header_error = InvalidHeaderName string | InvalidHeaderValue string

definition convert_header ::
  "(string \<Rightarrow> string option) \<Rightarrow> http_lib \<Rightarrow> string \<Rightarrow> ((string \<times> string) option, header_error) result" where
  "convert_header name_from_str http header =
     (case split_once CHR '':'' header of
        None \<Rightarrow> Ok None
      | Some (k, v) \<Rightarrow>
          (case name_from_str (str_trim k) of
             None \<Rightarrow> Err (InvalidHeaderName k)
           | Some name \<Rightarrow>
               if hl_value_ok http (str_trim v) then Ok (Some (name, str_trim v))
               else Err (InvalidHeaderValue v)))"

fun convert_headers ::
  "(string \<Rightarrow> string option) \<Rightarrow> http_lib \<Rightarrow> string list \<Rightarrow> ((string \<times> string) list, header_error) result" where
  "convert_headers nf http [] = Ok []"
| "convert_headers nf http (item # items) =
     (case convert_header nf http item of
        Err e \<Rightarrow> Err e
      | Ok None \<Rightarrow> convert_headers nf http items
      | Ok (Some h) \<Rightarrow> result_bind (convert_headers nf http items) (\<lambda>hs. Ok (h # hs)))"

end
