(* ===== verification/Waf_Ip_Filter.thy ===== *)
theory Waf_Ip_Filter
  imports Ip_Rules
begin

text \<open>
  \<open>crates/pingap-waf/src/ip_filter.rs\<close>: the allow or deny list that runs before any rule. It is
  the third caller of the address set, through the laws of \<open>entry_list\<close>.
\<close>

datatype ListMode = LmDeny | LmAllow

record 'n ip_filter =
  if_mode :: ListMode
  if_rules :: "'n ip_rules"
  if_entries :: usize

definition ip_filter_new :: "'n ipnet_lib \<Rightarrow> ListMode \<Rightarrow> string list \<Rightarrow> ('n ip_filter, string) result" where
  "ip_filter_new lib mode entries =
     (let rules = ip_rules_new lib entries in
      if ip_rules_len rules \<noteq> length entries
      then Err (''`ip_list` entry `'' @ bad_entry lib entries @ ''` is not an IP address or CIDR range'')
      else Ok \<lparr>if_mode = mode, if_rules = rules, if_entries = length entries\<rparr>)"

definition ip_filter_is_empty :: "'n ip_filter \<Rightarrow> bool" where
  "ip_filter_is_empty f \<longleftrightarrow> if_entries f = 0"

definition rejects :: "'n ipnet_lib \<Rightarrow> 'n ip_filter \<Rightarrow> string \<Rightarrow> bool" where
  "rejects lib f ip =
     (let matched = (case ip_is_match lib (if_rules f) ip of Ok b \<Rightarrow> b | Err _ \<Rightarrow> False) in
      case if_mode f of LmDeny \<Rightarrow> matched | LmAllow \<Rightarrow> \<not> matched)"

text \<open>What the written list says of an address text.\<close>

definition listed :: "'n ipnet_lib \<Rightarrow> string list \<Rightarrow> string \<Rightarrow> bool" where
  "listed lib entries ip =
     (case parse_addr ip of Some a \<Rightarrow> list_ex (\<lambda>v. entry_covers lib v a) entries | None \<Rightarrow> False)"

lemma rejects_listed:
  assumes "ip_filter_new lib mode entries = Ok f"
  shows "rejects lib f ip = (case mode of LmDeny \<Rightarrow> listed lib entries ip | LmAllow \<Rightarrow> \<not> listed lib entries ip)"
  using assms
  by (cases "parse_addr ip")
    (auto simp: ip_filter_new_def Let_def rejects_def ip_is_match_def listed_def is_match_addr_new
      list_ex_iff split: if_splits ListMode.split)

lemma ip_filter_new_Ok_iff:
  "is_Ok (ip_filter_new lib mode entries) \<longleftrightarrow>
     list_all (entry_ok lib) entries \<and> distinct (List.map_filter (entry_addr lib) entries)"
  using ip_rules_len_eq_iff [of lib entries] by (simp add: ip_filter_new_def Let_def)

text \<open>An entry that does not parse is the one the error names.\<close>

lemma ip_filter_new_names_entry:
  assumes "v \<in> set entries" and "\<not> entry_ok lib v"
  shows "\<exists>w\<in>set entries. \<not> entry_ok lib w \<and>
    ip_filter_new lib mode entries = Err (''`ip_list` entry `'' @ w @ ''` is not an IP address or CIDR range'')"
  using ipr.unreadable_is_reported(2) [OF assms] bad_entry_unreadable [OF assms]
  by (auto simp: ip_filter_new_def Let_def)

end
