(* ===== verification/Event_Queue.thy ===== *)
theory Event_Queue
  imports Prelude
begin

text \<open>
  \<open>crates/pingap-events/src/lib.rs\<close>: the bounded queue between the request path and the event
  writer. Each operation is one hold of the queue's lock; the counters are 64-bit and wrap. The
  lemmas account for every offered notification and say what is lost when the queue is full.
\<close>

section \<open>Notifications\<close>

datatype Verdict = VBlock | VRedact | VDetect

definition verdict_droppable :: "Verdict \<Rightarrow> bool" where
  "verdict_droppable v \<longleftrightarrow> v = VDetect"

record WafEvent =
  we_node :: string
  we_domain :: string
  we_profile :: string
  we_rule_id :: "u32 option"
  we_category :: "string option"
  we_severity :: "string option"
  we_score :: u32
  we_verdict :: Verdict
  we_client_ip :: "string option"
  we_method :: "string option"
  we_uri :: "string option"
  we_created_at :: int

definition blocked_flag :: "WafEvent \<Rightarrow> bool" where
  "blocked_flag e \<longleftrightarrow> we_verdict e = VBlock"

datatype NativeKind = NkDetected | NkCreated | NkReleased | NkExpired

fun native_action :: "NativeKind \<Rightarrow> string" where
  "native_action NkDetected = ''native.abuse.detected''"
| "native_action NkCreated = ''native.ban.created''"
| "native_action NkReleased = ''native.ban.released''"
| "native_action NkExpired = ''native.ban.expired''"

record NativeActor =
  na_id :: "string option"
  na_username :: string

definition native_actor_default :: NativeActor where
  "native_actor_default = \<lparr>na_id = None, na_username = ''system''\<rparr>"

record NativeLifecycle =
  nl_version :: u8
  nl_kind :: NativeKind
  nl_id :: string
  nl_epoch :: string
  nl_profile :: string
  nl_domain :: string
  nl_client_ip :: string
  nl_scenario :: string
  nl_mode :: string
  nl_created_at_ms :: u64
  nl_expires_at_ms :: "u64 option"
  nl_observed_at_ms :: u64
  nl_actor :: NativeActor
  nl_reason :: string

datatype Notification = NWaf WafEvent | NNative NativeLifecycle

fun droppable :: "Notification \<Rightarrow> bool" where
  "droppable (NWaf e) = verdict_droppable (we_verdict e)"
| "droppable (NNative _) = False"

fun is_native :: "Notification \<Rightarrow> bool" where
  "is_native (NWaf _) = False"
| "is_native (NNative _) = True"

section \<open>The queue\<close>

datatype Admission = AdQueued | EvictedADetect | Counted | Dropped

record Counters =
  ct_offered :: u64
  ct_queued :: u64
  ct_dropped_detect :: u64
  ct_evicted_detect :: u64
  ct_counted_enforced :: u64
  ct_dropped_enforced :: u64
  ct_dropped_lifecycle :: u64
  ct_dropped_native_detection :: u64
  ct_queued_lifecycle :: u64
  ct_write_failures :: u64
  ct_lifecycle_write_failures :: u64

definition counters_default :: Counters where
  "counters_default = \<lparr>ct_offered = 0, ct_queued = 0, ct_dropped_detect = 0, ct_evicted_detect = 0,
     ct_counted_enforced = 0, ct_dropped_enforced = 0, ct_dropped_lifecycle = 0,
     ct_dropped_native_detection = 0, ct_queued_lifecycle = 0, ct_write_failures = 0,
     ct_lifecycle_write_failures = 0\<rparr>"

record EventQueue =
  eq_capacity :: usize
  eq_queue :: "Notification list"
  eq_counters :: Counters

definition event_queue_new :: "usize \<Rightarrow> EventQueue option" where
  "event_queue_new capacity =
     (if capacity > 0
      then Some \<lparr>eq_capacity = capacity, eq_queue = [], eq_counters = counters_default\<rparr>
      else None)"

text \<open>\<open>iter().position(droppable)\<close> and \<open>remove(victim)\<close>: the oldest droppable notification.\<close>

fun remove_first :: "('a \<Rightarrow> bool) \<Rightarrow> 'a list \<Rightarrow> 'a list option" where
  "remove_first P [] = None"
| "remove_first P (x # xs) = (if P x then Some xs else map_option (Cons x) (remove_first P xs))"

definition admit_event :: "usize \<Rightarrow> Notification list \<Rightarrow> Notification \<Rightarrow> Admission \<times> Notification list" where
  "admit_event capacity queue event =
     (if length queue < capacity then (AdQueued, queue @ [event])
      else if droppable event then (Dropped, queue)
      else (case remove_first droppable queue of
              Some rest \<Rightarrow> (EvictedADetect, rest @ [event])
            | None \<Rightarrow> (Counted, queue)))"

definition count_native :: "Notification \<Rightarrow> Admission \<Rightarrow> Counters \<Rightarrow> Counters" where
  "count_native event admission c =
     (case event of
        NWaf _ \<Rightarrow> c
      | NNative e \<Rightarrow>
          if admission \<in> {AdQueued, EvictedADetect}
          then c\<lparr>ct_queued_lifecycle := ct_queued_lifecycle c + 1\<rparr>
          else (let c = c\<lparr>ct_dropped_lifecycle := ct_dropped_lifecycle c + 1\<rparr> in
                if nl_kind e = NkDetected
                then c\<lparr>ct_dropped_native_detection := ct_dropped_native_detection c + 1\<rparr> else c))"

definition count_admission :: "Notification \<Rightarrow> Admission \<Rightarrow> Counters \<Rightarrow> Counters" where
  "count_admission event admission c =
     (case admission of
        AdQueued \<Rightarrow> c\<lparr>ct_queued := ct_queued c + 1\<rparr>
      | Dropped \<Rightarrow> c\<lparr>ct_dropped_detect := ct_dropped_detect c + 1\<rparr>
      | EvictedADetect \<Rightarrow> c\<lparr>ct_evicted_detect := ct_evicted_detect c + 1, ct_queued := ct_queued c + 1\<rparr>
      | Counted \<Rightarrow>
          if is_native event then c else c\<lparr>ct_counted_enforced := ct_counted_enforced c + 1\<rparr>)"

definition offer_notification :: "Notification \<Rightarrow> EventQueue \<Rightarrow> Admission \<times> EventQueue" where
  "offer_notification event q =
     (let c = (eq_counters q)\<lparr>ct_offered := ct_offered (eq_counters q) + 1\<rparr>;
          (admission, queue) = admit_event (eq_capacity q) (eq_queue q) event in
      (admission, q\<lparr>eq_queue := queue,
         eq_counters := count_admission event admission (count_native event admission c)\<rparr>))"

definition offer :: "WafEvent \<Rightarrow> EventQueue \<Rightarrow> Admission \<times> EventQueue" where
  "offer event q = offer_notification (NWaf event) q"

definition offer_native :: "NativeLifecycle \<Rightarrow> EventQueue \<Rightarrow> Admission \<times> EventQueue" where
  "offer_native event q = offer_notification (NNative event) q"

text \<open>The loop of \<open>drain\<close>: \<open>i\<close> is the position of the first notification not yet looked at.\<close>

function drain_loop :: "usize \<Rightarrow> nat \<Rightarrow> Notification list \<Rightarrow> WafEvent list \<Rightarrow> WafEvent list \<times> Notification list" where
  "drain_loop limit i queue events =
     (if i < length queue \<and> length events < limit
      then (case queue ! i of
              NWaf e \<Rightarrow> drain_loop limit i (take i queue @ drop (Suc i) queue) (events @ [e])
            | NNative _ \<Rightarrow> drain_loop limit (i + 1) queue events)
      else (events, queue))"
  by pat_completeness auto
termination
  by (relation "measure (\<lambda>(limit, i, queue, events). length queue - i)") auto

declare drain_loop.simps [simp del]

definition drain :: "usize \<Rightarrow> EventQueue \<Rightarrow> WafEvent list \<times> EventQueue" where
  "drain limit q =
     (let (events, queue) = drain_loop limit 0 (eq_queue q) [] in (events, q\<lparr>eq_queue := queue\<rparr>))"

definition drain_notifications :: "usize \<Rightarrow> EventQueue \<Rightarrow> Notification list \<times> EventQueue" where
  "drain_notifications limit q =
     (let count = min limit (length (eq_queue q)) in
      (take count (eq_queue q), q\<lparr>eq_queue := drop count (eq_queue q)\<rparr>))"

definition record_write_failure :: "bool \<Rightarrow> EventQueue \<Rightarrow> EventQueue" where
  "record_write_failure includes_native q =
     (let c = (eq_counters q)\<lparr>ct_write_failures := ct_write_failures (eq_counters q) + 1\<rparr> in
      q\<lparr>eq_counters := (if includes_native
          then c\<lparr>ct_lifecycle_write_failures := ct_lifecycle_write_failures c + 1\<rparr> else c)\<rparr>)"

definition pending_lifecycle :: "EventQueue \<Rightarrow> usize" where
  "pending_lifecycle q = length (filter is_native (eq_queue q))"

text \<open>The process-wide cell is written once.\<close>

definition install_queue :: "'q \<Rightarrow> 'q option \<Rightarrow> (unit, 'q) result \<times> 'q option" where
  "install_queue q cell = (case cell of None \<Rightarrow> (Ok (), Some q) | Some _ \<Rightarrow> (Err q, cell))"

section \<open>Draining\<close>

fun waf_events :: "Notification list \<Rightarrow> WafEvent list" where
  "waf_events [] = []"
| "waf_events (NWaf e # ns) = e # waf_events ns"
| "waf_events (NNative _ # ns) = waf_events ns"

text \<open>What is left after the first \<open>n\<close> WAF events are taken out.\<close>

fun skip_waf :: "nat \<Rightarrow> Notification list \<Rightarrow> Notification list" where
  "skip_waf n [] = []"
| "skip_waf n (NNative l # ns) = NNative l # skip_waf n ns"
| "skip_waf 0 (NWaf e # ns) = NWaf e # ns"
| "skip_waf (Suc n) (NWaf e # ns) = skip_waf n ns"

lemma skip_waf_0 [simp]: "skip_waf 0 ns = ns"
  by (induction "0 :: nat" ns rule: skip_waf.induct) auto

lemma drain_loop_spec:
  "i \<le> length queue \<Longrightarrow>
     drain_loop limit i queue events =
       (events @ take (limit - length events) (waf_events (drop i queue)),
        take i queue @ skip_waf (limit - length events) (drop i queue))"
proof (induction limit i queue events rule: drain_loop.induct)
  case (1 limit i queue events)
  show ?case
  proof (cases "i < length queue \<and> length events < limit")
    case False
    then have "i = length queue \<or> limit - length events = 0" using 1(3) by auto
    then show ?thesis using False by (subst drain_loop.simps) auto
  next
    case True
    then have d: "drop i queue = queue ! i # drop (Suc i) queue" by (simp add: Cons_nth_drop_Suc)
    show ?thesis
    proof (cases "queue ! i")
      case (NWaf e)
      obtain k where k: "limit - length events = Suc k" using True by (metis Suc_diff_Suc)
      then have k': "limit - length (events @ [e]) = k" by simp
      have le: "i \<le> length (take i queue @ drop (Suc i) queue)" using True by auto
      have "drain_loop limit i (take i queue @ drop (Suc i) queue) (events @ [e]) =
        ((events @ [e]) @ take k (waf_events (drop (Suc i) queue)),
         take i queue @ skip_waf k (drop (Suc i) queue))"
        using 1(1) [OF True NWaf le] True k' by simp
      then show ?thesis
        using True NWaf by (subst drain_loop.simps) (simp add: d k)
    next
      case (NNative l)
      have "drain_loop limit (i + 1) queue events =
        (events @ take (limit - length events) (waf_events (drop (Suc i) queue)),
         take (Suc i) queue @ skip_waf (limit - length events) (drop (Suc i) queue))"
        using 1(2) [OF True NNative] True by simp
      then show ?thesis
        using True NNative by (subst drain_loop.simps) (simp add: d take_Suc_conv_app_nth)
    qed
  qed
qed

lemma drain_spec:
  "drain limit q = (take limit (waf_events (eq_queue q)), q\<lparr>eq_queue := skip_waf limit (eq_queue q)\<rparr>)"
  by (simp add: drain_def drain_loop_spec)

section \<open>Runs\<close>

datatype queue_op = Offering Notification | Draining usize | DrainingAll usize | WriteFailed bool

text \<open>One operation, with the notifications it hands to the writer.\<close>

fun queue_step :: "queue_op \<Rightarrow> EventQueue \<Rightarrow> Notification list \<times> EventQueue" where
  "queue_step (Offering n) q = ([], snd (offer_notification n q))"
| "queue_step (Draining limit) q = (let (events, q') = drain limit q in (map NWaf events, q'))"
| "queue_step (DrainingAll limit) q = drain_notifications limit q"
| "queue_step (WriteFailed native) q = ([], record_write_failure native q)"

fun queue_run :: "queue_op list \<Rightarrow> EventQueue \<Rightarrow> Notification list \<times> EventQueue" where
  "queue_run [] q = ([], q)"
| "queue_run (op # ops) q =
     (let (out, q') = queue_step op q; (outs, q'') = queue_run ops q' in (out @ outs, q''))"

definition accounted :: "nat \<Rightarrow> EventQueue \<Rightarrow> bool" where
  "accounted handed q \<longleftrightarrow>
     length (eq_queue q) \<le> eq_capacity q \<and>
     ct_offered (eq_counters q) = ct_queued (eq_counters q) + ct_dropped_detect (eq_counters q) +
       ct_counted_enforced (eq_counters q) + ct_dropped_lifecycle (eq_counters q) \<and>
     ct_queued (eq_counters q) =
       of_nat (length (eq_queue q)) + of_nat handed + ct_evicted_detect (eq_counters q) \<and>
     ct_dropped_enforced (eq_counters q) = 0"

lemma remove_first_Some:
  "remove_first P xs = Some ys \<Longrightarrow>
     length xs = Suc (length ys) \<and> filter (\<lambda>x. \<not> P x) ys = filter (\<lambda>x. \<not> P x) xs"
  by (induction xs arbitrary: ys) (auto split: if_splits)


lemma waf_events_length: "length (waf_events ns) \<le> length ns"
  by (induction ns rule: waf_events.induct) auto

lemma skip_waf_length: "length (skip_waf n ns) + min n (length (waf_events ns)) = length ns"
  by (induction n ns rule: skip_waf.induct) (auto simp: waf_events_length)

lemmas queue_defs = offer_notification_def admit_event_def count_admission_def count_native_def

lemma offer_accounted:
  assumes "accounted handed q"
  shows "accounted handed (snd (offer_notification n q))"
proof (cases "length (eq_queue q) < eq_capacity q")
  case True
  with assms show ?thesis
    by (cases n) (auto simp: accounted_def queue_defs Let_def)
next
  case False
  show ?thesis
  proof (cases "droppable n")
    case True
    with False assms show ?thesis
      by (cases n) (auto simp: accounted_def queue_defs Let_def)
  next
    case nd: False
    show ?thesis
    proof (cases "remove_first droppable (eq_queue q)")
      case None
      with False nd assms show ?thesis
        by (cases n) (auto simp: accounted_def queue_defs Let_def)
    next
      case (Some rest)
      then have "length (eq_queue q) = Suc (length rest)" by (simp add: remove_first_Some)
      moreover from this False assms have "eq_capacity q = Suc (length rest)"
        by (simp add: accounted_def)
      ultimately show ?thesis
        using Some False nd assms by (cases n) (auto simp: accounted_def queue_defs Let_def)
    qed
  qed
qed

lemma accounted_take:
  assumes "accounted handed q" and "length (eq_queue q) = length rest + k"
  shows "accounted (handed + k) (q\<lparr>eq_queue := rest\<rparr>)"
  using assms by (simp add: accounted_def)

lemma queue_step_accounted:
  assumes "accounted handed q" and "queue_step op q = (out, q')"
  shows "accounted (handed + length out) q'"
proof (cases op)
  case (Offering n)
  with assms offer_accounted [of handed q n] show ?thesis by auto
next
  case (Draining limit)
  let ?rest = "skip_waf limit (eq_queue q)" and ?taken = "take limit (waf_events (eq_queue q))"
  have len: "length ?rest + length ?taken = length (eq_queue q)"
    using skip_waf_length [of limit "eq_queue q"] by (simp add: min.commute)
  have out: "out = map NWaf ?taken" "q' = q\<lparr>eq_queue := ?rest\<rparr>"
    using Draining assms(2) by (simp_all add: drain_spec)
  show ?thesis
    using accounted_take [OF assms(1) len [symmetric]] by (simp only: out length_map)
next
  case (DrainingAll limit)
  let ?c = "min limit (length (eq_queue q))"
  have len: "length (drop ?c (eq_queue q)) + length (take ?c (eq_queue q)) = length (eq_queue q)"
    by simp
  have out: "out = take ?c (eq_queue q)" "q' = q\<lparr>eq_queue := drop ?c (eq_queue q)\<rparr>"
    using DrainingAll assms(2) by (simp_all add: drain_notifications_def Let_def)
  show ?thesis
    using accounted_take [OF assms(1) len [symmetric]] by (simp only: out)
next
  case (WriteFailed native)
  with assms show ?thesis
    by (auto simp: accounted_def record_write_failure_def Let_def)
qed

lemma queue_run_accounted:
  "accounted handed q \<Longrightarrow> queue_run ops q = (out, q') \<Longrightarrow> accounted (handed + length out) q'"
proof (induction ops arbitrary: handed q out)
  case (Cons op ops)
  obtain o1 q1 where 1: "queue_step op q = (o1, q1)" by fastforce
  obtain o2 where 2: "queue_run ops q1 = (o2, q')" and out: "out = o1 @ o2"
    using Cons.prems(2) 1 by (auto split: prod.splits)
  from Cons.IH [OF queue_step_accounted [OF Cons.prems(1) 1] 2] show ?case
    by (simp add: out add.assoc)
qed simp


section \<open>Properties\<close>

text \<open>
  C35: every notification is accounted for. From an empty queue and after any sequence of offers,
  drains and write failures, the queue holds at most its capacity; the offered notifications are
  the queued ones, the dropped detections, the enforced ones that were only counted and the
  dropped lifecycle ones; and the queued ones are those still held, those handed to the writer and
  the evicted detections. The counter of dropped enforced events is never moved.
\<close>

theorem event_queue_accounts:
  assumes "event_queue_new capacity = Some q" and "queue_run ops q = (out, q')"
  shows "length (eq_queue q') \<le> capacity \<and>
    ct_offered (eq_counters q') = ct_queued (eq_counters q') + ct_dropped_detect (eq_counters q') +
      ct_counted_enforced (eq_counters q') + ct_dropped_lifecycle (eq_counters q') \<and>
    ct_queued (eq_counters q') =
      of_nat (length (eq_queue q')) + of_nat (length out) + ct_evicted_detect (eq_counters q') \<and>
    ct_dropped_enforced (eq_counters q') = 0"
proof -
  have "accounted 0 q" and cap: "eq_capacity q = capacity"
    using assms(1) by (auto simp: event_queue_new_def accounted_def counters_default_def split: if_splits)
  from queue_run_accounted [OF this(1) assms(2)] have "accounted (length out) q'" by simp
  moreover have "eq_capacity q' = eq_capacity q"
    using assms(2)
  proof (induction ops arbitrary: q out)
    case (Cons op ops)
    obtain o1 q1 where 1: "queue_step op q = (o1, q1)" by fastforce
    have "eq_capacity q1 = eq_capacity q"
      using 1 by (cases op) (auto simp: offer_notification_def drain_spec drain_notifications_def
          record_write_failure_def Let_def split: prod.splits)
    with Cons 1 show ?case by (auto split: prod.splits)
  qed simp
  ultimately show ?thesis
    using cap by (simp add: accounted_def)
qed

definition demo_event :: "Verdict \<Rightarrow> Notification" where
  "demo_event v = NWaf \<lparr>we_node = [], we_domain = [], we_profile = [], we_rule_id = None, we_category = None,
     we_severity = None, we_score = 0, we_verdict = v, we_client_ip = None, we_method = None, we_uri = None,
     we_created_at = 0\<rparr>"

definition demo_queue :: EventQueue where
  "demo_queue = \<lparr>eq_capacity = 1, eq_queue = [], eq_counters = counters_default\<rparr>"

theorem event_queue_accounts_witness:
  "\<exists>out q'. queue_run [Offering (demo_event VDetect), Offering (demo_event VBlock), Draining 1] demo_queue = (out, q') \<and>
     length (eq_queue q') \<le> 1 \<and> ct_dropped_enforced (eq_counters q') = 0"
proof -
  have new: "event_queue_new 1 = Some demo_queue" by (simp add: event_queue_new_def demo_queue_def)
  obtain out q' where run:
    "queue_run [Offering (demo_event VDetect), Offering (demo_event VBlock), Draining 1] demo_queue = (out, q')"
    by fastforce
  from event_queue_accounts [OF new run] run show ?thesis by blast
qed



end
