(* ===== verification/Intel_Parse.thy ===== *)
theory Intel_Parse
  imports Ip_Rules
begin

text \<open>
  \<open>pingap-intel/src/parse.rs\<close>: a threat feed's body becomes an entry list, the address set
  compiled from it and the four counts an operator reads. The lemmas give the loop's result in
  closed form: the entries are the first \<open>max_entries\<close> distinct candidates of the body, in
  order, and the counts account for every line.
\<close>

section \<open>Lines and fields\<close>

text \<open>\<open>str::lines\<close>: a line ends at a line feed, and one carriage return before it is dropped;
  \<open>str::split_whitespace().next()\<close>.\<close>

definition strip_cr :: "string \<Rightarrow> string" where
  "strip_cr s = (if s \<noteq> [] \<and> last s = CHR 0x0D then butlast s else s)"

definition str_lines :: "string \<Rightarrow> string list" where
  "str_lines s =
     (let parts = split_on CHR 0x0A s in
      map strip_cr (butlast parts) @ (if last parts = [] then [] else [last parts]))"

fun take_field :: "string \<Rightarrow> string" where
  "take_field [] = []"
| "take_field (c # cs) =
     (if list_ex (\<lambda>w. prefix w (c # cs)) ws_forms then [] else c # take_field cs)"

definition first_field :: "string \<Rightarrow> string option" where
  "first_field s = (let f = take_field (drop_forms ws_forms s) in if f = [] then None else Some f)"

section \<open>One line\<close>

datatype feed_line = LineSkipped | Malformed | Candidate string

definition parses_as_an_address :: "'n ipnet_lib \<Rightarrow> string \<Rightarrow> bool" where
  "parses_as_an_address lib candidate \<longleftrightarrow>
     net_from_str lib candidate \<noteq> None \<or> parse_addr candidate \<noteq> None"

definition before_comment :: "string \<Rightarrow> char \<Rightarrow> string" where
  "before_comment line marker =
     (let index = length (takeWhile (\<lambda>c. c \<noteq> marker) line) in
      if index < length line \<and> index > 0 then take index line else line)"

definition candidate :: "'n ipnet_lib \<Rightarrow> string \<Rightarrow> string option" where
  "candidate lib line =
     (let line = before_comment (before_comment line CHR ''#'') CHR '';'' in
      case first_field line of
        None \<Rightarrow> None
      | Some candidate \<Rightarrow> if parses_as_an_address lib candidate then Some candidate else None)"

definition split_line :: "'n ipnet_lib \<Rightarrow> string \<Rightarrow> feed_line" where
  "split_line lib line =
     (let line = str_trim line in
      if line = [] \<or> hd line = CHR ''#'' \<or> hd line = CHR '';'' then LineSkipped
      else (case candidate lib line of Some c \<Rightarrow> Candidate c | None \<Rightarrow> Malformed))"

section \<open>The body\<close>

record 'n parsed =
  pa_entries :: "string list"
  pa_rules :: "'n ip_rules"
  pa_dropped :: usize
  pa_skipped :: usize
  pa_duplicates :: usize
  pa_truncated :: bool

text \<open>The loop's local variables: \<open>entries\<close>, \<open>seen\<close> and the four counts.\<close>

record parse_state =
  lo_entries :: "string list"
  lo_seen :: "string list"
  lo_dropped :: usize
  lo_skipped :: usize
  lo_duplicates :: usize
  lo_truncated :: bool

definition parse_line :: "'n ipnet_lib \<Rightarrow> usize \<Rightarrow> parse_state \<Rightarrow> string \<Rightarrow> parse_state" where
  "parse_line lib max_entries st line =
     (case split_line lib line of
        LineSkipped \<Rightarrow> st\<lparr>lo_skipped := lo_skipped st + 1\<rparr>
      | Malformed \<Rightarrow> st\<lparr>lo_dropped := lo_dropped st + 1\<rparr>
      | Candidate c \<Rightarrow>
          if c \<in> set (lo_seen st) then st\<lparr>lo_duplicates := lo_duplicates st + 1\<rparr>
          else (let st = st\<lparr>lo_seen := c # lo_seen st\<rparr> in
                if length (lo_entries st) \<ge> max_entries then st\<lparr>lo_truncated := True\<rparr>
                else st\<lparr>lo_entries := lo_entries st @ [c]\<rparr>))"

definition parse_init :: parse_state where
  "parse_init = \<lparr>lo_entries = [], lo_seen = [], lo_dropped = 0, lo_skipped = 0,
     lo_duplicates = 0, lo_truncated = False\<rparr>"

definition parse_feed :: "'n ipnet_lib \<Rightarrow> string \<Rightarrow> usize \<Rightarrow> 'n parsed" where
  "parse_feed lib body max_entries =
     (let st = foldl (parse_line lib max_entries) parse_init (str_lines body);
          rules = ip_rules_new lib (lo_entries st) in
      \<lparr>pa_entries = lo_entries st, pa_rules = rules,
       pa_dropped = lo_dropped st + (length (lo_entries st) - ip_rules_len rules),
       pa_skipped = lo_skipped st, pa_duplicates = lo_duplicates st,
       pa_truncated = lo_truncated st\<rparr>)"

section \<open>The closed form\<close>

text \<open>First occurrences, in order.\<close>

definition firsts :: "'a list \<Rightarrow> 'a list" where
  "firsts xs = rev (remdups (rev xs))"

lemma firsts_Nil [simp]: "firsts [] = []"
  by (simp add: firsts_def)

lemma firsts_snoc [simp]: "firsts (xs @ [x]) = (if x \<in> set xs then firsts xs else firsts xs @ [x])"
  by (simp add: firsts_def)

lemma set_firsts [simp]: "set (firsts xs) = set xs"
  by (simp add: firsts_def)

lemma distinct_firsts [simp]: "distinct (firsts xs)"
  by (simp add: firsts_def)

lemma length_firsts_le: "length (firsts xs) \<le> length xs"
  using length_remdups_leq [of "rev xs"] by (simp add: firsts_def)

definition line_candidate :: "'n ipnet_lib \<Rightarrow> string \<Rightarrow> string option" where
  "line_candidate lib l = (case split_line lib l of Candidate c \<Rightarrow> Some c | _ \<Rightarrow> None)"

definition candidates :: "'n ipnet_lib \<Rightarrow> string list \<Rightarrow> string list" where
  "candidates lib ls = List.map_filter (line_candidate lib) ls"

definition count_lines :: "'n ipnet_lib \<Rightarrow> feed_line \<Rightarrow> string list \<Rightarrow> nat" where
  "count_lines lib k ls = length (filter (\<lambda>l. split_line lib l = k) ls)"

lemma candidates_snoc [simp]:
  "candidates lib (ls @ [l]) =
     candidates lib ls @ (case split_line lib l of Candidate c \<Rightarrow> [c] | _ \<Rightarrow> [])"
  by (simp add: candidates_def map_filter_def line_candidate_def split: feed_line.split)

lemma candidates_Nil [simp]: "candidates lib [] = []"
  by (simp add: candidates_def map_filter_def)

lemma count_lines_snoc [simp]:
  "count_lines lib k (ls @ [l]) = count_lines lib k ls + (if split_line lib l = k then 1 else 0)"
  by (simp add: count_lines_def)

lemma count_lines_Nil [simp]: "count_lines lib k [] = 0"
  by (simp add: count_lines_def)

lemma parse_loop:
  fixes lib :: "'n ipnet_lib"
  defines "D \<equiv> \<lambda>ls. firsts (candidates lib ls)"
  assumes st: "st = foldl (parse_line lib m) parse_init ls"
  shows "lo_entries st = take m (D ls) \<and> set (lo_seen st) = set (candidates lib ls) \<and>
    lo_dropped st = count_lines lib Malformed ls \<and> lo_skipped st = count_lines lib LineSkipped ls \<and>
    lo_duplicates st = length (candidates lib ls) - length (D ls) \<and>
    lo_truncated st = (m < length (D ls))"
  unfolding st
proof (induction ls rule: rev_induct)
  case Nil
  then show ?case by (simp add: parse_init_def D_def)
next
  case (snoc l ls)
  show ?case
  proof (cases "split_line lib l")
    case (Candidate c)
    then show ?thesis
      using snoc length_firsts_le [of "candidates lib ls"]
      by (auto simp: parse_line_def Let_def D_def)
  qed (use snoc in \<open>simp_all add: parse_line_def D_def\<close>)
qed

lemma parse_feed_closed:
  fixes lib :: "'n ipnet_lib"
  defines "D \<equiv> \<lambda>body. firsts (candidates lib (str_lines body))"
  shows "pa_entries (parse_feed lib body m) = take m (D body)"
    and "pa_rules (parse_feed lib body m) = ip_rules_new lib (take m (D body))"
    and "pa_skipped (parse_feed lib body m) = count_lines lib LineSkipped (str_lines body)"
    and "pa_duplicates (parse_feed lib body m) =
           length (candidates lib (str_lines body)) - length (D body)"
    and "pa_truncated (parse_feed lib body m) = (m < length (D body))"
    and "pa_dropped (parse_feed lib body m) = count_lines lib Malformed (str_lines body) +
           (length (take m (D body)) - ip_rules_len (ip_rules_new lib (take m (D body))))"
  using parse_loop [OF refl, of lib m "str_lines body"]
  by (simp_all add: parse_feed_def Let_def D_def)

text \<open>Every line is counted once.\<close>

lemma lines_partition:
  "count_lines lib LineSkipped ls + count_lines lib Malformed ls + length (candidates lib ls) =
     length ls"
  by (induction ls rule: rev_induct) (auto split: feed_line.split)

lemma candidate_parses: "candidate lib l = Some c \<Longrightarrow> entry_ok lib c"
  by (auto simp: candidate_def Let_def parses_as_an_address_def entry_ok_def
      split: option.splits if_splits)

lemma candidates_ok: "c \<in> set (candidates lib ls) \<Longrightarrow> entry_ok lib c"
  by (auto simp: candidates_def set_map_filter line_candidate_def split_line_def Let_def
      split: feed_line.splits if_splits option.splits dest: candidate_parses)

lemma parse_feed_entries_ok: "list_all (entry_ok lib) (pa_entries (parse_feed lib body m))"
  by (auto simp: list_all_iff parse_feed_closed dest!: in_set_takeD candidates_ok)

text \<open>
  The length check never fires on an unreadable entry: every entry parses, so a shortfall is
  exactly a repeated address written in two ways.
\<close>

lemma filter_all: "list_all P xs \<Longrightarrow> filter P xs = xs"
  by (induction xs) auto

lemma shortfall_iff_repeat:
  "pa_dropped (parse_feed lib body m) = count_lines lib Malformed (str_lines body) \<longleftrightarrow>
     distinct (List.map_filter (entry_addr lib) (pa_entries (parse_feed lib body m)))"
proof -
  let ?E = "pa_entries (parse_feed lib body m)"
  have le: "ip_rules_len (ip_rules_new lib ?E) \<le> length ?E"
    using ip_rules_len_le_ok [of lib ?E] filter_all [OF parse_feed_entries_ok [of lib body m]] by simp
  have "pa_dropped (parse_feed lib body m) = count_lines lib Malformed (str_lines body) \<longleftrightarrow>
    ip_rules_len (ip_rules_new lib ?E) = length ?E"
    using le unfolding parse_feed_closed by linarith
  with ip_rules_len_eq_iff [of lib ?E] parse_feed_entries_ok [of lib body m] show ?thesis by simp
qed

end
