(* ===== verification/Intel_Config.thy ===== *)
theory Intel_Config
  imports Intel_Parse
begin

text \<open>
  \<open>pingap-intel/src/config.rs\<close>: the \<open>[intel]\<close> tables of all plugin entries become one plan, or
  the first fault. Durations are nanoseconds. URL parsing is the \<open>url\<close> crate's and stays a
  parameter (\<open>url_lib\<close>); the prose of an error's \<open>reason\<close> is a constructor of \<open>feed_fault\<close>
  or \<open>limit_reason\<close> with the values it interpolates. The lemmas say when a plan exists and
  what it holds, in terms that do not mention the order of the entries.
\<close>

section \<open>Tables\<close>

datatype Host = Domain string | HostIpv4 "32 word" | HostIpv6 "128 word"

record 'u url_lib =
  url_parse :: "string \<Rightarrow> ('u, string) result"
  url_scheme :: "'u \<Rightarrow> string"
  url_host :: "'u \<Rightarrow> Host option"
  url_to_string :: "'u \<Rightarrow> string"

type_synonym duration = nat

definition from_secs :: "nat \<Rightarrow> duration" where
  "from_secs s = s * 1000000000"

record FeedConf =
  fc_name :: string
  fc_url :: string
  fc_category :: "string option"
  fc_enabled :: bool
  fc_allow_private_targets :: bool

record IntelConf =
  ic_feed :: "FeedConf list"
  ic_manual :: "string list"
  ic_timeout :: "duration option"
  ic_staleness :: "duration option"
  ic_max_body_bytes :: "usize option"
  ic_max_entries :: "usize option"
  ic_redirect_hops :: "usize option"

record Limits =
  li_timeout :: duration
  li_staleness :: duration
  li_max_body_bytes :: usize
  li_max_entries :: usize
  li_redirect_hops :: usize

definition MAX_REDIRECT_HOPS :: usize where
  "MAX_REDIRECT_HOPS = 10"

definition UNSPECIFIED_CATEGORY :: string where
  "UNSPECIFIED_CATEGORY = ''unspecified''"

definition feed_limits_default :: Limits where
  "feed_limits_default = \<lparr>li_timeout = from_secs 30, li_staleness = from_secs (24 * 60 * 60),
     li_max_body_bytes = 32 * 1024 * 1024, li_max_entries = 250000, li_redirect_hops = 0\<rparr>"

record 'u Definition =
  df_name :: string
  df_url :: 'u
  df_category :: string
  df_allow_private_targets :: bool

record 'u Plan =
  pl_definitions :: "'u Definition list"
  pl_manual :: "string list"
  pl_limits :: Limits

datatype feed_fault = BlankName | NoUrl | UrlDoesNotParse string string | WrongScheme string string | DeclaredTwice

datatype limit_reason = ZeroTimeout | ZeroStaleness | ZeroBodyBytes | ZeroEntries | TooManyHops

datatype IntelConfigError =
    BadFeed string string feed_fault
  | BadManual string usize string
  | BadLimits string limit_reason
  | ConflictingFeed string string string string

section \<open>Limits\<close>

record Opinions =
  op_timeout :: "duration option"
  op_staleness :: "duration option"
  op_max_body_bytes :: "usize option"
  op_max_entries :: "usize option"
  op_redirect_hops :: "usize option"

definition opinions_default :: Opinions where
  "opinions_default = \<lparr>op_timeout = None, op_staleness = None, op_max_body_bytes = None,
     op_max_entries = None, op_redirect_hops = None\<rparr>"

definition strictest :: "nat option \<Rightarrow> nat option \<Rightarrow> nat option" where
  "strictest current cand =
     (case cand of
        None \<Rightarrow> current
      | Some c \<Rightarrow> Some (case current of Some v \<Rightarrow> min v c | None \<Rightarrow> c))"

definition opinions_fold :: "IntelConf \<Rightarrow> Opinions \<Rightarrow> Opinions" where
  "opinions_fold conf opn =
     \<lparr>op_timeout = strictest (op_timeout opn) (ic_timeout conf),
      op_staleness = strictest (op_staleness opn) (ic_staleness conf),
      op_max_body_bytes = strictest (op_max_body_bytes opn) (ic_max_body_bytes conf),
      op_max_entries = strictest (op_max_entries opn) (ic_max_entries conf),
      op_redirect_hops = strictest (op_redirect_hops opn) (ic_redirect_hops conf)\<rparr>"

definition unwrap_or :: "'a option \<Rightarrow> 'a \<Rightarrow> 'a" where
  "unwrap_or v d = (case v of Some x \<Rightarrow> x | None \<Rightarrow> d)"

definition opinions_resolve :: "Opinions \<Rightarrow> Limits" where
  "opinions_resolve opn =
     \<lparr>li_timeout = unwrap_or (op_timeout opn) (li_timeout feed_limits_default),
      li_staleness = unwrap_or (op_staleness opn) (li_staleness feed_limits_default),
      li_max_body_bytes = unwrap_or (op_max_body_bytes opn) (li_max_body_bytes feed_limits_default),
      li_max_entries = unwrap_or (op_max_entries opn) (li_max_entries feed_limits_default),
      li_redirect_hops = unwrap_or (op_redirect_hops opn) (li_redirect_hops feed_limits_default)\<rparr>"

definition limit_fault :: "IntelConf \<Rightarrow> limit_reason option" where
  "limit_fault conf =
     (if ic_timeout conf = Some 0 then Some ZeroTimeout
      else if ic_staleness conf = Some 0 then Some ZeroStaleness
      else if ic_max_body_bytes conf = Some 0 then Some ZeroBodyBytes
      else if ic_max_entries conf = Some 0 then Some ZeroEntries
      else if (case ic_redirect_hops conf of Some h \<Rightarrow> h > MAX_REDIRECT_HOPS | None \<Rightarrow> False)
      then Some TooManyHops
      else None)"

definition check_limits :: "string \<Rightarrow> IntelConf \<Rightarrow> Opinions \<Rightarrow> (Opinions, IntelConfigError) result" where
  "check_limits entry conf opn =
     (case limit_fault conf of
        Some reason \<Rightarrow> Err (BadLimits entry reason)
      | None \<Rightarrow> Ok (opinions_fold conf opn))"

section \<open>Manual entries\<close>

fun check_manual_from ::
  "'n ipnet_lib \<Rightarrow> string \<Rightarrow> usize \<Rightarrow> string list \<Rightarrow> string list \<Rightarrow> (string list, IntelConfigError) result" where
  "check_manual_from lib entry index [] manual = Ok manual"
| "check_manual_from lib entry index (v # vs) manual =
     (if \<not> parses_as_an_address lib v then Err (BadManual entry index v)
      else check_manual_from lib entry (index + 1) vs
             (if v \<in> set manual then manual else manual @ [v]))"

definition check_manual ::
  "'n ipnet_lib \<Rightarrow> string \<Rightarrow> IntelConf \<Rightarrow> string list \<Rightarrow> (string list, IntelConfigError) result" where
  "check_manual lib entry conf manual = check_manual_from lib entry 0 (ic_manual conf) manual"

section \<open>Feeds\<close>

definition feed_definition ::
  "'u url_lib \<Rightarrow> string \<Rightarrow> FeedConf \<Rightarrow> ('u Definition, IntelConfigError) result" where
  "feed_definition ul entry feed =
     (let bad = BadFeed entry (fc_name feed) in
      if str_trim (fc_name feed) = [] then Err (bad BlankName)
      else if str_trim (fc_url feed) = [] then Err (bad NoUrl)
      else result_bind (map_err (\<lambda>e. bad (UrlDoesNotParse (fc_url feed) e)) (url_parse ul (fc_url feed)))
        (\<lambda>url. if url_scheme ul url \<notin> {''http'', ''https''}
               then Err (bad (WrongScheme (fc_url feed) (url_scheme ul url)))
               else Ok \<lparr>df_name = fc_name feed, df_url = url,
                 df_category = (case fc_category feed of
                    Some c \<Rightarrow> if str_trim c \<noteq> [] then c else UNSPECIFIED_CATEGORY
                  | None \<Rightarrow> UNSPECIFIED_CATEGORY),
                 df_allow_private_targets = fc_allow_private_targets feed\<rparr>))"

record 'u Declaration =
  dc_entry :: string
  dc_definition :: "'u Definition"
  dc_enabled :: bool

text \<open>\<open>declared[from..]\<close> is the second list: what this one table has declared so far.\<close>

fun check_feeds_from ::
  "'u url_lib \<Rightarrow> string \<Rightarrow> FeedConf list \<Rightarrow> 'u Declaration list \<Rightarrow> 'u Declaration list
     \<Rightarrow> ('u Declaration list, IntelConfigError) result" where
  "check_feeds_from ul entry [] before here = Ok (before @ here)"
| "check_feeds_from ul entry (feed # feeds) before here =
     result_bind (feed_definition ul entry feed)
       (\<lambda>d. if list_ex (\<lambda>x. df_name (dc_definition x) = df_name d) here
            then Err (BadFeed entry (df_name d) DeclaredTwice)
            else check_feeds_from ul entry feeds before
                   (here @ [\<lparr>dc_entry = entry, dc_definition = d, dc_enabled = fc_enabled feed\<rparr>]))"

definition check_feeds ::
  "'u url_lib \<Rightarrow> string \<Rightarrow> IntelConf \<Rightarrow> 'u Declaration list \<Rightarrow> ('u Declaration list, IntelConfigError) result" where
  "check_feeds ul entry conf declared = check_feeds_from ul entry (ic_feed conf) declared []"

section \<open>Merging\<close>

definition disagreement :: "'u Definition \<Rightarrow> 'u Definition \<Rightarrow> string option" where
  "disagreement a b =
     (if df_url a \<noteq> df_url b then Some ''url''
      else if df_category a \<noteq> df_category b then Some ''category''
      else if df_allow_private_targets a \<noteq> df_allow_private_targets b
      then Some ''allow_private_targets''
      else None)"

text \<open>The first merged element with the declaration's name is updated in place.\<close>

fun merge_decl ::
  "('u Definition \<times> string \<times> bool) list \<Rightarrow> 'u Declaration
     \<Rightarrow> (('u Definition \<times> string \<times> bool) list, IntelConfigError) result" where
  "merge_decl [] d = Ok [(dc_definition d, dc_entry d, dc_enabled d)]"
| "merge_decl ((existing, first_entry, already_enabled) # rest) d =
     (if df_name existing = df_name (dc_definition d)
      then (case disagreement existing (dc_definition d) of
              Some key \<Rightarrow> Err (ConflictingFeed first_entry (dc_entry d) (df_name (dc_definition d)) key)
            | None \<Rightarrow> Ok ((existing, first_entry, already_enabled \<or> dc_enabled d) # rest))
      else result_bind (merge_decl rest d) (\<lambda>r. Ok ((existing, first_entry, already_enabled) # r)))"

fun merge_all ::
  "('u Definition \<times> string \<times> bool) list \<Rightarrow> 'u Declaration list
     \<Rightarrow> (('u Definition \<times> string \<times> bool) list, IntelConfigError) result" where
  "merge_all merged [] = Ok merged"
| "merge_all merged (d # ds) = result_bind (merge_decl merged d) (\<lambda>m. merge_all m ds)"

definition collapse_declared :: "'u Declaration list \<Rightarrow> ('u Definition list, IntelConfigError) result" where
  "collapse_declared declared =
     result_bind (merge_all [] declared)
       (\<lambda>merged. Ok (map fst (filter (\<lambda>(_, _, enabled). enabled) merged)))"

fun plan_entries ::
  "'n ipnet_lib \<Rightarrow> 'u url_lib \<Rightarrow> (string \<times> IntelConf) list \<Rightarrow> 'u Declaration list \<Rightarrow> string list
     \<Rightarrow> Opinions \<Rightarrow> ('u Declaration list \<times> string list \<times> Opinions, IntelConfigError) result" where
  "plan_entries lib ul [] declared manual opn = Ok (declared, manual, opn)"
| "plan_entries lib ul ((entry, conf) # es) declared manual opn =
     result_bind (check_limits entry conf opn) (\<lambda>opn.
     result_bind (check_manual lib entry conf manual) (\<lambda>manual.
     result_bind (check_feeds ul entry conf declared) (\<lambda>declared.
     plan_entries lib ul es declared manual opn)))"

definition plan ::
  "'n ipnet_lib \<Rightarrow> 'u url_lib \<Rightarrow> (string \<times> IntelConf) list \<Rightarrow> ('u Plan, IntelConfigError) result" where
  "plan lib ul entries =
     result_bind (plan_entries lib ul entries [] [] opinions_default) (\<lambda>(declared, manual, opn).
     result_bind (collapse_declared declared) (\<lambda>definitions.
     Ok \<lparr>pl_definitions = definitions, pl_manual = manual, pl_limits = opinions_resolve opn\<rparr>))"

section \<open>What a table contributes\<close>

definition intel_table_ok :: "'n ipnet_lib \<Rightarrow> 'u url_lib \<Rightarrow> IntelConf \<Rightarrow> bool" where
  "intel_table_ok lib ul conf \<longleftrightarrow>
     limit_fault conf = None \<and> list_all (parses_as_an_address lib) (ic_manual conf) \<and>
     list_all (\<lambda>f. is_Ok (feed_definition ul [] f)) (ic_feed conf) \<and>
     distinct (map fc_name (ic_feed conf))"

definition resolved :: "'u url_lib \<Rightarrow> FeedConf \<Rightarrow> 'u Definition" where
  "resolved ul feed = ok (feed_definition ul [] feed)"

definition table_decls :: "'u url_lib \<Rightarrow> string \<Rightarrow> FeedConf list \<Rightarrow> 'u Declaration list" where
  "table_decls ul entry feeds =
     map (\<lambda>f. \<lparr>dc_entry = entry, dc_definition = resolved ul f, dc_enabled = fc_enabled f\<rparr>) feeds"

lemma feed_definition_is_Ok:
  "is_Ok (feed_definition ul entry feed) = is_Ok (feed_definition ul [] feed)"
  by (cases "url_parse ul (fc_url feed)") (simp_all add: feed_definition_def Let_def)

lemma feed_definition_resolved:
  "is_Ok (feed_definition ul [] feed) \<Longrightarrow> feed_definition ul entry feed = Ok (resolved ul feed)"
  by (cases "url_parse ul (fc_url feed)")
    (auto simp: feed_definition_def Let_def resolved_def split: if_splits)

lemma resolved_name: "is_Ok (feed_definition ul [] feed) \<Longrightarrow> df_name (resolved ul feed) = fc_name feed"
  by (cases "url_parse ul (fc_url feed)")
    (auto simp: feed_definition_def Let_def resolved_def split: if_splits)

lemma check_manual_from_Ok:
  "check_manual_from lib entry i vs manual = Ok m \<longleftrightarrow>
     list_all (parses_as_an_address lib) vs \<and>
     m = foldl (\<lambda>m v. if v \<in> set m then m else m @ [v]) manual vs"
  by (induction vs arbitrary: i manual) auto

lemma push_new_set:
  "set (foldl (\<lambda>m v. if v \<in> set m then m else m @ [v]) manual vs) = set manual \<union> set vs"
  by (induction vs arbitrary: manual) auto

lemma push_new_distinct:
  "distinct manual \<Longrightarrow> distinct (foldl (\<lambda>m v. if v \<in> set m then m else m @ [v]) manual vs)"
  by (induction vs arbitrary: manual) auto

abbreviation decl_names :: "'u Declaration list \<Rightarrow> string list" where
  "decl_names ds \<equiv> map (df_name \<circ> dc_definition) ds"

lemma list_ex_name: "list_ex (\<lambda>x. df_name (dc_definition x) = n) ds \<longleftrightarrow> n \<in> set (decl_names ds)"
  by (induction ds) auto

lemma check_feeds_from_Ok:
  assumes "distinct (decl_names here)"
  shows "check_feeds_from ul entry feeds before here = Ok r \<longleftrightarrow>
     list_all (\<lambda>f. is_Ok (feed_definition ul [] f)) feeds \<and>
     distinct (decl_names here @ map fc_name feeds) \<and>
     r = before @ here @ table_decls ul entry feeds"
  using assms
proof (induction feeds arbitrary: here)
  case Nil
  then show ?case by (auto simp: table_decls_def)
next
  case (Cons f feeds)
  show ?case
  proof (cases "is_Ok (feed_definition ul [] f)")
    case True
    let ?d = "\<lparr>dc_entry = entry, dc_definition = resolved ul f, dc_enabled = fc_enabled f\<rparr>"
    have def: "feed_definition ul entry f = Ok (resolved ul f)"
      using True by (rule feed_definition_resolved)
    have name: "df_name (resolved ul f) = fc_name f"
      using True by (rule resolved_name)
    show ?thesis
    proof (cases "fc_name f \<in> set (decl_names here)")
      case True
      then show ?thesis
        unfolding check_feeds_from.simps def result_bind.simps name list_ex_name by simp
    next
      case False
      with Cons.prems have dist: "distinct (decl_names (here @ [?d]))"
        by (simp add: name comp_def)
      have names: "decl_names (here @ [?d]) @ map fc_name feeds =
        decl_names here @ map fc_name (f # feeds)" by (simp add: name)
      show ?thesis
        unfolding check_feeds_from.simps def result_bind.simps name list_ex_name
          if_not_P [OF False] Cons.IH [OF dist] names
        using \<open>is_Ok (feed_definition ul [] f)\<close> by (simp add: table_decls_def comp_def)
    qed
  next
    case False
    then have "\<not> is_Ok (feed_definition ul entry f)"
      using feed_definition_is_Ok by metis
    then obtain e where "feed_definition ul entry f = Err e"
      by (cases "feed_definition ul entry f") auto
    with False show ?thesis by simp
  qed
qed

section \<open>All tables\<close>

definition opinion :: "(IntelConf \<Rightarrow> nat option) \<Rightarrow> nat option \<Rightarrow> IntelConf set \<Rightarrow> nat option" where
  "opinion f init C =
     (let S = {v. init = Some v} \<union> {v. \<exists>c\<in>C. f c = Some v} in if S = {} then None else Some (Min S))"

lemma opinion_finite: "finite C \<Longrightarrow> finite {v. \<exists>c\<in>C. f c = Some v}"
proof -
  assume "finite C"
  moreover have "{v. \<exists>c\<in>C. f c = Some v} \<subseteq> (\<lambda>c. the (f c)) ` C"
    by force
  ultimately show ?thesis by (meson finite_imageI finite_subset)
qed

lemma Min_insert_min:
  fixes i x :: nat
  assumes "finite T"
  shows "Min (insert (min i x) T) = Min (insert i (insert x T))"
  using assms by (cases "T = {}") (simp_all add: min.assoc)

lemma opinion_step:
  assumes fin: "finite C"
  shows "opinion f (strictest init (f c)) C = opinion f init (insert c C)"
proof (cases "f c")
  case None
  then have "{v. \<exists>c\<in>insert c C. f c = Some v} = {v. \<exists>c\<in>C. f c = Some v}" by auto
  with None show ?thesis by (simp only: opinion_def strictest_def option.case)
next
  case (Some x)
  let ?S = "{v. \<exists>c\<in>C. f c = Some v}"
  have split: "{v. \<exists>c\<in>insert c C. f c = Some v} = insert x ?S"
    using Some by auto
  have one: "{v. Some i = Some v} \<union> T = insert i T" for i and T :: "nat set" by auto
  have none: "{v. None = Some v} \<union> T = T" for T :: "nat set" by auto
  show ?thesis
    unfolding opinion_def split Some strictest_def Let_def
    using Min_insert_min [OF opinion_finite [OF fin]]
    by (cases init) (simp_all only: option.case one none insert_not_empty if_False simp_thms)
qed

lemma opinion_fold:
  "foldl (\<lambda>a c. strictest a (f c)) init cs = opinion f init (set cs)"
proof (induction cs arbitrary: init)
  case Nil
  then show ?case by (cases init) (auto simp: opinion_def)
next
  case (Cons c cs)
  then show ?case using opinion_step [of "set cs" f init c] by simp
qed

definition all_decls :: "'u url_lib \<Rightarrow> (string \<times> IntelConf) list \<Rightarrow> 'u Declaration list" where
  "all_decls ul es = concat (map (\<lambda>(e, c). table_decls ul e (ic_feed c)) es)"

definition all_manual :: "(string \<times> IntelConf) list \<Rightarrow> string list" where
  "all_manual es = concat (map (ic_manual \<circ> snd) es)"

lemma check_limits_Ok:
  "check_limits e c opn = Ok opn' \<longleftrightarrow> limit_fault c = None \<and> opn' = opinions_fold c opn"
  by (auto simp: check_limits_def split: option.split)

lemma plan_entries_Ok:
  "plan_entries lib ul es declared manual opn = Ok r \<longleftrightarrow>
     list_all (intel_table_ok lib ul \<circ> snd) es \<and>
     r = (declared @ all_decls ul es,
          foldl (\<lambda>m v. if v \<in> set m then m else m @ [v]) manual (all_manual es),
          foldl (\<lambda>a c. opinions_fold c a) opn (map snd es))"
proof (induction es arbitrary: declared manual opn)
  case Nil
  then show ?case by (auto simp: all_decls_def all_manual_def)
next
  case (Cons ec es)
  obtain e c where ec: "ec = (e, c)" by (cases ec)
  show ?case
    unfolding ec plan_entries.simps result_bind_Ok check_limits_Ok check_manual_def
      check_manual_from_Ok check_feeds_def check_feeds_from_Ok [of "[]", simplified] Cons
    by (simp add: all_decls_def all_manual_def intel_table_ok_def [of _ _ c] comp_def)
qed

lemma opinions_fold_all:
  "foldl (\<lambda>a c. opinions_fold c a) opn cs =
     \<lparr>op_timeout = opinion ic_timeout (op_timeout opn) (set cs),
      op_staleness = opinion ic_staleness (op_staleness opn) (set cs),
      op_max_body_bytes = opinion ic_max_body_bytes (op_max_body_bytes opn) (set cs),
      op_max_entries = opinion ic_max_entries (op_max_entries opn) (set cs),
      op_redirect_hops = opinion ic_redirect_hops (op_redirect_hops opn) (set cs)\<rparr>"
  unfolding opinion_fold [symmetric]
  by (induction cs arbitrary: opn) (simp_all add: opinions_fold_def)

section \<open>Agreement\<close>

definition enabled_in :: "('u Definition \<times> string \<times> bool) list \<Rightarrow> 'u Definition set" where
  "enabled_in m = {x. \<exists>e. (x, e, True) \<in> set m}"

lemma disagreement_None: "df_name a = df_name b \<Longrightarrow> disagreement a b = None \<longleftrightarrow> a = b"
  by (cases a; cases b) (auto simp: disagreement_def)

lemma disagreement_refl [simp]: "disagreement a a = None"
  by (simp add: disagreement_def)

lemma enabled_in_Cons [simp]:
  "enabled_in ((x, e, b) # m) = (if b then insert x (enabled_in m) else enabled_in m)"
  "enabled_in [] = {}"
  by (auto simp: enabled_in_def)

lemma merge_decl_names:
  "merge_decl m d = Ok m' \<Longrightarrow>
     map fst m' = (if dc_definition d \<in> fst ` set m then map fst m else map fst m @ [dc_definition d]) \<and>
     (\<forall>x\<in>fst ` set m. df_name x = df_name (dc_definition d) \<longrightarrow> dc_definition d \<in> fst ` set m)"
proof (induction m d arbitrary: m' rule: merge_decl.induct)
  case (2 x e b rest d)
  show ?case
  proof (cases "df_name x = df_name (dc_definition d)")
    case True
    with 2(2) show ?thesis by (auto simp: disagreement_None split: option.splits)
  next
    case False
    with 2(2) obtain r where r: "merge_decl rest d = Ok r" "m' = (x, e, b) # r"
      by (auto simp: result_bind_Ok)
    from False have "x \<noteq> dc_definition d" by auto
    with 2(1) [OF False r(1)] r(2) False show ?thesis by (simp split: if_splits)
  qed
qed simp

lemma merge_decl_enabled:
  "merge_decl m d = Ok m' \<Longrightarrow>
     enabled_in m' = enabled_in m \<union> (if dc_enabled d then {dc_definition d} else {})"
proof (induction m d arbitrary: m' rule: merge_decl.induct)
  case (2 x e b rest d)
  show ?case
  proof (cases "df_name x = df_name (dc_definition d)")
    case True
    with 2(2) show ?thesis by (auto simp: disagreement_None split: option.splits)
  next
    case False
    with 2(2) obtain r where r: "merge_decl rest d = Ok r" "m' = (x, e, b) # r"
      by (auto simp: result_bind_Ok)
    with 2(1) [OF False r(1)] show ?thesis by simp
  qed
qed simp

lemma merge_decl_is_Ok:
  "is_Ok (merge_decl m d) \<longleftrightarrow>
     (case find (\<lambda>x. df_name x = df_name (dc_definition d)) (map fst m) of
        Some x \<Rightarrow> x = dc_definition d | None \<Rightarrow> True)"
proof (induction m d rule: merge_decl.induct)
  case (2 x e b rest d)
  then show ?case
    by (cases "merge_decl rest d") (auto simp: disagreement_None split: option.split)
qed simp

definition names_agree :: "'u Definition set \<Rightarrow> bool" where
  "names_agree D \<longleftrightarrow> (\<forall>a\<in>D. \<forall>b\<in>D. df_name a = df_name b \<longrightarrow> a = b)"

lemma names_agree_empty [simp]: "names_agree {}"
  by (simp add: names_agree_def)

lemma merge_all_Ok:
  assumes "names_agree (fst ` set m)" and "distinct (map fst m)" and "merge_all m ds = Ok m'"
  shows "names_agree (fst ` set m') \<and> distinct (map fst m') \<and>
    fst ` set m' = fst ` set m \<union> dc_definition ` set ds \<and>
    enabled_in m' = enabled_in m \<union> dc_definition ` {d \<in> set ds. dc_enabled d}"
  using assms
proof (induction ds arbitrary: m)
  case (Cons d ds)
  then obtain r where r: "merge_decl m d = Ok r" "merge_all r ds = Ok m'"
    by (auto simp: result_bind_Ok)
  note names = merge_decl_names [OF r(1)]
  have "set (map fst r) = insert (dc_definition d) (set (map fst m))"
    using names by auto
  then have set: "fst ` set r = insert (dc_definition d) (fst ` set m)" by simp
  have agree: "names_agree (fst ` set r)"
  proof (cases "dc_definition d \<in> fst ` set m")
    case True
    then show ?thesis using set Cons.prems(1) by (simp add: insert_absorb)
  next
    case False
    with names have "\<forall>x\<in>fst ` set m. df_name x \<noteq> df_name (dc_definition d)" by blast
    with Cons.prems(1) show ?thesis unfolding set names_agree_def by auto
  qed
  have dist: "distinct (map fst r)"
    using names Cons.prems(2) by simp
  have on: "dc_definition ` {x \<in> set (d # ds). dc_enabled x} =
    (if dc_enabled d then {dc_definition d} else {}) \<union> dc_definition ` {x \<in> set ds. dc_enabled x}"
    by auto
  note IH = Cons.IH [OF agree dist r(2), unfolded set merge_decl_enabled [OF r(1)] Un_assoc]
  have defs: "fst ` set m \<union> dc_definition ` set (d # ds) =
    insert (dc_definition d) (fst ` set m) \<union> dc_definition ` set ds" by simp
  show ?case unfolding on defs by (rule IH)
qed simp

text \<open>A conflict is reported exactly when two declarations of one name differ.\<close>

lemma find_hit: "find P xs = Some x \<Longrightarrow> x \<in> set xs \<and> P x"
  by (induction xs) (auto split: if_splits)

lemma merge_decl_agree:
  assumes "names_agree (insert (dc_definition d) (fst ` set m))"
  shows "is_Ok (merge_decl m d)"
proof (cases "find (\<lambda>x. df_name x = df_name (dc_definition d)) (map fst m)")
  case (Some x)
  from find_hit [OF this] have "x \<in> fst ` set m" and "df_name x = df_name (dc_definition d)"
    by simp_all
  with assms have "x = dc_definition d"
    unfolding names_agree_def by blast
  with Some show ?thesis by (simp add: merge_decl_is_Ok)
qed (simp add: merge_decl_is_Ok)

lemma merge_all_is_Ok:
  assumes "names_agree (fst ` set m)" and "distinct (map fst m)"
  shows "is_Ok (merge_all m ds) \<longleftrightarrow> names_agree (fst ` set m \<union> dc_definition ` set ds)"
  using assms
proof (induction ds arbitrary: m)
  case (Cons d ds)
  show ?case
  proof (cases "merge_decl m d")
    case (Ok r)
    then have "merge_all m [d] = Ok r" by simp
    from merge_all_Ok [OF Cons.prems this] have agree: "names_agree (fst ` set r)"
      and dist: "distinct (map fst r)" and defs: "fst ` set r = insert (dc_definition d) (fst ` set m)"
      by (blast, blast, simp)
    show ?thesis
      using Cons.IH [OF agree dist] by (simp add: Ok defs)
  next
    case (Err e)
    with merge_decl_agree [of d m] have "\<not> names_agree (insert (dc_definition d) (fst ` set m))"
      by auto
    then have "\<not> names_agree (fst ` set m \<union> dc_definition ` set (d # ds))"
      unfolding names_agree_def by auto
    with Err show ?thesis by simp
  qed
qed simp

lemma enabled_defs: "set (map fst (filter (\<lambda>(_, _, enabled). enabled) m)) = enabled_in m"
  by (induction m) auto

lemma collapse_declared_Ok:
  assumes "collapse_declared ds = Ok D"
  shows "names_agree (dc_definition ` set ds) \<and> distinct (map df_name D) \<and>
    set D = dc_definition ` {d \<in> set ds. dc_enabled d}"
proof -
  obtain m where m: "merge_all [] ds = Ok m" and D: "D = map fst (filter (\<lambda>(_, _, enabled). enabled) m)"
    using assms by (auto simp: collapse_declared_def result_bind_Ok)
  have agree: "names_agree (fst ` set m)" and dist: "distinct (map fst m)"
    and defs: "fst ` set m = dc_definition ` set ds"
    and enabled: "enabled_in m = dc_definition ` {d \<in> set ds. dc_enabled d}"
    using merge_all_Ok [OF _ _ m, simplified] by blast+
  have "set D \<subseteq> fst ` set m" by (auto simp: D)
  then have "inj_on df_name (set D)"
    using agree by (intro inj_onI) (meson names_agree_def subsetD)
  moreover have "distinct D"
    using dist by (simp add: D distinct_map_filter)
  ultimately have "distinct (map df_name D)"
    by (simp only: distinct_map)
  moreover have "set D = enabled_in m" unfolding D by (rule enabled_defs)
  ultimately show ?thesis using agree unfolding defs enabled by simp
qed

lemma collapse_declared_is_Ok: "is_Ok (collapse_declared ds) \<longleftrightarrow> names_agree (dc_definition ` set ds)"
  using merge_all_is_Ok [of "[]" ds]
  by (cases "merge_all [] ds") (simp_all add: collapse_declared_def names_agree_def)

section \<open>The plan\<close>

definition declared_feeds :: "(string \<times> IntelConf) set \<Rightarrow> FeedConf set" where
  "declared_feeds E = {f. \<exists>(e, c)\<in>E. f \<in> set (ic_feed c)}"

lemma table_decls_feeds:
  "dc_definition ` set (table_decls ul e feeds) = resolved ul ` set feeds"
  "dc_definition ` {d \<in> set (table_decls ul e feeds). dc_enabled d} =
     resolved ul ` {f \<in> set feeds. fc_enabled f}"
  by (simp_all add: table_decls_def Compr_image_eq image_image)

lemma all_decls_feeds:
  "dc_definition ` set (all_decls ul es) = resolved ul ` declared_feeds (set es)"
  "dc_definition ` {d \<in> set (all_decls ul es). dc_enabled d} =
     resolved ul ` {f \<in> declared_feeds (set es). fc_enabled f}"
proof -
  have decls: "set (all_decls ul es) = (\<Union>(e, c)\<in>set es. set (table_decls ul e (ic_feed c)))"
    by (auto simp: all_decls_def)
  have feeds: "declared_feeds (set es) = (\<Union>(e, c)\<in>set es. set (ic_feed c))"
    by (auto simp: declared_feeds_def)
  show "dc_definition ` set (all_decls ul es) = resolved ul ` declared_feeds (set es)"
    unfolding decls feeds image_UN by (simp add: case_prod_beta table_decls_feeds)
  have on: "{d \<in> (\<Union>(e, c)\<in>set es. set (table_decls ul e (ic_feed c))). dc_enabled d} =
      (\<Union>(e, c)\<in>set es. {d \<in> set (table_decls ul e (ic_feed c)). dc_enabled d})"
    "{f \<in> (\<Union>(e, c)\<in>set es. set (ic_feed c)). fc_enabled f} =
      (\<Union>(e, c)\<in>set es. {f \<in> set (ic_feed c). fc_enabled f})"
    by auto
  show "dc_definition ` {d \<in> set (all_decls ul es). dc_enabled d} =
     resolved ul ` {f \<in> declared_feeds (set es). fc_enabled f}"
    unfolding decls feeds on image_UN by (simp add: case_prod_beta table_decls_feeds)
qed

definition strict_limits :: "IntelConf set \<Rightarrow> Limits" where
  "strict_limits C =
     \<lparr>li_timeout = unwrap_or (opinion ic_timeout None C) (li_timeout feed_limits_default),
      li_staleness = unwrap_or (opinion ic_staleness None C) (li_staleness feed_limits_default),
      li_max_body_bytes = unwrap_or (opinion ic_max_body_bytes None C) (li_max_body_bytes feed_limits_default),
      li_max_entries = unwrap_or (opinion ic_max_entries None C) (li_max_entries feed_limits_default),
      li_redirect_hops = unwrap_or (opinion ic_redirect_hops None C) (li_redirect_hops feed_limits_default)\<rparr>"

lemma resolve_fold: "opinions_resolve (foldl (\<lambda>a c. opinions_fold c a) opinions_default cs) = strict_limits (set cs)"
  by (simp add: opinions_fold_all opinions_resolve_def opinions_default_def strict_limits_def)

lemma plan_Ok:
  assumes "plan lib ul es = Ok p"
  shows "pl_limits p = strict_limits (snd ` set es)"
    and "distinct (map df_name (pl_definitions p))"
    and "set (pl_definitions p) = resolved ul ` {f \<in> declared_feeds (set es). fc_enabled f}"
    and "distinct (pl_manual p)"
    and "set (pl_manual p) = (\<Union>(e, c)\<in>set es. set (ic_manual c))"
proof -
  obtain D where D: "collapse_declared (all_decls ul es) = Ok D"
    and p: "p = \<lparr>pl_definitions = D,
      pl_manual = foldl (\<lambda>m v. if v \<in> set m then m else m @ [v]) [] (all_manual es),
      pl_limits = opinions_resolve (foldl (\<lambda>a c. opinions_fold c a) opinions_default (map snd es))\<rparr>"
    using assms by (auto simp: plan_def result_bind_Ok plan_entries_Ok)
  show "pl_limits p = strict_limits (snd ` set es)"
    using resolve_fold [of "map snd es"] by (simp add: p)
  show "distinct (map df_name (pl_definitions p))"
    and "set (pl_definitions p) = resolved ul ` {f \<in> declared_feeds (set es). fc_enabled f}"
    using collapse_declared_Ok [OF D] by (simp_all add: p all_decls_feeds)
  show "distinct (pl_manual p)" by (simp add: p push_new_distinct)
  show "set (pl_manual p) = (\<Union>(e, c)\<in>set es. set (ic_manual c))"
    by (auto simp: p push_new_set all_manual_def)
qed

lemma plan_is_Ok:
  "is_Ok (plan lib ul es) \<longleftrightarrow>
     (\<forall>(e, c)\<in>set es. intel_table_ok lib ul c) \<and> names_agree (resolved ul ` declared_feeds (set es))"
proof (cases "list_all (intel_table_ok lib ul \<circ> snd) es")
  case True
  let ?M = "foldl (\<lambda>m v. if v \<in> set m then m else m @ [v]) [] (all_manual es)"
  let ?O = "foldl (\<lambda>a c. opinions_fold c a) opinions_default (map snd es)"
  have "plan_entries lib ul es [] [] opinions_default = Ok (all_decls ul es, ?M, ?O)"
    using True plan_entries_Ok [of lib ul es "[]" "[]" opinions_default] by simp
  then have "is_Ok (plan lib ul es) = is_Ok (collapse_declared (all_decls ul es))"
    by (cases "collapse_declared (all_decls ul es)") (simp_all add: plan_def)
  with True show ?thesis
    by (auto simp: collapse_declared_is_Ok all_decls_feeds list_all_iff)
next
  case False
  then have "\<not> is_Ok (plan_entries lib ul es [] [] opinions_default)"
    using plan_entries_Ok [of lib ul es "[]" "[]" opinions_default]
    by (cases "plan_entries lib ul es [] [] opinions_default") auto
  then have "\<not> is_Ok (plan lib ul es)"
    by (cases "plan_entries lib ul es [] [] opinions_default") (auto simp: plan_def)
  with False show ?thesis by (auto simp: list_all_iff)
qed

end
