(* ===== verification/Intel_Egress.thy ===== *)
theory Intel_Egress
  imports Intel_Config Client_Ip
begin

text \<open>
  \<open>pingap-intel/src/egress.rs\<close>: what the node may connect to while it fetches a feed. The guard
  decides the URL's literal host, every resolved address and every redirect hop. The HTTP client
  is \<open>reqwest\<close>'s, so one request is a parameter: a tree \<open>http_run\<close> of the hook calls and
  connections it makes, each continuing with what the hook answered. \<open>conforms\<close> states what
  the guard relies on of such a client: it connects to the literal host of a URL it was sent to or
  was allowed to follow, or to an address the resolver returned, and it follows no refused hop.
\<close>

section \<open>Refused families\<close>

definition REFUSED_FAMILIES :: "(string \<times> string) list" where
  "REFUSED_FAMILIES =
     [(''0.0.0.0/8'', ''the unspecified address, which Linux connects as loopback''),
      (''10.0.0.0/8'', ''private''),
      (''127.0.0.0/8'', ''loopback''),
      (''169.254.0.0/16'', ''link-local, which is where cloud metadata lives''),
      (''172.16.0.0/12'', ''private''),
      (''192.168.0.0/16'', ''private''),
      (''::/128'', ''the unspecified address, which Linux connects as loopback''),
      (''::1/128'', ''loopback''),
      (''fc00::/7'', ''unique-local''),
      (''fe80::/10'', ''link-local'')]"

record 'n Family =
  fa_prefix :: string
  fa_label :: string
  fa_rules :: "'n ip_rules"

definition family_reason :: "'n Family \<Rightarrow> string" where
  "family_reason f = fa_prefix f @ '', '' @ fa_label f"

definition to_ipv4_mapped :: "128 word \<Rightarrow> 32 word option" where
  "to_ipv4_mapped v6 = (if drop_bit 32 v6 = 0xFFFF then Some (ucast v6) else None)"

definition family_matches :: "'n ipnet_lib \<Rightarrow> 'n Family \<Rightarrow> IpAddr \<Rightarrow> bool" where
  "family_matches lib f addr =
     (if is_match_addr lib (fa_rules f) addr then True
      else (case addr of
              V6 v6 \<Rightarrow> (case to_ipv4_mapped v6 of
                           Some v4 \<Rightarrow> is_match_addr lib (fa_rules f) (V4 v4)
                         | None \<Rightarrow> False)
            | V4 _ \<Rightarrow> False))"

definition families :: "'n ipnet_lib \<Rightarrow> 'n Family list" where
  "families lib =
     map (\<lambda>(prefix, label). \<lparr>fa_prefix = prefix, fa_label = label, fa_rules = ip_rules_new lib [prefix]\<rparr>)
       REFUSED_FAMILIES"

definition classify_family :: "'n ipnet_lib \<Rightarrow> IpAddr \<Rightarrow> 'n Family option" where
  "classify_family lib addr = find (\<lambda>f. family_matches lib f addr) (families lib)"

section \<open>The guard\<close>

datatype EgressError = Refused string string | Lookup string string | ClientBuild string

record Guard =
  gd_allow_private_targets :: bool
  gd_max_hops :: usize
  gd_refusals :: u64
  gd_opt_outs :: u64

definition guard_new :: "bool \<Rightarrow> usize \<Rightarrow> Guard" where
  "guard_new allow max_hops =
     \<lparr>gd_allow_private_targets = allow, gd_max_hops = max_hops, gd_refusals = 0, gd_opt_outs = 0\<rparr>"

definition guard_strict :: Guard where
  "guard_strict = guard_new False 0"

definition permits :: "'n ipnet_lib \<Rightarrow> Guard \<Rightarrow> IpAddr \<Rightarrow> bool" where
  "permits lib g addr \<longleftrightarrow> gd_allow_private_targets g \<or> classify_family lib addr = None"

definition decide :: "'n ipnet_lib \<Rightarrow> IpAddr \<Rightarrow> Guard \<Rightarrow> Guard \<times> (unit, 'n Family) result" where
  "decide lib addr g =
     (case classify_family lib addr of
        None \<Rightarrow> (g, Ok ())
      | Some family \<Rightarrow>
          if gd_allow_private_targets g then (g\<lparr>gd_opt_outs := gd_opt_outs g + 1\<rparr>, Ok ())
          else (g\<lparr>gd_refusals := gd_refusals g + 1\<rparr>, Err family))"

definition check_addr ::
  "'n ipnet_lib \<Rightarrow> 'u url_lib \<Rightarrow> IpAddr \<Rightarrow> 'u \<Rightarrow> Guard \<Rightarrow> Guard \<times> (unit, EgressError) result" where
  "check_addr lib ul addr url g =
     (let (g', r) = decide lib addr g in
      (g', map_err (\<lambda>family. Refused (url_to_string ul url) (family_reason family)) r))"

definition check_url ::
  "'n ipnet_lib \<Rightarrow> 'u url_lib \<Rightarrow> 'u \<Rightarrow> Guard \<Rightarrow> Guard \<times> (unit, EgressError) result" where
  "check_url lib ul url g =
     (if url_scheme ul url \<notin> {''http'', ''https''}
      then (g, Err (Refused (url_to_string ul url)
              (url_scheme ul url @ '' is not a feed transport; only http and https are'')))
      else (case url_host ul url of
              Some (HostIpv4 v4) \<Rightarrow> check_addr lib ul (V4 v4) url g
            | Some (HostIpv6 v6) \<Rightarrow> check_addr lib ul (V6 v6) url g
            | Some (Domain _) \<Rightarrow> (g, Ok ())
            | None \<Rightarrow> (g, Ok ())))"

text \<open>The closure of \<open>redirect_policy\<close>; \<open>previous\<close> is \<open>attempt.previous().len()\<close>.\<close>

definition redirect_policy ::
  "'n ipnet_lib \<Rightarrow> 'u url_lib \<Rightarrow> 'u \<Rightarrow> usize \<Rightarrow> Guard \<Rightarrow> Guard \<times> (unit, EgressError) result" where
  "redirect_policy lib ul url previous g =
     (case check_url lib ul url g of
        (g', Err error) \<Rightarrow> (g', Err error)
      | (g', Ok _) \<Rightarrow>
          if previous > gd_max_hops g'
          then (g', Err (Refused (url_to_string ul url)
                  (''redirect hop budget exceeded: this feed allows '' @ show_nat (gd_max_hops g'))))
          else (g', Ok ()))"

type_synonym SocketAddr = "IpAddr \<times> u16"

fun permitted_loop ::
  "'n ipnet_lib \<Rightarrow> string \<Rightarrow> SocketAddr list \<Rightarrow> SocketAddr list \<Rightarrow> string option \<Rightarrow> Guard
     \<Rightarrow> Guard \<times> SocketAddr list \<times> string option" where
  "permitted_loop lib host [] allowed refusal g = (g, allowed, refusal)"
| "permitted_loop lib host (addr # addrs) allowed refusal g =
     (case decide lib (fst addr) g of
        (g', Err family) \<Rightarrow>
          permitted_loop lib host addrs allowed
            (case refusal of
               Some r \<Rightarrow> Some r
             | None \<Rightarrow> Some (host @ '' resolved to '' @ ip_to_string (fst addr) @ '', '' @ family_reason family))
            g'
      | (g', Ok _) \<Rightarrow> permitted_loop lib host addrs (allowed @ [addr]) refusal g')"

definition permitted ::
  "'n ipnet_lib \<Rightarrow> string \<Rightarrow> SocketAddr list \<Rightarrow> Guard \<Rightarrow> Guard \<times> (SocketAddr list, EgressError) result" where
  "permitted lib host addrs g =
     (let (g', allowed, refusal) = permitted_loop lib host addrs [] None g in
      if allowed \<noteq> [] then (g', Ok allowed)
      else (g', Err (Refused host
              (case refusal of
                 Some reason \<Rightarrow> reason
               | None \<Rightarrow> host @ '' resolved to no address, so there is nothing permitted to connect to''))))"

text \<open>\<open>EgressResolver::resolve\<close>, given what \<open>lookup_host\<close> returned.\<close>

definition egress_resolve ::
  "'n ipnet_lib \<Rightarrow> string \<Rightarrow> (SocketAddr list, string) result \<Rightarrow> Guard
     \<Rightarrow> Guard \<times> (SocketAddr list, EgressError) result" where
  "egress_resolve lib host lookup g =
     (case lookup of
        Err source \<Rightarrow> (g, Err (Lookup host source))
      | Ok addrs \<Rightarrow> permitted lib host addrs g)"

section \<open>One request of the guarded client\<close>

record http_response =
  hr_status :: u16
  hr_chunks :: "(string, string) result list"

datatype 'u http_run =
    Resolving string "(SocketAddr list, string) result"
      "(SocketAddr list, EgressError) result \<Rightarrow> 'u http_run"
  | Redirecting 'u usize "(unit, EgressError) result \<Rightarrow> 'u http_run"
  | Connecting IpAddr "'u http_run"
  | Answered "(http_response, string) result"

record 'u send_log =
  sl_guard :: Guard
  sl_connected :: "IpAddr list"
  sl_followed :: "'u list"
  sl_answer :: "(http_response, string) result"

primrec client_send :: "'n ipnet_lib \<Rightarrow> 'u url_lib \<Rightarrow> 'u http_run \<Rightarrow> Guard \<Rightarrow> 'u send_log" where
  "client_send lib ul (Resolving host lookup k) g =
     (case egress_resolve lib host lookup g of (g', r) \<Rightarrow> client_send lib ul (k r) g')"
| "client_send lib ul (Redirecting url previous k) g =
     (case redirect_policy lib ul url previous g of
        (g', r) \<Rightarrow>
          let l = client_send lib ul (k r) g' in
          if is_Ok r then l\<lparr>sl_followed := url # sl_followed l\<rparr> else l)"
| "client_send lib ul (Connecting addr k) g =
     (let l = client_send lib ul k g in l\<lparr>sl_connected := addr # sl_connected l\<rparr>)"
| "client_send lib ul (Answered r) g =
     \<lparr>sl_guard = g, sl_connected = [], sl_followed = [], sl_answer = r\<rparr>"

definition literal_host :: "'u url_lib \<Rightarrow> 'u \<Rightarrow> IpAddr set" where
  "literal_host ul url =
     (case url_host ul url of
        Some (HostIpv4 v4) \<Rightarrow> {V4 v4}
      | Some (HostIpv6 v6) \<Rightarrow> {V6 v6}
      | _ \<Rightarrow> {})"

text \<open>\<open>A\<close>: the addresses the client may use now; \<open>n\<close>: how many URLs it has visited.\<close>

primrec conforms :: "'u url_lib \<Rightarrow> 'u http_run \<Rightarrow> IpAddr set \<Rightarrow> usize \<Rightarrow> bool" where
  "conforms ul (Resolving host lookup k) A n \<longleftrightarrow>
     (\<forall>allowed. conforms ul (k (Ok allowed)) (A \<union> fst ` set allowed) n) \<and>
     (\<forall>e. conforms ul (k (Err e)) A n)"
| "conforms ul (Redirecting url previous k) A n \<longleftrightarrow>
     previous = n \<and> conforms ul (k (Ok ())) (literal_host ul url) (n + 1) \<and>
     (\<forall>e. conforms ul (k (Err e)) {} n)"
| "conforms ul (Connecting addr k) A n \<longleftrightarrow> addr \<in> A \<and> conforms ul k A n"
| "conforms ul (Answered r) A n \<longleftrightarrow> True"

section \<open>Decisions\<close>

text \<open>What no decision changes: the policy, and, of a strict guard, the opt-out count.\<close>

definition same_policy :: "Guard \<Rightarrow> Guard \<Rightarrow> bool" where
  "same_policy g g' \<longleftrightarrow>
     gd_allow_private_targets g' = gd_allow_private_targets g \<and> gd_max_hops g' = gd_max_hops g \<and>
     (gd_allow_private_targets g \<or> gd_opt_outs g' = gd_opt_outs g)"

lemma same_policy_refl [simp]: "same_policy g g"
  by (simp add: same_policy_def)

lemma same_policy_trans: "same_policy g g' \<Longrightarrow> same_policy g' g'' \<Longrightarrow> same_policy g g''"
  by (auto simp: same_policy_def)

lemma same_policy_permits: "same_policy g g' \<Longrightarrow> permits lib g' a = permits lib g a"
  by (simp add: same_policy_def permits_def)

lemma decide_policy: "decide lib a g = (g', r) \<Longrightarrow> same_policy g g'"
  by (auto simp: decide_def same_policy_def split: option.splits if_splits)

lemma decide_Ok: "decide lib a g = (g', r) \<Longrightarrow> is_Ok r = permits lib g a"
  by (auto simp: decide_def permits_def split: option.splits if_splits)

lemma check_url_policy: "check_url lib ul url g = (g', r) \<Longrightarrow> same_policy g g'"
  by (auto simp: check_url_def check_addr_def dest: decide_policy
      split: option.splits if_splits Host.splits prod.splits)

lemma is_Ok_map_err [simp]: "is_Ok (map_err f r) = is_Ok r"
  by (cases r) auto

lemma check_url_literal:
  "check_url lib ul url g = (g', Ok ()) \<Longrightarrow> a \<in> literal_host ul url \<Longrightarrow> permits lib g a"
  by (auto simp: check_url_def check_addr_def literal_host_def dest!: decide_Ok
      split: option.splits if_splits Host.splits prod.splits)
    (metis is_Ok_map_err result.disc(1))+

lemma redirect_policy_policy: "redirect_policy lib ul url n g = (g', r) \<Longrightarrow> same_policy g g'"
  by (auto simp: redirect_policy_def dest: check_url_policy split: prod.splits result.splits if_splits)

lemma redirect_policy_Ok:
  "redirect_policy lib ul url n g = (g', Ok ()) \<Longrightarrow>
     check_url lib ul url g = (g', Ok ()) \<and> n \<le> gd_max_hops g"
  using check_url_policy [of lib ul url g]
  by (auto simp: redirect_policy_def same_policy_def split: prod.splits result.splits if_splits)

lemma permitted_loop_allowed:
  "permitted_loop lib host addrs allowed refusal g = (g', allowed', refusal') \<Longrightarrow>
     same_policy g g' \<and> allowed' = allowed @ filter (\<lambda>a. permits lib g (fst a)) addrs"
proof (induction addrs arbitrary: allowed refusal g)
  case (Cons addr addrs)
  obtain g1 r where d: "decide lib (fst addr) g = (g1, r)" by fastforce
  note p = decide_policy [OF d] and k = decide_Ok [OF d]
  show ?case
  proof (cases r)
    case (Ok u)
    with Cons.prems d have "permitted_loop lib host addrs (allowed @ [addr]) refusal g1 = (g', allowed', refusal')"
      by simp
    from Cons.IH [OF this] have
      "same_policy g1 g' \<and> allowed' = (allowed @ [addr]) @ filter (\<lambda>a. permits lib g1 (fst a)) addrs" by simp
    with p k Ok show ?thesis
      by (auto simp: same_policy_permits [OF p] intro: same_policy_trans)
  next
    case (Err f)
    with Cons.prems d obtain refusal1 where
      "permitted_loop lib host addrs allowed refusal1 g1 = (g', allowed', refusal')"
      by auto
    from Cons.IH [OF this] have
      "same_policy g1 g' \<and> allowed' = allowed @ filter (\<lambda>a. permits lib g1 (fst a)) addrs" by simp
    with p k Err show ?thesis
      by (auto simp: same_policy_permits [OF p] intro: same_policy_trans)
  qed
qed simp

lemma egress_resolve_policy: "egress_resolve lib host lookup g = (g', r) \<Longrightarrow> same_policy g g'"
  by (auto simp: egress_resolve_def permitted_def Let_def dest: permitted_loop_allowed
      split: result.splits prod.splits if_splits)

lemma egress_resolve_Ok:
  assumes "egress_resolve lib host lookup g = (g', Ok allowed)"
  shows "\<exists>addrs. lookup = Ok addrs \<and> allowed = filter (\<lambda>a. permits lib g (fst a)) addrs \<and> allowed \<noteq> []"
  using assms
  by (auto simp: egress_resolve_def permitted_def Let_def dest: permitted_loop_allowed
      split: result.splits prod.splits if_splits)

section \<open>No connection to a refused address\<close>

lemma client_send_safe:
  assumes "conforms ul run A n" and "\<forall>a\<in>A. permits lib g a"
  shows "same_policy g (sl_guard (client_send lib ul run g)) \<and>
    (\<forall>a\<in>set (sl_connected (client_send lib ul run g)). permits lib g a) \<and>
    length (sl_followed (client_send lib ul run g)) \<le> gd_max_hops g + 1 - n"
  using assms
proof (induction run arbitrary: A n g)
  case (Resolving host lookup k)
  obtain g' r where r: "egress_resolve lib host lookup g = (g', r)" by fastforce
  note pol = egress_resolve_policy [OF r]
  define B where "B = (case r of Ok allowed \<Rightarrow> A \<union> fst ` set allowed | Err _ \<Rightarrow> A)"
  have conf: "conforms ul (k r) B n"
    using Resolving.prems(1) by (cases r) (simp_all add: B_def)
  have perm: "\<forall>a\<in>B. permits lib g' a"
    using Resolving.prems(2) egress_resolve_Ok [of lib host lookup g g'] r
    by (cases r) (auto simp: B_def same_policy_permits [OF pol])
  from Resolving.IH [OF rangeI conf perm] pol show ?case
    by (auto simp: r same_policy_permits [OF pol] intro: same_policy_trans)
      (auto simp: same_policy_def)
next
  case (Redirecting url previous k)
  obtain g' r where r: "redirect_policy lib ul url previous g = (g', r)" by fastforce
  note pol = redirect_policy_policy [OF r]
  show ?case
  proof (cases r)
    case (Ok u)
    with r have ok: "redirect_policy lib ul url previous g = (g', Ok ())" by simp
    note c = redirect_policy_Ok [OF ok]
    have "conforms ul (k r) (literal_host ul url) (n + 1)" and n: "n \<le> gd_max_hops g"
      using Redirecting.prems(1) c Ok by simp_all
    moreover have "\<forall>a\<in>literal_host ul url. permits lib g' a"
      using c check_url_literal [of lib ul url g g'] by (auto simp: same_policy_permits [OF pol])
    ultimately have "same_policy g' (sl_guard (client_send lib ul (k r) g')) \<and>
        (\<forall>a\<in>set (sl_connected (client_send lib ul (k r) g')). permits lib g' a) \<and>
        length (sl_followed (client_send lib ul (k r) g')) \<le> gd_max_hops g' + 1 - (n + 1)"
      by (intro Redirecting.IH) auto
    moreover have "gd_max_hops g' = gd_max_hops g" using pol by (simp add: same_policy_def)
    ultimately show ?thesis
      using pol n Ok by (auto simp: r Let_def same_policy_permits [OF pol] intro: same_policy_trans)
  next
    case (Err e)
    then have "conforms ul (k r) {} n" using Redirecting.prems(1) by simp
    from Redirecting.IH [OF rangeI this, of g'] pol Err show ?thesis
      by (auto simp: r Let_def same_policy_permits [OF pol] intro: same_policy_trans)
        (auto simp: same_policy_def)
  qed
next
  case (Connecting addr k)
  then have "conforms ul k A n" and "addr \<in> A" by simp_all
  with Connecting.IH [OF this(1) Connecting.prems(2)] Connecting.prems(2) show ?case
    by (auto simp: Let_def)
qed simp

end
