(* ===== verification/Intel_Feed.thy ===== *)
theory Intel_Feed
  imports Intel_Egress Utf8
begin

text \<open>
  \<open>pingap-intel/src/feed.rs\<close>: one feed is fetched under the guard and parsed. What the HTTP
  client and the \<open>http\<close> crate contribute is the parameter \<open>http_client\<close>: whether a client can be
  built, the run of one request, and the text of a status and of a UTF-8 error. The body loop and
  every error path are the source's.
\<close>

section \<open>Errors\<close>

datatype FeedError =
    FeedStatus string u16
  | FeedRequest string string
  | BodyTooLarge string usize
  | FeedEgress string EgressError
  | FeedUtf8 string nat

record 'u http_client =
  hc_build :: "duration \<Rightarrow> (unit, string) result"
  hc_request :: "'u \<Rightarrow> 'u http_run"
  hc_status_text :: "u16 \<Rightarrow> string"
  hc_utf8_text :: "nat \<Rightarrow> string"

primrec egress_error_to_string :: "EgressError \<Rightarrow> string" where
  "egress_error_to_string (Refused target reason) = ''intel: refused to reach '' @ target @ '': '' @ reason"
| "egress_error_to_string (Lookup host source) = ''intel: could not resolve '' @ host @ '': '' @ source"
| "egress_error_to_string (ClientBuild source) = ''intel: the feed client could not be built: '' @ source"

primrec feed_error_to_string :: "'u http_client \<Rightarrow> FeedError \<Rightarrow> string" where
  "feed_error_to_string hc (FeedStatus feed status) =
     ''intel feed `'' @ feed @ ''` returned HTTP '' @ hc_status_text hc status"
| "feed_error_to_string hc (FeedRequest feed source) =
     ''intel feed `'' @ feed @ ''` could not be fetched: '' @ source"
| "feed_error_to_string hc (BodyTooLarge feed limit) =
     ''intel feed `'' @ feed @ ''` exceeded the '' @ show_nat limit @ ''-byte body cap''"
| "feed_error_to_string hc (FeedEgress feed source) =
     ''intel feed `'' @ feed @ ''` egress was refused: '' @ egress_error_to_string source"
| "feed_error_to_string hc (FeedUtf8 feed source) =
     ''intel feed `'' @ feed @ ''` body was not UTF-8: '' @ hc_utf8_text hc source"

primrec error_feed :: "FeedError \<Rightarrow> string" where
  "error_feed (FeedStatus feed _) = feed"
| "error_feed (FeedRequest feed _) = feed"
| "error_feed (BodyTooLarge feed _) = feed"
| "error_feed (FeedEgress feed _) = feed"
| "error_feed (FeedUtf8 feed _) = feed"

section \<open>The fetch\<close>

record 'n FeedResult =
  fr_name :: string
  fr_parsed :: "'n parsed"
  fr_fetched_at :: nat

text \<open>The body loop: a chunk that would take the body past the cap ends the fetch.\<close>

fun read_chunks ::
  "string \<Rightarrow> usize \<Rightarrow> (string, string) result list \<Rightarrow> string \<Rightarrow> (string, FeedError) result" where
  "read_chunks feed limit [] body = Ok body"
| "read_chunks feed limit (Err source # chunks) body = Err (FeedRequest feed source)"
| "read_chunks feed limit (Ok chunk # chunks) body =
     (if sat_add_usize (length body) (length chunk) > limit then Err (BodyTooLarge feed limit)
      else read_chunks feed limit chunks (body @ chunk))"

definition is_success :: "u16 \<Rightarrow> bool" where
  "is_success status \<longleftrightarrow> 200 \<le> unat status \<and> unat status < 300"

definition finish_fetch ::
  "'n ipnet_lib \<Rightarrow> 'u Definition \<Rightarrow> Limits \<Rightarrow> nat \<Rightarrow> http_response \<Rightarrow> ('n FeedResult, FeedError) result" where
  "finish_fetch lib d limits fetched_at response =
     (if \<not> is_success (hr_status response) then Err (FeedStatus (df_name d) (hr_status response))
      else result_bind (read_chunks (df_name d) (li_max_body_bytes limits) (hr_chunks response) []) (\<lambda>body.
           result_bind (map_err (FeedUtf8 (df_name d)) (from_utf8 body)) (\<lambda>content.
           Ok \<lparr>fr_name = df_name d, fr_parsed = parse_feed lib content (li_max_entries limits),
               fr_fetched_at = fetched_at\<rparr>)))"

record ('n, 'u) fetch_log =
  fl_outcome :: "('n FeedResult, FeedError) result"
  fl_guard :: Guard
  fl_connected :: "IpAddr list"
  fl_followed :: "'u list"

definition fetch_under ::
  "'n ipnet_lib \<Rightarrow> 'u url_lib \<Rightarrow> 'u http_client \<Rightarrow> Guard \<Rightarrow> 'u Definition \<Rightarrow> Limits \<Rightarrow> nat
     \<Rightarrow> ('n, 'u) fetch_log" where
  "fetch_under lib ul hc g d limits fetched_at =
     (case check_url lib ul (df_url d) g of
        (g', Err source) \<Rightarrow>
          \<lparr>fl_outcome = Err (FeedEgress (df_name d) source), fl_guard = g', fl_connected = [], fl_followed = []\<rparr>
      | (g', Ok _) \<Rightarrow>
          (case hc_build hc (li_timeout limits) of
             Err source \<Rightarrow>
               \<lparr>fl_outcome = Err (FeedEgress (df_name d) (ClientBuild source)), fl_guard = g',
                fl_connected = [], fl_followed = []\<rparr>
           | Ok _ \<Rightarrow>
               (let l = client_send lib ul (hc_request hc (df_url d)) g' in
                \<lparr>fl_outcome = result_bind (map_err (FeedRequest (df_name d)) (sl_answer l))
                   (finish_fetch lib d limits fetched_at),
                 fl_guard = sl_guard l, fl_connected = sl_connected l, fl_followed = sl_followed l\<rparr>)))"

definition fetch ::
  "'n ipnet_lib \<Rightarrow> 'u url_lib \<Rightarrow> 'u http_client \<Rightarrow> 'u Definition \<Rightarrow> Limits \<Rightarrow> nat
     \<Rightarrow> ('n FeedResult, FeedError) result \<times> u64" where
  "fetch lib ul hc d limits fetched_at =
     (let l = fetch_under lib ul hc (guard_new (df_allow_private_targets d) (li_redirect_hops limits))
                d limits fetched_at in
      (fl_outcome l, gd_opt_outs (fl_guard l)))"

section \<open>What a fetch can do\<close>

lemma read_chunks_bounded:
  assumes "length body \<le> limit" and "limit < usize_max" and "read_chunks feed limit chunks body = Ok r"
  shows "length r \<le> limit \<and> (\<exists>parts. map Ok parts = chunks \<and> r = body @ concat parts)"
  using assms
proof (induction feed limit chunks body rule: read_chunks.induct)
  case (3 feed limit chunk chunks body)
  then have fits: "length (body @ chunk) \<le> limit"
    and rest: "read_chunks feed limit chunks (body @ chunk) = Ok r"
    by (auto simp: sat_add_usize_def split: if_splits)
  from 3(1) [OF _ fits \<open>limit < usize_max\<close> rest] 3(4) obtain parts
    where "length r \<le> limit" "map Ok parts = chunks" "r = (body @ chunk) @ concat parts"
    by (auto split: if_splits)
  then show ?case by (intro conjI exI [of _ "chunk # parts"]) simp_all
qed simp_all

lemma fetch_error_names_feed:
  "fl_outcome (fetch_under lib ul hc g d limits t) = Err e \<Longrightarrow> error_feed e = df_name d"
proof -
  have chunks: "read_chunks feed limit cs body = Err e \<Longrightarrow> error_feed e = feed" for feed limit cs body
    by (induction feed limit cs body rule: read_chunks.induct) (auto split: if_splits)
  have finish: "finish_fetch lib d limits t resp = Err e \<Longrightarrow> error_feed e = df_name d" for resp
    by (cases "read_chunks (df_name d) (li_max_body_bytes limits) (hr_chunks resp) []")
      (auto simp: finish_fetch_def from_utf8_def split: if_splits dest: chunks)
  have answer: "result_bind (map_err (FeedRequest (df_name d)) a) (finish_fetch lib d limits t) = Err e \<Longrightarrow>
      error_feed e = df_name d" for a
    by (cases a) (auto dest: finish)
  assume "fl_outcome (fetch_under lib ul hc g d limits t) = Err e"
  then show ?thesis
    by (auto simp: fetch_under_def Let_def split: prod.splits result.splits dest: answer)
qed

end
