(* ===== verification/Ord_Map.thy ===== *)
theory Ord_Map
  imports Prelude "HOL-Library.Char_ord" "HOL-Library.List_Lexorder"
begin

text \<open>
  \<open>std::collections::BTreeMap\<close> keyed by strings: an association list in ascending key order
  (Rust's byte-wise string order is the lexicographic order on the characters). The locale
  \<open>ordered_map\<close> is what its users rely on: lookup after insertion, and iteration in key order.
\<close>

type_synonym 'v btree = "(string \<times> 'v) list"

fun btree_insert :: "string \<Rightarrow> 'v \<Rightarrow> 'v btree \<Rightarrow> 'v btree" where
  "btree_insert k v [] = [(k, v)]"
| "btree_insert k v ((k', v') # m) =
     (if k < k' then (k, v) # (k', v') # m
      else if k = k' then (k, v) # m
      else (k', v') # btree_insert k v m)"

definition btree_ok :: "'v btree \<Rightarrow> bool" where
  "btree_ok m \<longleftrightarrow> sorted_wrt (<) (map fst m)"

definition btree_collect :: "(string \<times> 'v) list \<Rightarrow> 'v btree" where
  "btree_collect kvs = foldl (\<lambda>m (k, v). btree_insert k v m) [] kvs"

text \<open>\<open>get_mut\<close> followed by an assignment through the reference.\<close>

definition btree_update :: "string \<Rightarrow> ('v \<Rightarrow> 'v) \<Rightarrow> 'v btree \<Rightarrow> 'v btree" where
  "btree_update k f m = map (\<lambda>(k', v). (k', if k' = k then f v else v)) m"

lemma set_btree_insert: "set (map fst (btree_insert k v m)) = insert k (set (map fst m))"
  by (induction k v m rule: btree_insert.induct) auto

lemma btree_insert_ok: "btree_ok m \<Longrightarrow> btree_ok (btree_insert k v m)"
proof (induction k v m rule: btree_insert.induct)
  case (2 k v k' v' m)
  then show ?case
    using set_btree_insert [of k v m] by (auto simp: btree_ok_def less_trans)
qed (simp add: btree_ok_def)

lemma map_of_btree_insert:
  "btree_ok m \<Longrightarrow> map_of (btree_insert k v m) = (map_of m)(k \<mapsto> v)"
proof (induction k v m rule: btree_insert.induct)
  case (2 k v k' v' m)
  have tail: "btree_ok m" using 2(2) by (simp add: btree_ok_def)
  show ?case
  proof (cases "k < k' \<or> k = k'")
    case False
    with 2 tail show ?thesis by (auto simp: fun_eq_iff)
  qed (auto simp: fun_eq_iff)
qed simp

lemma btree_ok_distinct: "btree_ok m \<Longrightarrow> distinct (map fst m)"
  by (induction m) (auto simp: btree_ok_def)

locale ordered_map =
  fixes insert_at :: "string \<Rightarrow> 'v \<Rightarrow> 'm \<Rightarrow> 'm"
    and lookup :: "'m \<Rightarrow> string \<Rightarrow> 'v option"
    and wf :: "'m \<Rightarrow> bool"
    and start :: 'm
  assumes wf_start: "wf start"
    and lookup_start: "lookup start = Map.empty"
    and wf_insert: "wf m \<Longrightarrow> wf (insert_at k v m)"
    and lookup_insert: "wf m \<Longrightarrow> lookup (insert_at k v m) = (lookup m)(k \<mapsto> v)"
begin

lemma collect_wf_lookup:
  "wf m \<Longrightarrow> wf (foldl (\<lambda>m (k, v). insert_at k v m) m kvs) \<and>
     lookup (foldl (\<lambda>m (k, v). insert_at k v m) m kvs) = lookup m ++ map_of (rev kvs)"
proof (induction kvs arbitrary: m)
  case (Cons kv kvs)
  obtain k v where kv: "kv = (k, v)" by (cases kv)
  have "lookup (insert_at k v m) = lookup m ++ map_of [(k, v)]"
    using lookup_insert [OF Cons.prems, of k v] by simp
  then show ?case
    using Cons.IH [OF wf_insert [OF Cons.prems, of k v]]
    by (simp only: kv foldl_Cons case_prod_conv rev.simps map_of_append map_add_assoc)
qed simp

lemma collect_lookup: "lookup (foldl (\<lambda>m (k, v). insert_at k v m) start kvs) = map_of (rev kvs)"
  and collect_wf: "wf (foldl (\<lambda>m (k, v). insert_at k v m) start kvs)"
  using collect_wf_lookup [OF wf_start, of kvs] by (simp_all add: lookup_start)

end

interpretation bt: ordered_map btree_insert map_of btree_ok "[]"
  by unfold_locales (simp_all add: btree_insert_ok map_of_btree_insert, simp add: btree_ok_def)

lemma btree_collect_ok [simp]: "btree_ok (btree_collect kvs)"
  unfolding btree_collect_def by (rule bt.collect_wf)

lemma map_of_btree_collect: "map_of (btree_collect kvs) = map_of (rev kvs)"
  unfolding btree_collect_def by (rule bt.collect_lookup)

lemma map_of_btree_collect_distinct:
  "distinct (map fst kvs) \<Longrightarrow> map_of (btree_collect kvs) = map_of kvs"
  unfolding map_of_btree_collect by (rule map_of_inject_set [THEN iffD2]) (auto simp: rev_map [symmetric])

lemma btree_update_keys [simp]: "map fst (btree_update k f m) = map fst m"
  by (auto simp: btree_update_def)

lemma btree_update_ok [simp]: "btree_ok (btree_update k f m) = btree_ok m"
  by (simp add: btree_ok_def)

lemma map_of_btree_update:
  "map_of (btree_update k f m) x = (if x = k then map_option f (map_of m k) else map_of m x)"
  by (induction m) (auto simp: btree_update_def)

lemma btree_ok_filter: "btree_ok m \<Longrightarrow> btree_ok (filter P m)"
  unfolding btree_ok_def by (induction m) auto

text \<open>Iteration is in ascending key order, so the first hit is the least key.\<close>

lemma btree_find_None:
  "btree_ok m \<Longrightarrow> find (\<lambda>(k, v). Q v) m = None \<longleftrightarrow> (\<forall>k v. map_of m k = Some v \<longrightarrow> \<not> Q v)"
  using btree_ok_distinct [of m] by (auto simp: find_None_iff map_of_eq_Some_iff)

lemma btree_find_Some:
  assumes "btree_ok m" and "find (\<lambda>(k, v). Q v) m = Some (k, v)"
  shows "map_of m k = Some v \<and> Q v \<and> (\<forall>k' v'. map_of m k' = Some v' \<longrightarrow> Q v' \<longrightarrow> k \<le> k')"
  using assms
proof (induction m)
  case (Cons kv m)
  obtain k0 v0 where kv: "kv = (k0, v0)" by (cases kv)
  have ok: "btree_ok m" and above: "\<forall>x\<in>set (map fst m). k0 < x"
    using Cons.prems(1) by (auto simp: btree_ok_def kv)
  have up: "map_of m k' = Some v' \<Longrightarrow> k0 < k'" for k' v'
    using above by (auto dest!: map_of_SomeD)
  show ?case
  proof (cases "Q v0")
    case True
    then have "k = k0" "v = v0" using Cons.prems(2) kv by auto
    with True kv up show ?thesis by (auto intro: less_imp_le)
  next
    case False
    then have "find (\<lambda>(k, v). Q v) m = Some (k, v)" using Cons.prems(2) kv by simp
    note IH = Cons.IH [OF ok this]
    then have "k0 < k" using up by blast
    with IH False kv show ?thesis by auto
  qed
qed simp

end
