(* ===== verification/Waf_Plugin.thy ===== *)
theory Waf_Plugin
  imports Http_Header Waf_Ip_Filter Waf_Engine Waf_Detectors Waf_Body Acl_Plugin Event_Queue Intel_Set
begin

text \<open>
  \<open>crates/pingap-waf/src/plugin.rs\<close>: the WAF as the gateway runs it. The configuration arrives
  decoded; the request context is the part of \<open>Ctx\<close> the plugin touches, with the process-wide
  event queue and marker counts. The \<open>http\<close> crate's URI is a record of what its accessors return.
\<close>

section \<open>State\<close>

record waf_state =
  ws_profile :: string
  ws_hits :: "Hit list"
  ws_score :: u32
  ws_enforcing_score :: u32
  ws_blocked :: bool
  ws_challenged :: bool
  ws_truncated :: bool
  ws_budget_exhausted :: bool
  ws_redacted :: bool
  ws_intel_feed :: "string option"
  ws_intel_category :: "string option"
  ws_emitted_hits :: usize
  ws_domain :: string
  ws_client_ip :: "string option"
  ws_method :: string
  ws_uri :: string
  ws_terminal_emitted :: bool

definition waf_state_default :: waf_state where
  "waf_state_default = \<lparr>ws_profile = [], ws_hits = [], ws_score = 0, ws_enforcing_score = 0,
     ws_blocked = False, ws_challenged = False, ws_truncated = False, ws_budget_exhausted = False,
     ws_redacted = False, ws_intel_feed = None, ws_intel_category = None, ws_emitted_hits = 0,
     ws_domain = [], ws_client_ip = None, ws_method = [], ws_uri = [], ws_terminal_emitted = False\<rparr>"

record waf_ctx =
  wx_client_ip :: "string option"
  wx_location :: string
  wx_status :: "u16 option"
  wx_waf :: "waf_state option"
  wx_request_body :: "body_buffer option"
  wx_upstream_body :: "body_buffer option"
  wx_downstream_body :: "body_buffer option"
  wx_marker :: "challenge_marker option"
  wx_written :: "(string \<times> u64) list"
  wx_variables :: "(string \<times> string) list"
  wx_queue :: "EventQueue option"

record plugin_extras =
  px_over_cap :: OverCap
  px_ip_list_mode :: ListMode
  px_ip_list :: "string list"

record ('re, 'ac, 'n, 'u) waf =
  wf_plugin_step :: PluginStep
  wf_engine :: "('re, 'ac) rule_engine"
  wf_ip_filter :: "'n ip_filter option"
  wf_intel :: "('n, 'u) FeedRegistry option"
  wf_over_cap :: OverCap
  wf_body_limit :: usize
  wf_response_prefix_limit :: usize
  wf_profile :: string
  wf_forbidden :: response

record ('re, 'hir, 'ac, 'n, 'u) waf_world =
  ww_ipnet :: "'n ipnet_lib"
  ww_urls :: "'u url_lib"
  ww_http :: http_lib
  ww_libs :: "('re, 'hir, 'ac) waf_libs"
  ww_clock :: clock
  ww_now :: int
  ww_proxies :: "'n proxy_state"
  ww_hosts :: host_policy

definition absorb :: "Hit list \<Rightarrow> u32 \<Rightarrow> u32 \<Rightarrow> waf_state \<Rightarrow> waf_state" where
  "absorb hits score enforcing st =
     st\<lparr>ws_hits := ws_hits st @ hits, ws_score := sat_add (ws_score st) score,
        ws_enforcing_score := sat_add (ws_enforcing_score st) enforcing\<rparr>"

section \<open>Publication\<close>

definition event_verdict :: "waf_state \<Rightarrow> Verdict" where
  "event_verdict st = (if ws_blocked st then VBlock else if ws_redacted st then VRedact else VDetect)"

fun show_severity :: "Severity \<Rightarrow> string" where
  "show_severity Notice = ''notice''"
| "show_severity Warning = ''warning''"
| "show_severity Error = ''error''"
| "show_severity Critical = ''critical''"

definition state_event ::
  "int \<Rightarrow> waf_state \<Rightarrow> u32 option \<Rightarrow> string option \<Rightarrow> string option \<Rightarrow> u32 \<Rightarrow> WafEvent" where
  "state_event now st rule category severity score =
     \<lparr>we_node = ws_domain st, we_domain = ws_domain st, we_profile = ws_profile st, we_rule_id = rule,
      we_category = category, we_severity = severity, we_score = score, we_verdict = event_verdict st,
      we_client_ip = ws_client_ip st, we_method = Some (ws_method st), we_uri = Some (ws_uri st),
      we_created_at = now\<rparr>"

definition hit_event :: "int \<Rightarrow> waf_state \<Rightarrow> Hit \<Rightarrow> WafEvent" where
  "hit_event now st h =
     state_event now st (Some (h_rule_id h)) (Some (category_key (h_category h)))
       (Some (show_severity (h_severity h))) (h_score h)"

definition offer_new_events :: "int \<Rightarrow> bool \<Rightarrow> waf_ctx \<Rightarrow> waf_ctx" where
  "offer_new_events now terminal ctx =
     (case (wx_queue ctx, wx_waf ctx) of
        (Some queue, Some st) \<Rightarrow>
          (let events = map (hit_event now st) (drop (ws_emitted_hits st) (ws_hits st));
               st = st\<lparr>ws_emitted_hits := length (ws_hits st)\<rparr>;
               aggregate = (terminal \<and> events = [] \<and> \<not> ws_terminal_emitted st);
               st = (if aggregate then st\<lparr>ws_terminal_emitted := True\<rparr> else st);
               queue = foldl (\<lambda>q e. snd (offer e q)) queue events;
               queue = (if aggregate
                        then snd (offer (state_event now st None (ws_intel_category st) None (ws_score st)) queue)
                        else queue) in
           ctx\<lparr>wx_queue := Some queue, wx_waf := Some st\<rparr>)
      | _ \<Rightarrow> ctx)"

definition waf_action :: "waf_state \<Rightarrow> string" where
  "waf_action st =
     (if ws_blocked st then ''block''
      else if ws_challenged st then ''challenge''
      else if ws_redacted st then ''redact''
      else if ws_hits st = [] then ''pass'' else ''detect'')"

fun severity_rank :: "Severity \<Rightarrow> nat" where
  "severity_rank Notice = 0"
| "severity_rank Warning = 1"
| "severity_rank Error = 2"
| "severity_rank Critical = 3"

definition worst_severity :: "Hit list \<Rightarrow> Severity option" where
  "worst_severity hits =
     foldl (\<lambda>w h. case w of
              None \<Rightarrow> Some (h_severity h)
            | Some s \<Rightarrow> Some (if severity_rank s \<le> severity_rank (h_severity h) then h_severity h else s))
       None hits"

definition verdict_fields :: "waf_state \<Rightarrow> (string \<times> string) list" where
  "verdict_fields st =
     [(''waf_action'', waf_action st)] @
     (if ws_hits st = [] then []
      else [(''waf_profile'', ws_profile st), (''waf_score'', show_nat (unat (ws_score st))),
            (''waf_hits'', show_nat (length (ws_hits st))),
            (''waf_rules'', join_with '','' (map (show_nat \<circ> unat \<circ> h_rule_id) (ws_hits st))),
            (''waf_categories'', join_with '','' (map (category_key \<circ> h_category) (ws_hits st)))] @
           (case worst_severity (ws_hits st) of
              Some s \<Rightarrow> [(''waf_severity'', show_severity s)] | None \<Rightarrow> [])) @
     (case ws_intel_feed st of Some f \<Rightarrow> [(''waf_intel_feed'', f)] | None \<Rightarrow> []) @
     (case ws_intel_category st of Some c \<Rightarrow> [(''waf_intel_category'', c)] | None \<Rightarrow> []) @
     (if ws_truncated st then [(''waf_truncated'', ''true'')] else []) @
     (if ws_budget_exhausted st then [(''waf_budget_exhausted'', ''true'')] else [])"

definition add_variable :: "string \<Rightarrow> string \<Rightarrow> waf_ctx \<Rightarrow> waf_ctx" where
  "add_variable key val ctx = ctx\<lparr>wx_variables := AList.update key val (wx_variables ctx)\<rparr>"

definition emit_verdict :: "waf_ctx \<Rightarrow> waf_ctx" where
  "emit_verdict ctx =
     (case wx_waf ctx of
        None \<Rightarrow> ctx
      | Some st \<Rightarrow> foldl (\<lambda>ctx (key, val). add_variable key val ctx) ctx (verdict_fields st))"

text \<open>The pair of calls every path out of a stage makes.\<close>

definition publish :: "int \<Rightarrow> waf_ctx \<Rightarrow> waf_ctx" where
  "publish now ctx = offer_new_events now True (emit_verdict ctx)"

section \<open>Construction\<close>

datatype WafError =
    WafBadStep string | WafInvalid ConfigError | NoStaticDeny string | IntelNeedsProxies string
  | EngineInvalid ConfigError | EmptyAllowList | IpListNeedsProxies | IpListInvalid string
  | IntelInvalid IntelConfigError

definition build_ip_filter ::
  "'n ipnet_lib \<Rightarrow> bool \<Rightarrow> plugin_extras \<Rightarrow> ('n ip_filter option, WafError) result" where
  "build_ip_filter lib proxies_enabled extras =
     (if px_ip_list extras = []
      then (if px_ip_list_mode extras = LmAllow then Err EmptyAllowList else Ok None)
      else if \<not> proxies_enabled then Err IpListNeedsProxies
      else result_bind (map_err IpListInvalid (ip_filter_new lib (px_ip_list_mode extras) (px_ip_list extras)))
             (\<lambda>f. Ok (Some f)))"

definition has_static_deny :: "plugin_extras \<Rightarrow> IntelConf \<Rightarrow> 're validated_config \<Rightarrow> bool" where
  "has_static_deny extras intel v \<longleftrightarrow>
     px_ip_list extras \<noteq> [] \<or> ic_manual intel \<noteq> [] \<or>
     list_ex (\<lambda>category. request_mode v category = RqBlock) category_ALL"

definition build_intel ::
  "('re, 'hir, 'ac, 'n, 'u) waf_world \<Rightarrow> string \<Rightarrow> IntelConf \<Rightarrow> (('n, 'u) FeedRegistry option, WafError) result" where
  "build_intel w hash_value intel =
     (if ic_feed intel = [] \<and> ic_manual intel = [] then Ok None
      else result_bind (map_err IntelInvalid (plan (ww_ipnet w) (ww_urls w) [(hash_value, intel)]))
             (\<lambda>p. Ok (Some (registry_new (ww_ipnet w) p))))"

text \<open>
  \<open>cell\<close> is the trusted-proxy scope of the configuration under construction. The native rule
  tables are compiled on the way; a table that does not compile panics, which is \<open>None\<close>.
\<close>

definition waf_try_from ::
  "('re, 'hir, 'ac, 'n, 'u) waf_world \<Rightarrow> bool option \<Rightarrow> string option \<Rightarrow> string \<Rightarrow> waf_config \<Rightarrow> IntelConf
     \<Rightarrow> plugin_extras \<Rightarrow> (('re, 'ac, 'n, 'u) waf, WafError) result option" where
  "waf_try_from w cell step hash_value conf intel extras =
     (let enabled = construction_trusted_proxies_enabled cell (ww_proxies w);
          libs = ww_libs w in
      case map_err WafBadStep (get_step_conf_in step Request [Request]) of
        Err e \<Rightarrow> Some (Err e)
      | Ok plugin_step \<Rightarrow>
          (case map_err WafInvalid (waf_validate (wl_regex libs) conf) of
             Err e \<Rightarrow> Some (Err e)
           | Ok v \<Rightarrow>
               if ic_feed intel \<noteq> [] \<and> \<not> has_static_deny extras intel v
               then Some (Err (NoStaticDeny (v_profile v)))
               else if (ic_feed intel \<noteq> [] \<or> ic_manual intel \<noteq> []) \<and> \<not> enabled
               then Some (Err (IntelNeedsProxies (v_profile v)))
               else (case (request_rules (wl_decode libs) (wl_literal libs) (wl_regex libs),
                           response_rules (wl_literal libs) (wl_regex libs)) of
                       (Some rq, Some rs) \<Rightarrow> Some (
                         result_bind (map_err EngineInvalid (engine_build libs v rq rs)) (\<lambda>engine.
                         result_bind (build_ip_filter (ww_ipnet w) enabled extras) (\<lambda>ip_filter.
                         result_bind (build_intel w hash_value intel) (\<lambda>registry.
                         Ok \<lparr>wf_plugin_step = plugin_step, wf_engine = engine, wf_ip_filter = ip_filter,
                             wf_intel = registry, wf_over_cap = px_over_cap extras,
                             wf_body_limit = v_body_inspect_limit (en_config engine),
                             wf_response_prefix_limit = v_response_prefix_limit (en_config engine),
                             wf_profile = v_profile (en_config engine),
                             wf_forbidden = \<lparr>rsp_status = 403, rsp_headers = [], rsp_body = ''Forbidden''\<rparr>\<rparr>))))
                     | _ \<Rightarrow> None)))"

section \<open>The request stage\<close>

text \<open>The accessor \<open>state\<close>: created on first use and stamped with the profile.\<close>

definition waf_state_of :: "('re, 'ac, 'n, 'u) waf \<Rightarrow> waf_ctx \<Rightarrow> waf_state" where
  "waf_state_of pl ctx =
     (let st = (case wx_waf ctx of Some st \<Rightarrow> st | None \<Rightarrow> waf_state_default) in
      if ws_profile st = [] then st\<lparr>ws_profile := wf_profile pl\<rparr> else st)"

definition with_state :: "('re, 'ac, 'n, 'u) waf \<Rightarrow> (waf_state \<Rightarrow> waf_state) \<Rightarrow> waf_ctx \<Rightarrow> waf_ctx" where
  "with_state pl f ctx = ctx\<lparr>wx_waf := Some (f (waf_state_of pl ctx))\<rparr>"

definition record_intel :: "FeedMatch \<Rightarrow> waf_state \<Rightarrow> waf_state" where
  "record_intel matched st =
     st\<lparr>ws_intel_feed := fm_feed matched, ws_intel_category := fm_category matched, ws_blocked := True\<rparr>"

definition query_pairs :: "string \<Rightarrow> (string \<times> string) list" where
  "query_pairs query =
     map (\<lambda>part. case split_once CHR ''='' part of Some (k, v) \<Rightarrow> (k, v) | None \<Rightarrow> (part, []))
       (filter (\<lambda>part. part \<noteq> []) (split_on CHR ''&'' query))"

definition waf_header_pairs :: "http_lib \<Rightarrow> http_session \<Rightarrow> (string \<times> string) list" where
  "waf_header_pairs http s =
     List.map_filter (\<lambda>(name, v). map_option (Pair name) (hl_to_str http v)) (se_headers s)"

definition request_input_of :: "http_lib \<Rightarrow> http_session \<Rightarrow> request_input" where
  "request_input_of http s =
     \<lparr>ri_method = se_method s, ri_uri = wq_uri s, ri_headers = waf_header_pairs http s,
      ri_query = (case wq_query s of Some q \<Rightarrow> query_pairs q | None \<Rightarrow> []),
      ri_body = None, ri_client_ip = None, ri_body_truncated = False\<rparr>"

definition host_or_location :: "('re, 'hir, 'ac, 'n, 'u) waf_world \<Rightarrow> http_session \<Rightarrow> waf_ctx \<Rightarrow> string" where
  "host_or_location w s ctx =
     (case get_host (ww_http w) (session.truncate s) of Some h \<Rightarrow> h | None \<Rightarrow> wx_location ctx)"

definition client_ip_of ::
  "('re, 'hir, 'ac, 'n, 'u) waf_world \<Rightarrow> http_session \<Rightarrow> waf_ctx \<Rightarrow> string \<times> waf_ctx" where
  "client_ip_of w s ctx =
     (let (ip, cached) = ensure_client_ip (ww_ipnet w) (ww_http w) (ww_proxies w) (session.truncate s) (wx_client_ip ctx)
      in (ip, ctx\<lparr>wx_client_ip := cached\<rparr>))"

definition refused_by_list :: "('re, 'hir, 'ac, 'n, 'u) waf_world \<Rightarrow> ('re, 'ac, 'n, 'u) waf \<Rightarrow> string \<Rightarrow> bool" where
  "refused_by_list w pl ip =
     (case wf_ip_filter pl of Some filt \<Rightarrow> rejects (ww_ipnet w) filt ip | None \<Rightarrow> False)"

definition intel_match ::
  "('re, 'hir, 'ac, 'n, 'u) waf_world \<Rightarrow> ('re, 'ac, 'n, 'u) waf \<Rightarrow> string \<Rightarrow> FeedMatch option" where
  "intel_match w pl ip =
     (case wf_intel pl of
        Some registry \<Rightarrow> Option.bind (parse_addr ip) (registry_matches (ww_ipnet w) registry)
      | None \<Rightarrow> None)"

definition enforce_request ::
  "('re, 'hir, 'ac, 'n, 'u) waf_world \<Rightarrow> ('re, 'ac, 'n, 'u) waf \<Rightarrow> http_session \<Rightarrow> RequestVerdict evaluation
     \<Rightarrow> waf_ctx \<Rightarrow> request_result \<times> waf_ctx" where
  "enforce_request w pl s evaluation ctx =
     (let verdict = e_verdict evaluation;
          blocking = rq_is_enforcing verdict;
          ctx = with_state pl (\<lambda>st.
            let st = absorb (rq_hits verdict) (rq_score verdict) (e_enforcing_score evaluation) st;
                st = st\<lparr>ws_budget_exhausted := ws_budget_exhausted st \<or> e_exhausted evaluation \<noteq> None\<rparr> in
            if rq_is_challenge verdict then st\<lparr>ws_challenged := True\<rparr>
            else st\<lparr>ws_blocked := ws_blocked st \<or> blocking\<rparr>) ctx in
      if blocking
      then (if rq_is_challenge verdict
            then (Continue, publish (ww_now w)
                    (ctx\<lparr>wx_written := count_write (wx_written ctx)
                           (host_label (ww_hosts w) (host_or_location w s ctx)),
                         wx_marker := Some (challenge_marker_new ''waf'' ''anomaly-threshold'')\<rparr>))
            else (Respond (wf_forbidden pl), publish (ww_now w) ctx))
      else (Continue, publish (ww_now w) ctx))"

definition waf_handle_request ::
  "('re, 'hir, 'ac, 'n, 'u) waf_world \<Rightarrow> ('re, 'ac, 'n, 'u) waf \<Rightarrow> PluginStep \<Rightarrow> http_session \<Rightarrow> waf_ctx
     \<Rightarrow> request_result \<times> waf_ctx" where
  "waf_handle_request w pl step s ctx =
     (if step \<noteq> wf_plugin_step pl then (Skipped, ctx)
      else (let (client_ip, ctx) = client_ip_of w s ctx;
                domain = host_or_location w s ctx;
                ctx = with_state pl (\<lambda>st. st\<lparr>ws_domain := domain, ws_client_ip := Some client_ip,
                        ws_method := se_method s, ws_uri := wq_path s\<rparr>) ctx in
            if refused_by_list w pl client_ip
            then (Respond (wf_forbidden pl),
                  publish (ww_now w) (with_state pl (\<lambda>st. st\<lparr>ws_blocked := True\<rparr>) ctx))
            else (case intel_match w pl client_ip of
                    Some matched \<Rightarrow>
                      (Respond (wf_forbidden pl), publish (ww_now w) (with_state pl (record_intel matched) ctx))
                  | None \<Rightarrow>
                      enforce_request w pl s
                        (evaluate_request (ww_libs w) (ww_clock w) (wf_engine pl) (request_input_of (ww_http w) s))
                        ctx)))"

section \<open>The body stages\<close>

definition or_new :: "body_buffer option \<Rightarrow> usize \<Rightarrow> OverCap \<Rightarrow> body_buffer" where
  "or_new b limit policy = (case b of Some b \<Rightarrow> b | None \<Rightarrow> body_buffer_new limit policy)"

definition body_input :: "string \<Rightarrow> bool \<Rightarrow> request_input" where
  "body_input body truncated =
     \<lparr>ri_method = [], ri_uri = [], ri_headers = [], ri_query = [], ri_body = Some body,
      ri_client_ip = None, ri_body_truncated = truncated\<rparr>"

text \<open>The result, the context, and what becomes of the chunk.\<close>

definition waf_handle_request_body ::
  "('re, 'hir, 'ac, 'n, 'u) waf_world \<Rightarrow> ('re, 'ac, 'n, 'u) waf \<Rightarrow> waf_ctx \<Rightarrow> string option \<Rightarrow> bool
     \<Rightarrow> (unit, nat) result \<times> waf_ctx \<times> string option" where
  "waf_handle_request_body w pl ctx body end_of_stream =
     (if wf_body_limit pl = 0 then (Ok (), ctx, body)
      else (let (fd, buffer) = feed (or_new (wx_request_body ctx) (wf_body_limit pl) (wf_over_cap pl))
                                 body end_of_stream;
                ctx = ctx\<lparr>wx_request_body := Some buffer\<rparr> in
        case fd of
          PassThrough \<Rightarrow> (Ok (), ctx, body)
        | Hold \<Rightarrow> (Ok (), ctx, None)
        | FeedReject \<Rightarrow>
            (Err 413, publish (ww_now w) (with_state pl (\<lambda>st. st\<lparr>ws_blocked := True\<rparr>) ctx), None)
        | Release \<Rightarrow>
            (let seen = inspected buffer;
                 truncated = bb_truncated buffer;
                 (release, buffer) = body_take buffer;
                 evaluation = evaluate_request (ww_libs w) (ww_clock w) (wf_engine pl) (body_input seen truncated);
                 verdict = e_verdict evaluation;
                 ctx = with_state pl (\<lambda>st.
                   let st = absorb (rq_hits verdict) (rq_score verdict) (e_enforcing_score evaluation) st in
                   st\<lparr>ws_truncated := ws_truncated st \<or> e_truncated evaluation,
                      ws_budget_exhausted := ws_budget_exhausted st \<or> e_exhausted evaluation \<noteq> None\<rparr>)
                   (ctx\<lparr>wx_request_body := Some buffer\<rparr>) in
             if rq_is_enforcing verdict
             then (Err 403, publish (ww_now w) (with_state pl (\<lambda>st. st\<lparr>ws_blocked := True\<rparr>) ctx), None)
             else (Ok (), if end_of_stream then publish (ww_now w) ctx else ctx, Some release))))"

datatype side = Upstream | Downstream

definition side_body :: "side \<Rightarrow> waf_ctx \<Rightarrow> body_buffer option" where
  "side_body sd ctx = (case sd of Upstream \<Rightarrow> wx_upstream_body ctx | Downstream \<Rightarrow> wx_downstream_body ctx)"

definition set_side_body :: "side \<Rightarrow> body_buffer \<Rightarrow> waf_ctx \<Rightarrow> waf_ctx" where
  "set_side_body sd b ctx =
     (case sd of Upstream \<Rightarrow> ctx\<lparr>wx_upstream_body := Some b\<rparr> | Downstream \<Rightarrow> ctx\<lparr>wx_downstream_body := Some b\<rparr>)"

datatype body_result = Unchanged | PartialReplaced

definition mask_hits :: "Hit list \<Rightarrow> string \<Rightarrow> bool \<times> string" where
  "mask_hits hits release =
     foldl (\<lambda>(masked, body) h.
              case h_matched_field h of
                FResponseBody offset len \<Rightarrow> (let (m, body) = mask_body body offset len in (masked \<or> m, body))
              | _ \<Rightarrow> (masked, body)) (False, release) hits"

definition redact :: "ResponseVerdict \<Rightarrow> string \<Rightarrow> bool \<times> string" where
  "redact verdict release =
     (if rs_is_enforcing verdict then mask_hits (rs_hits verdict) release else (False, release))"

definition scan_response ::
  "('re, 'hir, 'ac, 'n, 'u) waf_world \<Rightarrow> ('re, 'ac, 'n, 'u) waf \<Rightarrow> side \<Rightarrow> waf_ctx \<Rightarrow> string option \<Rightarrow> bool
     \<Rightarrow> body_result \<times> waf_ctx \<times> string option" where
  "scan_response w pl sd ctx body end_of_stream =
     (if wf_response_prefix_limit pl = 0 \<or> en_response_rules (wf_engine pl) = [] then (Unchanged, ctx, body)
      else (let status = (case wx_status ctx of Some s \<Rightarrow> s | None \<Rightarrow> 0);
                (fd, holder) = feed (or_new (side_body sd ctx) (wf_response_prefix_limit pl) InspectPrefix)
                                 body end_of_stream;
                ctx = set_side_body sd holder ctx in
        if fd = PassThrough then (Unchanged, ctx, body)
        else if fd = Hold then (Unchanged, ctx, None)
        else (let truncated = bb_truncated holder;
                  inspected_len = length (inspected holder);
                  (release, holder) = body_take holder;
                  evaluation = evaluate_response (ww_libs w) (ww_clock w) (wf_engine pl)
                    \<lparr>rp_status = status, rp_headers = [], rp_body_chunk = Some (take inspected_len release),
                     rp_request_score = 0, rp_body_truncated = truncated\<rparr>;
                  verdict = e_verdict evaluation;
                  (masked, release) = redact verdict release;
                  ctx = with_state pl (\<lambda>st.
                    let st = absorb (rs_hits verdict) (rs_score verdict) (e_enforcing_score evaluation) st in
                    st\<lparr>ws_truncated := ws_truncated st \<or> e_truncated evaluation,
                       ws_budget_exhausted := ws_budget_exhausted st \<or> e_exhausted evaluation \<noteq> None,
                       ws_redacted := ws_redacted st \<or> masked\<rparr>) (set_side_body sd holder ctx) in
              (if masked then PartialReplaced else Unchanged, ctx, Some release))))"

definition waf_handle_response_body ::
  "('re, 'hir, 'ac, 'n, 'u) waf_world \<Rightarrow> ('re, 'ac, 'n, 'u) waf \<Rightarrow> side \<Rightarrow> waf_ctx \<Rightarrow> string option \<Rightarrow> bool
     \<Rightarrow> body_result \<times> waf_ctx \<times> string option" where
  "waf_handle_response_body w pl sd ctx body end_of_stream =
     (let (result, ctx, body) = scan_response w pl sd ctx body end_of_stream in
      (result, if end_of_stream then publish (ww_now w) ctx else ctx, body))"

end
