(* ===== verification/Intel_History.thy ===== *)
theory Intel_History
  imports Intel_Set
begin

text \<open>
  The registry against the sequence of fetch results it was given. The abstract view of a registry
  is the list of results applied so far; \<open>last_good\<close> and \<open>published\<close> read from it what the
  snapshot must hold, and \<open>registry_inv\<close> ties the mutable state to it.
\<close>

section \<open>The abstract view\<close>

type_synonym 'n fetch_event = "('n FeedResult, FeedError) result \<times> u64 \<times> nat"

definition registry_run ::
  "'u http_client \<Rightarrow> 'n fetch_event list \<Rightarrow> ('n, 'u) FeedRegistry \<Rightarrow> ('n, 'u) FeedRegistry" where
  "registry_run hc h r = foldl (\<lambda>r (res, opt_outs, now). registry_apply hc res opt_outs now r) r h"

fun last_good :: "'u Definition \<Rightarrow> 'n fetch_event list \<Rightarrow> 'n FeedContribution option" where
  "last_good d [] = None"
| "last_good d ((res, opt_outs, now) # h) =
     (case last_good d h of
        Some c \<Rightarrow> Some c
      | None \<Rightarrow>
          (case res of
             Ok x \<Rightarrow> if fr_name x = df_name d then Some (contribution d x) else None
           | Err _ \<Rightarrow> None))"

definition fresh :: "Limits \<Rightarrow> nat \<Rightarrow> 'n FeedContribution \<Rightarrow> bool" where
  "fresh limits now c \<longleftrightarrow> now - co_fetched_at c \<le> li_staleness limits"

definition published :: "Limits \<Rightarrow> 'n fetch_event list \<Rightarrow> nat \<Rightarrow> 'u Definition \<Rightarrow> 'n FeedContribution option" where
  "published limits h now d =
     (case last_good d h of Some c \<Rightarrow> if fresh limits now c then Some c else None | None \<Rightarrow> None)"

lemma last_good_snoc:
  "last_good d (h @ [(res, opt_outs, now)]) =
     (case res of
        Ok x \<Rightarrow> if fr_name x = df_name d then Some (contribution d x) else last_good d h
      | Err _ \<Rightarrow> last_good d h)"
  by (induction h) (auto split: result.splits option.splits)

section \<open>Publication\<close>

definition fresh_entry ::
  "Limits \<Rightarrow> nat \<Rightarrow> string \<times> ('n, 'u) FeedState \<Rightarrow> (string \<times> 'n FeedContribution) option" where
  "fresh_entry limits now nf =
     (case fs_last_good (snd nf) of
        Some c \<Rightarrow> if fresh limits now c then Some (fst nf, c) else None
      | None \<Rightarrow> None)"

lemma publish_loop_feeds:
  "fst (publish_loop limits now defs st) = List.map_filter (fresh_entry limits now) defs"
  by (induction limits now defs st rule: publish_loop.induct)
    (auto simp: fresh_entry_def fresh_def Let_def map_filter_simps split: option.splits prod.splits)

lemma publish_loop_generation: "rf_generation (snd (publish_loop limits now defs st)) = rf_generation st"
  by (induction limits now defs st rule: publish_loop.induct)
    (auto simp: Let_def split: option.splits prod.splits)

lemma publish_locked_sel:
  "rg_definitions (publish_locked now r) = rg_definitions r"
  "rg_limits (publish_locked now r) = rg_limits r"
  "rg_manual (publish_locked now r) = rg_manual r"
  "sn_manual (rg_snapshot (publish_locked now r)) = rg_manual r"
  "sn_feeds (rg_snapshot (publish_locked now r)) =
     List.map_filter (fresh_entry (rg_limits r) now) (rg_definitions r)"
  "sn_generation (rg_snapshot (publish_locked now r)) = sat_add (rf_generation (rg_state r)) 1"
  "rf_generation (rg_state (publish_locked now r)) = sat_add (rf_generation (rg_state r)) 1"
  using publish_loop_feeds [of "rg_limits r" now "rg_definitions r" "rg_state r"]
    publish_loop_generation [of "rg_limits r" now "rg_definitions r" "rg_state r"]
  by (auto simp: publish_locked_def Let_def split: prod.splits)

lemma fresh_entry_Some:
  "fresh_entry limits now nf = Some (n, c) \<longleftrightarrow> n = fst nf \<and> fs_last_good (snd nf) = Some c \<and> fresh limits now c"
  by (auto simp: fresh_entry_def split: option.split)

lemma fresh_entry_Cons:
  "List.map_filter (fresh_entry limits now) (nf # defs) =
     (case fs_last_good (snd nf) of
        Some c \<Rightarrow> if fresh limits now c then [(fst nf, c)] else []
      | None \<Rightarrow> []) @ List.map_filter (fresh_entry limits now) defs"
  by (simp add: map_filter_simps fresh_entry_def split: option.split)

lemma fresh_entry_keys: "fst ` set (List.map_filter (fresh_entry limits now) defs) \<subseteq> fst ` set defs"
proof -
  have "n \<in> fst ` set defs" if "(n, c) \<in> set (List.map_filter (fresh_entry limits now) defs)" for n c
    using that by (auto simp: set_map_filter fresh_entry_Some)
  then show ?thesis by auto
qed

lemma fresh_entry_sorted: "btree_ok defs \<Longrightarrow> btree_ok (List.map_filter (fresh_entry limits now) defs)"
proof (induction defs)
  case (Cons nf defs)
  have "btree_ok defs" and less: "\<forall>k\<in>fst ` set defs. fst nf < k"
    using Cons.prems by (auto simp: btree_ok_def)
  have "\<forall>k\<in>fst ` set (List.map_filter (fresh_entry limits now) defs). fst nf < k"
    using less fresh_entry_keys [of limits now defs] by blast
  with Cons.IH [OF \<open>btree_ok defs\<close>] show ?case
    unfolding fresh_entry_Cons by (auto simp: btree_ok_def split: option.split)
qed (simp add: map_filter_simps btree_ok_def)

lemma map_of_fresh_entry:
  assumes "distinct (map fst defs)"
  shows "map_of (List.map_filter (fresh_entry limits now) defs) n =
    (case map_of defs n of
       Some f \<Rightarrow> (case fs_last_good f of Some c \<Rightarrow> if fresh limits now c then Some c else None | None \<Rightarrow> None)
     | None \<Rightarrow> None)"
  using assms
proof (induction defs)
  case (Cons nf defs)
  have "fst nf \<notin> fst ` set defs" using Cons.prems by simp
  then have none: "map_of defs (fst nf) = None" by (simp add: map_of_eq_None_iff)
  show ?case
  proof (cases "n = fst nf")
    case True
    have "map_of (List.map_filter (fresh_entry limits now) defs) n = None"
      using Cons none True by simp
    then show ?thesis
      unfolding fresh_entry_Cons by (cases nf) (auto simp: True split: option.split)
  next
    case False
    then show ?thesis
      using Cons unfolding fresh_entry_Cons by (cases nf) (auto split: option.split)
  qed
qed (simp add: map_filter_simps)

section \<open>The invariant\<close>

definition registry_inv ::
  "'n ipnet_lib \<Rightarrow> 'u Plan \<Rightarrow> 'n fetch_event list \<Rightarrow> ('n, 'u) FeedRegistry \<Rightarrow> bool" where
  "registry_inv lib p h r \<longleftrightarrow>
     btree_ok (rg_definitions r) \<and>
     (\<forall>n. map_option (\<lambda>f. (fs_definition f, fs_last_good f)) (map_of (rg_definitions r) n) =
          map_option (\<lambda>d. (d, last_good d h)) (find (\<lambda>d. df_name d = n) (pl_definitions p))) \<and>
     rg_limits r = pl_limits p \<and> rg_manual r = ip_rules_new lib (pl_manual p) \<and>
     rf_generation (rg_state r) = sn_generation (rg_snapshot r) \<and>
     unat (sn_generation (rg_snapshot r)) = min (length h) (2 ^ 64 - 1) \<and>
     sn_manual (rg_snapshot r) = ip_rules_new lib (pl_manual p)"

lemma find_map_of:
  "map_of (map (\<lambda>d. (key d, val d)) ds) n = map_option val (find (\<lambda>d. key d = n) ds)"
  by (induction ds) auto

lemma registry_new_inv:
  fixes lib :: "'n ipnet_lib"
  assumes "distinct (map df_name (pl_definitions p))"
  shows "registry_inv lib p [] (registry_new lib p)"
proof -
  let ?val = "\<lambda>d. \<lparr>fs_definition = d, fs_last_good = (None :: 'n FeedContribution option), fs_last_error = None\<rparr>"
  have "map_of (btree_collect (map (\<lambda>d. (df_name d, ?val d)) (pl_definitions p))) n =
      map_option ?val (find (\<lambda>d. df_name d = n) (pl_definitions p))" for n
    using assms by (subst map_of_btree_collect_distinct) (simp_all add: comp_def find_map_of)
  then show ?thesis
    by (auto simp: registry_inv_def registry_new_def Let_def option.map_comp comp_def)
qed

lemma generation_step:
  assumes "unat (g :: u64) = min n (2 ^ 64 - 1)"
  shows "unat (sat_add g 1) = min (Suc n) (2 ^ 64 - 1)"
  using assms by (simp add: rust_arith)

definition applied ::
  "'u http_client \<Rightarrow> ('n FeedResult, FeedError) result \<Rightarrow> ('n, 'u) FeedState btree \<Rightarrow> ('n, 'u) FeedState btree" where
  "applied hc res defs =
     (case res of
        Ok x \<Rightarrow> btree_update (fr_name x)
          (\<lambda>feed. feed\<lparr>fs_last_good := Some (contribution (fs_definition feed) x)\<rparr>) defs
      | Err e \<Rightarrow> btree_update (error_name hc e)
          (\<lambda>feed. feed\<lparr>fs_last_error := Some (feed_error_to_string hc e)\<rparr>) defs)"

lemma registry_apply_sel:
  "rg_definitions (registry_apply hc res opt_outs now r) = applied hc res (rg_definitions r)"
  "rg_limits (registry_apply hc res opt_outs now r) = rg_limits r"
  "rg_manual (registry_apply hc res opt_outs now r) = rg_manual r"
  "sn_manual (rg_snapshot (registry_apply hc res opt_outs now r)) = rg_manual r"
  "sn_feeds (rg_snapshot (registry_apply hc res opt_outs now r)) =
     List.map_filter (fresh_entry (rg_limits r) now) (applied hc res (rg_definitions r))"
  "sn_generation (rg_snapshot (registry_apply hc res opt_outs now r)) =
     sat_add (rf_generation (rg_state r)) 1"
  "rf_generation (rg_state (registry_apply hc res opt_outs now r)) =
     sat_add (rf_generation (rg_state r)) 1"
  by (cases res; simp add: registry_apply_def applied_def Let_def publish_locked_sel)+

lemma applied_ok [simp]: "btree_ok (applied hc res defs) = btree_ok defs"
  by (simp add: applied_def split: result.split)

lemma applied_good:
  assumes "map_option (\<lambda>f. (fs_definition f, fs_last_good f)) (map_of defs n) =
      map_option (\<lambda>d. (d, last_good d h)) (find (\<lambda>d. df_name d = n) ds)"
  shows "map_option (\<lambda>f. (fs_definition f, fs_last_good f)) (map_of (applied hc res defs) n) =
      map_option (\<lambda>d. (d, last_good d (h @ [(res, opt_outs, now)]))) (find (\<lambda>d. df_name d = n) ds)"
proof (cases "find (\<lambda>d. df_name d = n) ds")
  case None
  with assms have "map_of defs n = None" by simp
  with None show ?thesis
    by (auto simp: applied_def map_of_btree_update split: result.split)
next
  case (Some d)
  then have name: "df_name d = n" by (auto simp: find_Some_iff)
  from Some assms obtain f where f: "map_of defs n = Some f"
    and d: "fs_definition f = d" and g: "fs_last_good f = last_good d h" by auto
  show ?thesis
    unfolding Some last_good_snoc
    using f d g name by (cases res) (auto simp: applied_def map_of_btree_update)
qed

lemma registry_apply_inv:
  assumes "registry_inv lib p h r"
  shows "registry_inv lib p (h @ [(res, opt_outs, now)]) (registry_apply hc res opt_outs now r)"
proof -
  have gen: "unat (sat_add (rf_generation (rg_state r)) 1) = min (Suc (length h)) (2 ^ 64 - 1)"
    using assms by (intro generation_step) (simp add: registry_inv_def)
  have defs: "map_option (\<lambda>f. (fs_definition f, fs_last_good f)) (map_of (rg_definitions r) n) =
      map_option (\<lambda>d. (d, last_good d h)) (find (\<lambda>d. df_name d = n) (pl_definitions p))" for n
    using assms unfolding registry_inv_def by blast
  show ?thesis
    unfolding registry_inv_def registry_apply_sel applied_ok
  proof (intro conjI allI)
    show "map_option (\<lambda>f. (fs_definition f, fs_last_good f)) (map_of (applied hc res (rg_definitions r)) n) =
      map_option (\<lambda>d. (d, last_good d (h @ [(res, opt_outs, now)])))
        (find (\<lambda>d. df_name d = n) (pl_definitions p))" for n
      by (rule applied_good [OF defs])
  qed (use assms gen in \<open>simp_all add: registry_inv_def\<close>)
qed

lemma registry_run_snoc:
  "registry_run hc (h @ [(res, opt_outs, now)]) r = registry_apply hc res opt_outs now (registry_run hc h r)"
  by (simp add: registry_run_def)

lemma registry_run_inv:
  assumes "distinct (map df_name (pl_definitions p))"
  shows "registry_inv lib p h (registry_run hc h (registry_new lib p))"
proof (induction h rule: rev_induct)
  case Nil
  then show ?case using registry_new_inv [OF assms] by (simp add: registry_run_def)
next
  case (snoc e h)
  obtain res opt_outs now where e: "e = (res, opt_outs, now)" by (cases e)
  show ?case unfolding e registry_run_snoc by (rule registry_apply_inv [OF snoc.IH])
qed

end
