(* ===== verification/Intel_Families.thy ===== *)
theory Intel_Families
  imports Intel_Feed
begin

text \<open>
  Which addresses the egress guard refuses. The documented behaviour of \<open>ipnet\<close> is the predicate
  \<open>cidr_semantics\<close>: a text \<open>address/length\<close> parses, and contains the addresses of the same family
  with the same leading bits. Under it the ten refused families are the arithmetic ranges of
  \<open>reserved\<close>, and the IPv4-mapped forms of the first six.
\<close>

unbundle bit_operations_syntax

definition same_prefix :: "nat \<Rightarrow> IpAddr \<Rightarrow> IpAddr \<Rightarrow> bool" where
  "same_prefix n a b =
     (case (a, b) of
        (V4 v, V4 w) \<Rightarrow> drop_bit (32 - n) v = drop_bit (32 - n) w
      | (V6 v, V6 w) \<Rightarrow> drop_bit (128 - n) v = drop_bit (128 - n) w
      | _ \<Rightarrow> False)"

definition addr_bits :: "IpAddr \<Rightarrow> nat" where
  "addr_bits a = (case a of V4 _ \<Rightarrow> 32 | V6 _ \<Rightarrow> 128)"

definition cidr_semantics :: "'n ipnet_lib \<Rightarrow> bool" where
  "cidr_semantics lib \<longleftrightarrow>
     (\<forall>t a n. parse_addr t = Some a \<and> n \<le> addr_bits a \<longrightarrow>
        (\<exists>net. net_from_str lib (t @ ''/'' @ show_nat n) = Some net \<and>
               (\<forall>b. net_contains lib net b = same_prefix n a b)))"

definition reserved_v4 :: "32 word \<Rightarrow> bool" where
  "reserved_v4 w \<longleftrightarrow>
     drop_bit 24 w \<in> {0, 10, 127} \<or> drop_bit 16 w \<in> {169 * 256 + 254, 192 * 256 + 168} \<or>
     drop_bit 20 w = 172 * 16 + 1"

definition reserved_v6 :: "128 word \<Rightarrow> bool" where
  "reserved_v6 w \<longleftrightarrow> w = 0 \<or> w = 1 \<or> drop_bit 121 w = 0x7E \<or> drop_bit 118 w = 0x3FA"

definition reserved :: "IpAddr \<Rightarrow> bool" where
  "reserved a =
     (case a of
        V4 w \<Rightarrow> reserved_v4 w
      | V6 w \<Rightarrow> reserved_v6 w \<or> (drop_bit 32 w = 0xFFFF \<and> reserved_v4 (ucast w)))"

section \<open>The compiled families\<close>

lemma family_net:
  assumes "cidr_semantics lib" and "parse_addr t = Some a" and "n \<le> addr_bits a"
  shows "is_match_addr lib (ip_rules_new lib [t @ ''/'' @ show_nat n]) b = same_prefix n a b"
proof -
  obtain net where "net_from_str lib (t @ ''/'' @ show_nat n) = Some net"
    and "\<forall>b. net_contains lib net b = same_prefix n a b"
    using assms unfolding cidr_semantics_def by blast
  then show ?thesis
    by (simp add: is_match_addr_new entry_covers_def)
qed

definition family_prefixes :: "(IpAddr \<times> nat) list" where
  "family_prefixes =
     [(V4 0, 8), (V4 0x0A000000, 8), (V4 0x7F000000, 8), (V4 0xA9FE0000, 16), (V4 0xAC100000, 12),
      (V4 0xC0A80000, 16), (V6 0, 128), (V6 1, 128),
      (V6 0xFC000000000000000000000000000000, 7), (V6 0xFE800000000000000000000000000000, 10)]"

definition family_texts :: "(string \<times> nat) list" where
  "family_texts =
     [(''0.0.0.0'', 8), (''10.0.0.0'', 8), (''127.0.0.0'', 8), (''169.254.0.0'', 16), (''172.16.0.0'', 12),
      (''192.168.0.0'', 16), (''::'', 128), (''::1'', 128), (''fc00::'', 7), (''fe80::'', 10)]"

lemma family_texts_parse:
  "map (parse_addr \<circ> fst) family_texts = map (Some \<circ> fst) family_prefixes"
  "map snd family_texts = map snd family_prefixes"
  "list_all (\<lambda>(a, n). n \<le> addr_bits a) family_prefixes"
  by code_simp+

lemma family_texts_listed:
  "map fst REFUSED_FAMILIES = map (\<lambda>(t, n). t @ ''/'' @ show_nat n) family_texts"
  by code_simp

lemma families_match:
  assumes "cidr_semantics lib" and "map (parse_addr \<circ> fst) ts = map (Some \<circ> fst) ps"
    and "map snd ts = map snd ps" and "list_all (\<lambda>(a, n). n \<le> addr_bits a) ps"
  shows "map (\<lambda>(t, n). is_match_addr lib (ip_rules_new lib [t @ ''/'' @ show_nat n])) ts =
    map (\<lambda>(a, n). same_prefix n a) ps"
  using assms(2-4)
proof (induction ts arbitrary: ps)
  case (Cons tn ts)
  then obtain a n ps' where ps: "ps = (a, n) # ps'" by (cases ps) auto
  obtain t where tn: "tn = (t, n)" using Cons.prems ps by (cases tn) auto
  have "is_match_addr lib (ip_rules_new lib [t @ ''/'' @ show_nat n]) = same_prefix n a"
    using Cons.prems by (intro ext family_net [OF assms(1)]) (simp_all add: ps tn)
  with Cons show ?case by (simp add: ps tn)
qed simp

lemma refused_matchers:
  assumes "cidr_semantics lib"
  shows "map (\<lambda>f. is_match_addr lib (fa_rules f)) (families lib) = map (\<lambda>(a, n). same_prefix n a) family_prefixes"
proof -
  have "map (\<lambda>f. is_match_addr lib (fa_rules f)) (families lib) =
      map (\<lambda>t. is_match_addr lib (ip_rules_new lib [t])) (map fst REFUSED_FAMILIES)"
    by (simp add: families_def case_prod_beta comp_def)
  also have "\<dots> = map (\<lambda>(t, n). is_match_addr lib (ip_rules_new lib [t @ ''/'' @ show_nat n])) family_texts"
    unfolding family_texts_listed by (simp add: case_prod_beta comp_def)
  finally show ?thesis
    using families_match [OF assms family_texts_parse] by simp
qed

lemma list_ex_matchers: "list_ex (\<lambda>f. P (m f)) xs = list_ex P (map m xs)"
  by (induction xs) auto

lemma refused_iff:
  assumes "cidr_semantics lib"
  shows "classify_family lib b \<noteq> None \<longleftrightarrow>
    list_ex (\<lambda>(a, n). same_prefix n a b \<or>
      (case b of V6 w \<Rightarrow> (case to_ipv4_mapped w of Some v \<Rightarrow> same_prefix n a (V4 v) | None \<Rightarrow> False)
       | V4 _ \<Rightarrow> False)) family_prefixes"
proof -
  let ?P = "\<lambda>m. m b \<or> (case b of V6 w \<Rightarrow> (case to_ipv4_mapped w of Some v \<Rightarrow> m (V4 v) | None \<Rightarrow> False)
    | V4 _ \<Rightarrow> False)"
  have "classify_family lib b \<noteq> None \<longleftrightarrow> list_ex (\<lambda>f. ?P (is_match_addr lib (fa_rules f))) (families lib)"
    by (auto simp: classify_family_def find_None_iff list_ex_iff family_matches_def)
  also have "\<dots> = list_ex ?P (map (\<lambda>(a, n). same_prefix n a) family_prefixes)"
    unfolding list_ex_matchers [of ?P "\<lambda>f. is_match_addr lib (fa_rules f)"] refused_matchers [OF assms] ..
  also have "\<dots> = list_ex (\<lambda>f. ?P (case f of (a, n) \<Rightarrow> same_prefix n a)) family_prefixes"
    by (rule list_ex_matchers [of ?P "\<lambda>(a, n). same_prefix n a", symmetric])
  also have "(\<lambda>f. ?P (case f of (a, n) \<Rightarrow> same_prefix n a)) = (\<lambda>(a, n). ?P (same_prefix n a))"
    by auto
  finally show ?thesis .
qed

text \<open>The leading bits of the ten prefixes.\<close>

lemma prefix_v4:
  "same_prefix 8 (V4 0) (V4 w) \<longleftrightarrow> drop_bit 24 w = 0"
  "same_prefix 8 (V4 0x0A000000) (V4 w) \<longleftrightarrow> drop_bit 24 w = 10"
  "same_prefix 8 (V4 0x7F000000) (V4 w) \<longleftrightarrow> drop_bit 24 w = 127"
  "same_prefix 16 (V4 0xA9FE0000) (V4 w) \<longleftrightarrow> drop_bit 16 w = 43518"
  "same_prefix 12 (V4 0xAC100000) (V4 w) \<longleftrightarrow> drop_bit 20 w = 2753"
  "same_prefix 16 (V4 0xC0A80000) (V4 w) \<longleftrightarrow> drop_bit 16 w = 49320"
  "same_prefix n (V4 v) (V6 x) = False" "same_prefix n (V6 x) (V4 v) = False"
  by (auto simp: same_prefix_def drop_bit_eq_div)

lemma prefix_v6:
  "same_prefix 128 (V6 0) (V6 w) \<longleftrightarrow> w = 0"
  "same_prefix 128 (V6 1) (V6 w) \<longleftrightarrow> w = 1"
  "same_prefix 7 (V6 0xFC000000000000000000000000000000) (V6 w) \<longleftrightarrow> drop_bit 121 w = 0x7E"
  "same_prefix 10 (V6 0xFE800000000000000000000000000000) (V6 w) \<longleftrightarrow> drop_bit 118 w = 0x3FA"
  by (auto simp: same_prefix_def drop_bit_eq_div)

lemma classify_reserved:
  assumes "cidr_semantics lib"
  shows "classify_family lib b = None \<longleftrightarrow> \<not> reserved b"
proof (cases b)
  case (V4 w)
  then show ?thesis
    using refused_iff [OF assms, of b]
    by (auto simp: family_prefixes_def reserved_def reserved_v4_def prefix_v4)
next
  case (V6 w)
  then show ?thesis
    using refused_iff [OF assms, of b]
    by (cases "drop_bit 32 w = 0xFFFF")
      (auto simp: family_prefixes_def reserved_def reserved_v4_def reserved_v6_def to_ipv4_mapped_def
        prefix_v4 prefix_v6)
qed

section \<open>A CIDR library\<close>

text \<open>A concrete library with this behaviour: the text is cut at the last slash.\<close>

definition cidr_lib :: "(IpAddr \<times> nat) ipnet_lib" where
  "cidr_lib = \<lparr>net_from_str = (\<lambda>s.
       case split_once CHR ''/'' (rev s) of
         Some (l, a) \<Rightarrow>
           (case (parse_addr (rev a), parse_uint 128 (rev l)) of
              (Some addr, Some n) \<Rightarrow> if n \<le> addr_bits addr then Some (addr, n) else None
            | _ \<Rightarrow> None)
       | None \<Rightarrow> None),
     net_contains = (\<lambda>(a, n) b. same_prefix n a b)\<rparr>"

lemma cidr_lib_semantics: "cidr_semantics cidr_lib"
proof -
  have "net_from_str cidr_lib (t @ ''/'' @ show_nat n) = Some (a, n)"
    if "parse_addr t = Some a" and "n \<le> addr_bits a" for t a n
  proof -
    have "CHR ''/'' \<notin> set (show_nat n)"
      using show_nat_digits [of n] by (auto simp: list_all_iff is_ascii_digit_def byte_of_def)
    then have "split_once CHR ''/'' (rev (t @ ''/'' @ show_nat n)) = Some (rev (show_nat n), rev t)"
      by (simp add: split_once_Some)
    moreover have "n \<le> 128" using that(2) by (cases a) (simp_all add: addr_bits_def)
    ultimately show ?thesis
      using that by (simp add: cidr_lib_def parse_show_nat)
  qed
  then show ?thesis
    unfolding cidr_semantics_def by (auto simp: cidr_lib_def)
qed

end
