(* ===== verification/Intel_Props.thy ===== *)
theory Intel_Props
  imports Intel_History Intel_Families
begin

text \<open>
  The properties of the threat-intelligence crate: what a fetch can connect to, what the published
  snapshot holds, what a plan is, and what a feed body becomes.
\<close>

section \<open>Egress\<close>

lemma fetch_under_connected:
  assumes "conforms ul (hc_request hc (df_url d)) (literal_host ul (df_url d)) 1"
  shows "(\<forall>a\<in>set (fl_connected (fetch_under lib ul hc g d limits t)). permits lib g a) \<and>
    length (fl_followed (fetch_under lib ul hc g d limits t)) \<le> gd_max_hops g \<and>
    same_policy g (fl_guard (fetch_under lib ul hc g d limits t))"
proof -
  obtain g' r where c: "check_url lib ul (df_url d) g = (g', r)" by fastforce
  note pol = check_url_policy [OF c]
  show ?thesis
  proof (cases "is_Ok r \<and> is_Ok (hc_build hc (li_timeout limits))")
    case True
    then have ok: "check_url lib ul (df_url d) g = (g', Ok ())" using c by (cases r) auto
    have "\<forall>a\<in>literal_host ul (df_url d). permits lib g' a"
      using check_url_literal [OF ok] by (simp add: same_policy_permits [OF pol])
    note safe = client_send_safe [OF assms this]
    have "gd_max_hops g' = gd_max_hops g" using pol by (simp add: same_policy_def)
    with True ok safe same_policy_permits [OF pol] same_policy_trans [OF pol] show ?thesis
      by (cases "hc_build hc (li_timeout limits)") (auto simp: fetch_under_def Let_def)
  next
    case False
    with c pol show ?thesis
      by (cases r; cases "hc_build hc (li_timeout limits)") (auto simp: fetch_under_def)
  qed
qed

text \<open>
  C9: a feed that is not allowed private targets is never fetched from one. For every client that
  connects only where its URL's literal host, its resolver or a followed redirect points, no
  connection of the fetch reaches a loopback, private, link-local, unique-local or unspecified
  address, in IPv4, IPv6 or IPv4-mapped form; at most the configured number of redirects is
  followed; and no opt-out is counted.
\<close>

theorem intel_fetch_never_reaches_reserved:
  assumes "cidr_semantics lib"
    and "conforms ul (hc_request hc (df_url d)) (literal_host ul (df_url d)) 1"
    and "\<not> df_allow_private_targets d"
  shows "(\<forall>a\<in>set (fl_connected (fetch_under lib ul hc
              (guard_new (df_allow_private_targets d) (li_redirect_hops limits)) d limits t)). \<not> reserved a) \<and>
    length (fl_followed (fetch_under lib ul hc
              (guard_new (df_allow_private_targets d) (li_redirect_hops limits)) d limits t))
      \<le> li_redirect_hops limits \<and>
    snd (fetch lib ul hc d limits t) = 0"
proof -
  let ?g = "guard_new (df_allow_private_targets d) (li_redirect_hops limits)"
  note safe = fetch_under_connected [OF assms(2), of lib ?g limits t]
  have "permits lib ?g a = (\<not> reserved a)" for a
    using assms(3) classify_reserved [OF assms(1), of a] by (simp add: permits_def guard_new_def)
  with safe assms(3) show ?thesis
    by (simp add: fetch_def Let_def same_policy_def guard_new_def)
qed

definition demo_urls :: "string url_lib" where
  "demo_urls = \<lparr>url_parse = Ok, url_scheme = (\<lambda>_. ''https''),
     url_host = (\<lambda>u. if u = ''inside'' then Some (HostIpv4 0x7F000001) else Some (Domain u)),
     url_to_string = id\<rparr>"

text \<open>
  A client whose feed host resolves to a public and a private address and answers with a redirect to
  the loopback address.
\<close>

definition demo_client :: "string http_client" where
  "demo_client = \<lparr>hc_build = (\<lambda>_. Ok ()),
     hc_request = (\<lambda>u. Resolving u (Ok [(V4 0x0A000001, 0), (V4 0x08080808, 0)]) (\<lambda>r.
       case r of
         Ok (a # _) \<Rightarrow> Connecting (fst a) (Redirecting ''inside'' 1 (\<lambda>r.
           case r of
             Ok _ \<Rightarrow> Connecting (V4 0x7F000001) (Answered (Ok \<lparr>hr_status = 200, hr_chunks = []\<rparr>))
           | Err _ \<Rightarrow> Answered (Err ''redirect refused'')))
       | _ \<Rightarrow> Answered (Err ''no address''))),
     hc_status_text = (\<lambda>_. []), hc_utf8_text = (\<lambda>_. [])\<rparr>"

definition demo_definition :: "string Definition" where
  "demo_definition = \<lparr>df_name = ''spam'', df_url = ''feeds'', df_category = ''abuse'',
     df_allow_private_targets = False\<rparr>"

lemma demo_client_conforms:
  "conforms demo_urls (hc_request demo_client (df_url demo_definition))
     (literal_host demo_urls (df_url demo_definition)) 1"
  by (simp add: demo_client_def demo_urls_def demo_definition_def literal_host_def split: list.split)

text \<open>Of the two addresses of the feed host only the public one is used, and the redirect is refused.\<close>

theorem intel_fetch_never_reaches_reserved_witness:
  "cidr_semantics cidr_lib \<and>
   list_all (\<lambda>a. \<not> reserved a) (fl_connected (fetch_under cidr_lib demo_urls demo_client
        (guard_new (df_allow_private_targets demo_definition) (li_redirect_hops feed_limits_default))
        demo_definition feed_limits_default 0))"
  using intel_fetch_never_reaches_reserved [OF cidr_lib_semantics demo_client_conforms,
      of feed_limits_default 0] cidr_lib_semantics
  by (simp add: demo_definition_def list_all_iff)

section \<open>Publication\<close>

definition manual_match :: FeedMatch where
  "manual_match = \<lparr>fm_feed = None, fm_category = Some ''manual''\<rparr>"

text \<open>The names of the feeds whose published contribution covers an address.\<close>

definition covering_feeds ::
  "'n ipnet_lib \<Rightarrow> 'u Plan \<Rightarrow> 'n fetch_event list \<Rightarrow> nat \<Rightarrow> IpAddr \<Rightarrow> 'u Definition list" where
  "covering_feeds lib p h now ip =
     filter (\<lambda>d. case published (pl_limits p) h now d of
               Some c \<Rightarrow> is_match_addr lib (co_rules c) ip | None \<Rightarrow> False) (pl_definitions p)"

definition plan_feed :: "'u Plan \<Rightarrow> string \<Rightarrow> 'u Definition option" where
  "plan_feed p n = find (\<lambda>d. df_name d = n) (pl_definitions p)"

definition ref_matches ::
  "'n ipnet_lib \<Rightarrow> 'u Plan \<Rightarrow> 'n fetch_event list \<Rightarrow> nat \<Rightarrow> IpAddr \<Rightarrow> FeedMatch option" where
  "ref_matches lib p h now ip =
     (if list_ex (\<lambda>v. entry_covers lib v ip) (pl_manual p) then Some manual_match
      else if covering_feeds lib p h now ip = [] then None
      else (let n = Min (set (map df_name (covering_feeds lib p h now ip))) in
            Some \<lparr>fm_feed = Some n, fm_category = map_option df_category (plan_feed p n)\<rparr>))"

lemma plan_feed_Some:
  assumes "distinct (map df_name (pl_definitions p))"
  shows "plan_feed p n = Some d \<longleftrightarrow> d \<in> set (pl_definitions p) \<and> df_name d = n"
proof -
  have "plan_feed p n = map_of (map (\<lambda>d. (df_name d, d)) (pl_definitions p)) n"
    by (simp add: plan_feed_def find_map_of option.map_ident)
  then show ?thesis
    using assms by (auto simp: map_of_eq_Some_iff comp_def)
qed

lemma snapshot_feeds:
  assumes "distinct (map df_name (pl_definitions p))"
    and r_def: "r = registry_run hc (h @ [(res, opt_outs, now)]) (registry_new lib p)"
  shows "btree_ok (sn_feeds (rg_snapshot r))"
    and "map_of (sn_feeds (rg_snapshot r)) n =
      Option.bind (plan_feed p n) (published (pl_limits p) (h @ [(res, opt_outs, now)]) now)"
proof -
  let ?h = "h @ [(res, opt_outs, now)]"
  have inv: "registry_inv lib p ?h r" unfolding r_def by (rule registry_run_inv [OF assms(1)])
  have lim: "rg_limits (registry_run hc h (registry_new lib p)) = pl_limits p"
    using registry_run_inv [OF assms(1)] unfolding registry_inv_def by blast
  have feeds: "sn_feeds (rg_snapshot r) =
      List.map_filter (fresh_entry (pl_limits p) now) (rg_definitions r)"
    unfolding r_def registry_run_snoc registry_apply_sel lim ..
  have ok: "btree_ok (rg_definitions r)" using inv by (simp add: registry_inv_def)
  show "btree_ok (sn_feeds (rg_snapshot r))"
    unfolding feeds by (rule fresh_entry_sorted [OF ok])
  have "map_option (\<lambda>f. (fs_definition f, fs_last_good f)) (map_of (rg_definitions r) n) =
      map_option (\<lambda>d. (d, last_good d ?h)) (plan_feed p n)"
    using inv unfolding registry_inv_def plan_feed_def by blast
  then show "map_of (sn_feeds (rg_snapshot r)) n =
      Option.bind (plan_feed p n) (published (pl_limits p) ?h now)"
    unfolding feeds map_of_fresh_entry [OF btree_ok_distinct [OF ok]]
    by (cases "map_of (rg_definitions r) n"; cases "plan_feed p n") (simp_all add: published_def)
qed

lemma published_category: "published limits h now d = Some c \<Longrightarrow> co_category c = df_category d"
proof -
  have "last_good d h = Some c \<Longrightarrow> co_category c = df_category d" for c
    by (induction h) (auto simp: contribution_def split: option.splits result.splits if_splits)
  then show "published limits h now d = Some c \<Longrightarrow> co_category c = df_category d"
    by (auto simp: published_def split: option.splits if_splits)
qed

text \<open>
  C10: the snapshot is a function of the fetch results. After any sequence of results, failures
  included, a feed contributes exactly its last good result, and only while that result is within the
  staleness window at the last application; an address is matched by the manual list first and
  otherwise by the least feed name, in string order, whose contribution covers it, with that
  feed's category. In particular an address that left a feed is not matched after the next success.
\<close>

theorem intel_snapshot_is_history:
  assumes "distinct (map df_name (pl_definitions p))"
  shows "map_of (sn_feeds (rg_snapshot (registry_run hc (h @ [(res, opt_outs, now)]) (registry_new lib p)))) n =
      Option.bind (plan_feed p n) (published (pl_limits p) (h @ [(res, opt_outs, now)]) now) \<and>
    registry_matches lib (registry_run hc (h @ [(res, opt_outs, now)]) (registry_new lib p)) ip =
      ref_matches lib p (h @ [(res, opt_outs, now)]) now ip"
proof
  let ?h = "h @ [(res, opt_outs, now)]"
  let ?r = "registry_run hc ?h (registry_new lib p)"
  let ?F = "sn_feeds (rg_snapshot ?r)"
  let ?Q = "\<lambda>c. is_match_addr lib (co_rules c) ip"
  note ok = snapshot_feeds(1) [OF assms refl, of hc h res opt_outs now lib]
  note look = snapshot_feeds(2) [OF assms refl, of hc h res opt_outs now lib]
  show "map_of ?F n = Option.bind (plan_feed p n) (published (pl_limits p) ?h now)"
    by (rule look)
  have covers: "d \<in> set (covering_feeds lib p ?h now ip) \<longleftrightarrow>
      (\<exists>c. plan_feed p (df_name d) = Some d \<and> map_of ?F (df_name d) = Some c \<and> ?Q c)" for d
  proof (cases "plan_feed p (df_name d) = Some d")
    case True
    then have "d \<in> set (pl_definitions p)" using plan_feed_Some [OF assms] by blast
    with True show ?thesis by (auto simp: look covering_feeds_def split: option.split)
  next
    case False
    then have "d \<notin> set (pl_definitions p)" using plan_feed_Some [OF assms] by blast
    with False show ?thesis by (auto simp: covering_feeds_def)
  qed
  have manual: "sn_manual (rg_snapshot ?r) = ip_rules_new lib (pl_manual p)"
    using registry_run_inv [OF assms] unfolding registry_inv_def by blast
  show "registry_matches lib ?r ip = ref_matches lib p ?h now ip"
  proof (cases "list_ex (\<lambda>v. entry_covers lib v ip) (pl_manual p)")
    case True
    then show ?thesis
      by (simp add: registry_matches_def ref_matches_def manual manual_match_def is_match_addr_new list_ex_iff)
  next
    case False
    then have r: "registry_matches lib ?r ip = feed_find_map lib ip ?F"
      by (simp add: registry_matches_def manual is_match_addr_new list_ex_iff)
    show ?thesis
    proof (cases "find (\<lambda>(k, c). ?Q c) ?F")
      case None
      then have "\<forall>k c. map_of ?F k = Some c \<longrightarrow> \<not> ?Q c"
        by (simp only: btree_find_None [OF ok])
      then have "covering_feeds lib p ?h now ip = []"
        using covers by (metis list.set_intros(1) neq_Nil_conv)
      with None r False show ?thesis by (simp add: feed_find_map_def ref_matches_def)
    next
      case (Some kc)
      obtain k c where kc: "kc = (k, c)" by (cases kc)
      from btree_find_Some [OF ok Some [unfolded kc]]
      have m: "map_of ?F k = Some c" "?Q c" and least: "\<And>k' c'. map_of ?F k' = Some c' \<Longrightarrow> ?Q c' \<Longrightarrow> k \<le> k'"
        by blast+
      from m(1) obtain d where d: "plan_feed p k = Some d" and c: "published (pl_limits p) ?h now d = Some c"
        unfolding look by (auto simp: bind_eq_Some_conv)
      have name: "df_name d = k" using d plan_feed_Some [OF assms] by blast
      have mem: "d \<in> set (covering_feeds lib p ?h now ip)"
        unfolding covers using d m name by auto
      have "Min (set (map df_name (covering_feeds lib p ?h now ip))) = k"
      proof (rule Min_eqI)
        fix y assume "y \<in> set (map df_name (covering_feeds lib p ?h now ip))"
        then show "k \<le> y" using covers least by auto
      qed (use mem name in auto)
      with Some r False mem d published_category [OF c] show ?thesis
        by (auto simp: feed_find_map_def ref_matches_def kc Let_def)
    qed
  qed
qed

definition demo_plan :: "string Plan" where
  "demo_plan = \<lparr>pl_definitions = [demo_definition], pl_manual = [''192.0.2.1''], pl_limits = feed_limits_default\<rparr>"

theorem intel_snapshot_is_history_witness:
  "distinct (map df_name (pl_definitions demo_plan)) \<and>
   registry_matches cidr_lib (registry_run demo_client
       ([(Ok \<lparr>fr_name = ''spam'', fr_parsed = parse_feed cidr_lib ''198.51.100.7'' 10, fr_fetched_at = 5\<rparr>, 0, 5)] @
        [(Err (FeedStatus ''spam'' 503), 0, 7)]) (registry_new cidr_lib demo_plan)) (V4 0xC6336407) =
     ref_matches cidr_lib demo_plan
       ([(Ok \<lparr>fr_name = ''spam'', fr_parsed = parse_feed cidr_lib ''198.51.100.7'' 10, fr_fetched_at = 5\<rparr>, 0, 5)] @
        [(Err (FeedStatus ''spam'' 503), 0, 7)]) 7 (V4 0xC6336407)"
proof -
  have d: "distinct (map df_name (pl_definitions demo_plan))" by (simp add: demo_plan_def)
  show ?thesis
    by (intro conjI d intel_snapshot_is_history [OF d, THEN conjunct2])
qed

text \<open>
  The feed of an error is read back out of its text, so a failure is recorded against the feed it
  names exactly when the name holds no backquote.
\<close>

lemma split_on_hd: "hd (split_on c (a @ c # b)) = a" if "c \<notin> set a"
  using that by (induction a) (auto split: list.split)

lemma error_name_feed:
  assumes "CHR ''`'' \<notin> set (error_feed e)"
  shows "error_name hc e = error_feed e"
proof -
  obtain rest where t: "feed_error_to_string hc e = ''intel feed `'' @ error_feed e @ CHR ''`'' # rest"
    by (cases e) auto
  then have "strip_prefix ''intel feed `'' (feed_error_to_string hc e) = Some (error_feed e @ CHR ''`'' # rest)"
    by (simp only: strip_prefix_Some)
  then show ?thesis
    using split_on_hd [OF assms] by (simp add: error_name_def del: strip_prefix.simps)
qed

lemma intel_error_misattributed: "error_name hc (FeedStatus ''a`b'' 503) = ''a''"
proof -
  have "strip_prefix ''intel feed `'' (feed_error_to_string hc (FeedStatus ''a`b'' 503)) =
      Some (''a`b'' @ ''` returned HTTP '' @ hc_status_text hc 503)"
    by (simp only: strip_prefix_Some feed_error_to_string.simps)
  then show ?thesis
    using split_on_hd [of "CHR ''`''" "''a''"] by (simp add: error_name_def)
qed

section \<open>Plans\<close>

text \<open>
  C31: the plan depends on what the tables declare and not on their order. A plan exists exactly
  when every table is valid on its own and any two declarations of one feed name, enabled or not,
  agree. Then every limit is the least one any table declares, or the default where none does; the
  feeds are the enabled ones, one definition for each name; and the manual entries are the union.
\<close>

theorem intel_plan_by_content:
  "is_Ok (plan lib ul es) =
     ((\<forall>(e, c)\<in>set es. intel_table_ok lib ul c) \<and> names_agree (resolved ul ` declared_feeds (set es))) \<and>
   (\<forall>p. plan lib ul es = Ok p \<longrightarrow>
      pl_limits p = strict_limits (snd ` set es) \<and>
      distinct (map df_name (pl_definitions p)) \<and>
      set (pl_definitions p) = resolved ul ` {f \<in> declared_feeds (set es). fc_enabled f} \<and>
      distinct (pl_manual p) \<and>
      set (pl_manual p) = (\<Union>(e, c)\<in>set es. set (ic_manual c)))"
  using plan_is_Ok [of lib ul es] plan_Ok [of lib ul es] by simp

definition demo_table :: "usize option \<Rightarrow> bool \<Rightarrow> IntelConf" where
  "demo_table hops enabled = \<lparr>ic_feed = [\<lparr>fc_name = ''spam'', fc_url = ''feeds'', fc_category = None,
       fc_enabled = enabled, fc_allow_private_targets = False\<rparr>],
     ic_manual = [''192.0.2.1''], ic_timeout = None, ic_staleness = None, ic_max_body_bytes = None,
     ic_max_entries = None, ic_redirect_hops = hops\<rparr>"

lemma drop_forms_id:
  assumes "\<forall>w\<in>set forms. w = [] \<or> hd w \<noteq> c"
  shows "drop_forms forms (c # cs) = c # cs"
proof -
  have "\<not> (w \<noteq> [] \<and> prefix w (c # cs))" if "w \<in> set forms" for w
    using assms that by (cases w) auto
  then have "find (\<lambda>w. w \<noteq> [] \<and> prefix w (c # cs)) forms = None"
    by (auto simp: find_None_iff)
  then show ?thesis by (subst drop_forms.simps) simp
qed

lemma demo_trim: "str_trim ''spam'' \<noteq> []" "str_trim ''feeds'' \<noteq> []"
proof -
  have forms: "hd w \<noteq> c \<and> hd (rev w) \<noteq> c"
    if "w \<in> set ws_forms" and "c \<in> {CHR ''s'', CHR ''f'', CHR ''m''}" for w c
    using that by (auto simp: ws_forms_def char_of_eq_iff upt_rec)
  have "\<forall>w\<in>set ws_forms. w = [] \<or> hd w \<noteq> CHR ''s''" "\<forall>w\<in>set ws_forms. w = [] \<or> hd w \<noteq> CHR ''f''"
    "\<forall>w\<in>set (map rev ws_forms). w = [] \<or> hd w \<noteq> CHR ''m''"
    "\<forall>w\<in>set (map rev ws_forms). w = [] \<or> hd w \<noteq> CHR ''s''"
    using forms by simp_all
  then show "str_trim ''spam'' \<noteq> []" "str_trim ''feeds'' \<noteq> []"
    by (simp_all add: str_trim_def drop_forms_id del: set_map)
qed

lemma names_agree_singleton: "A \<subseteq> {x} \<Longrightarrow> names_agree A"
  by (auto simp: names_agree_def)

lemma demo_feed_resolved:
  "fc_name f = ''spam'' \<Longrightarrow> fc_url f = ''feeds'' \<Longrightarrow> fc_category f = None \<Longrightarrow> \<not> fc_allow_private_targets f \<Longrightarrow>
     feed_definition demo_urls [] f = Ok (demo_definition\<lparr>df_category := ''unspecified''\<rparr>)"
  using demo_trim
  by (simp add: feed_definition_def Let_def demo_urls_def demo_definition_def UNSPECIFIED_CATEGORY_def)

text \<open>Two tables, one with the feed switched off and a tighter redirect budget.\<close>

theorem intel_plan_by_content_witness:
  "\<exists>p. plan cidr_lib demo_urls [(''a'', demo_table (Some 3) True), (''b'', demo_table (Some 2) False)] = Ok p \<and>
     distinct (map df_name (pl_definitions p)) \<and>
     pl_limits p = strict_limits (snd ` set [(''a'', demo_table (Some 3) True), (''b'', demo_table (Some 2) False)])"
proof -
  let ?es = "[(''a'', demo_table (Some 3) True), (''b'', demo_table (Some 2) False)]"
  have manual: "parses_as_an_address cidr_lib ''192.0.2.1''" by code_simp
  have tables: "intel_table_ok cidr_lib demo_urls (demo_table (Some 3) True)"
    "intel_table_ok cidr_lib demo_urls (demo_table (Some 2) False)"
    using manual demo_feed_resolved
    by (simp_all add: intel_table_ok_def demo_table_def limit_fault_def MAX_REDIRECT_HOPS_def)
  have "resolved demo_urls ` declared_feeds (set ?es) \<subseteq> {demo_definition\<lparr>df_category := ''unspecified''\<rparr>}"
    using demo_feed_resolved by (auto simp: declared_feeds_def demo_table_def resolved_def)
  then have "names_agree (resolved demo_urls ` declared_feeds (set ?es))"
    by (rule names_agree_singleton)
  with tables have "is_Ok (plan cidr_lib demo_urls ?es)"
    using intel_plan_by_content [THEN conjunct1, of cidr_lib demo_urls ?es] by simp
  then have "\<exists>p. plan cidr_lib demo_urls ?es = Ok p"
    by (cases "plan cidr_lib demo_urls ?es") auto
  then obtain p where p: "plan cidr_lib demo_urls ?es = Ok p" ..
  note c = intel_plan_by_content [THEN conjunct2, rule_format, OF p]
  show ?thesis
    using p c by blast
qed

section \<open>Feed bodies\<close>


end
