(* ===== verification/Waf_Plugin_Props.thy ===== *)
theory Waf_Plugin_Props
  imports Waf_Plugin Waf_Props Waf_Native_Ids Waf_Interleave Intel_Props
begin

text \<open>
  The properties of the WAF plugin: a request body is forwarded whole or not at all, a response body
  is changed only by masking, and the address controls judge the connection's own address.
\<close>

section \<open>What publication leaves alone\<close>

definition ctx_core :: "waf_ctx \<Rightarrow> string option \<times> string \<times> u16 option \<times> body_buffer option \<times>
    body_buffer option \<times> body_buffer option \<times> challenge_marker option \<times> (string \<times> u64) list" where
  "ctx_core ctx = (wx_client_ip ctx, wx_location ctx, wx_status ctx, wx_request_body ctx,
     wx_upstream_body ctx, wx_downstream_body ctx, wx_marker ctx, wx_written ctx)"

definition verdict_of :: "waf_state \<Rightarrow> Hit list \<times> bool \<times> bool \<times> bool \<times> bool" where
  "verdict_of st = (ws_hits st, ws_blocked st, ws_challenged st, ws_redacted st, ws_truncated st)"

lemma emit_verdict_core [simp]:
  "ctx_core (emit_verdict ctx) = ctx_core ctx" "wx_waf (emit_verdict ctx) = wx_waf ctx"
proof -
  have "ctx_core (foldl (\<lambda>ctx (key, val). add_variable key val ctx) ctx fs) = ctx_core ctx \<and>
    wx_waf (foldl (\<lambda>ctx (key, val). add_variable key val ctx) ctx fs) = wx_waf ctx" for fs ctx
    by (induction fs arbitrary: ctx) (auto simp: add_variable_def ctx_core_def)
  then show "ctx_core (emit_verdict ctx) = ctx_core ctx" "wx_waf (emit_verdict ctx) = wx_waf ctx"
    by (simp_all add: emit_verdict_def split: option.split)
qed

lemma offer_new_events_core [simp]:
  "ctx_core (offer_new_events now terminal ctx) = ctx_core ctx"
  "map_option verdict_of (wx_waf (offer_new_events now terminal ctx)) = map_option verdict_of (wx_waf ctx)"
  by (simp_all add: offer_new_events_def ctx_core_def verdict_of_def Let_def split: option.split)

lemma publish_core [simp]:
  "ctx_core (publish now ctx) = ctx_core ctx"
  "map_option verdict_of (wx_waf (publish now ctx)) = map_option verdict_of (wx_waf ctx)"
  by (simp_all add: publish_def)

lemma with_state_core [simp]: "ctx_core (with_state pl f ctx) = ctx_core ctx"
  by (simp add: with_state_def ctx_core_def)

lemma ctx_core_sel:
  assumes "ctx_core ctx' = ctx_core ctx"
  shows "wx_request_body ctx' = wx_request_body ctx" "side_body sd ctx' = side_body sd ctx"
    "wx_marker ctx' = wx_marker ctx" "wx_client_ip ctx' = wx_client_ip ctx"
  using assms by (auto simp: ctx_core_def side_body_def split: side.split)

lemmas publish_sel [simp] = ctx_core_sel [OF publish_core(1)]
lemmas with_state_sel [simp] = ctx_core_sel [OF with_state_core]

section \<open>Request bodies\<close>

text \<open>A body is handed over chunk by chunk until the stage fails.\<close>

fun body_run ::
  "('re, 'hir, 'ac, 'n, 'u) waf_world \<Rightarrow> ('re, 'ac, 'n, 'u) waf \<Rightarrow> waf_ctx \<Rightarrow> (string option \<times> bool) list
     \<Rightarrow> (unit, nat) result \<times> waf_ctx \<times> string" where
  "body_run w pl ctx [] = (Ok (), ctx, [])"
| "body_run w pl ctx ((chunk, eos) # chunks) =
     (case waf_handle_request_body w pl ctx chunk eos of
        (Err e, ctx', out) \<Rightarrow> (Err e, ctx', chunk_bytes out)
      | (Ok _, ctx', out) \<Rightarrow>
          (case body_run w pl ctx' chunks of (r, ctx'', sent) \<Rightarrow> (r, ctx'', chunk_bytes out @ sent)))"

lemma body_run_unlimited:
  "wf_body_limit pl = 0 \<Longrightarrow> body_run w pl ctx chunks = (Ok (), ctx, body_of chunks)"
  by (induction chunks) (auto simp: waf_handle_request_body_def chunk_bytes_def)

lemma body_run_released:
  assumes "wf_body_limit pl \<noteq> 0" and "wx_request_body ctx = Some b" and "bb_released b"
  shows "\<exists>ctx'. body_run w pl ctx chunks = (Ok (), ctx', body_of chunks)"
  using assms
proof (induction chunks arbitrary: ctx)
  case (Cons a chunks)
  obtain chunk eos where a: "a = (chunk, eos)" by (cases a)
  have h: "waf_handle_request_body w pl ctx chunk eos = (Ok (), ctx\<lparr>wx_request_body := Some b\<rparr>, chunk)"
    using Cons.prems by (simp add: waf_handle_request_body_def or_new_def feed_released)
  obtain ctx' where "body_run w pl (ctx\<lparr>wx_request_body := Some b\<rparr>) chunks = (Ok (), ctx', body_of chunks)"
    using Cons.IH [of "ctx\<lparr>wx_request_body := Some b\<rparr>"] Cons.prems by auto
  with h show ?case by (simp add: a chunk_bytes_def)
qed simp

text \<open>One call on a body nothing of which has been released.\<close>

lemma body_step_unreleased:
  fixes pl :: "('re, 'ac, 'n, 'u) waf"
  assumes lim: "wf_body_limit pl \<noteq> 0"
    and b: "b = or_new (wx_request_body ctx) (wf_body_limit pl) (wf_over_cap pl)"
    and rel: "\<not> bb_released b"
    and h: "waf_handle_request_body w pl ctx chunk eos = (r, ctx', out)"
  shows "(\<exists>e. r = Err e \<and> out = None) \<or>
    (r = Ok () \<and> out = None \<and> \<not> eos \<and>
       (\<exists>b'. wx_request_body ctx' = Some b' \<and> \<not> bb_released b' \<and> bb_buf b' = bb_buf b @ chunk_bytes chunk)) \<or>
    (r = Ok () \<and> out = Some (bb_buf b @ chunk_bytes chunk) \<and>
       (\<exists>b'. wx_request_body ctx' = Some b' \<and> bb_released b'))"
proof -
  obtain fd b' where f: "feed b chunk eos = (fd, b')" by fastforce
  show ?thesis
  proof (cases fd)
    case Hold
    moreover have "\<not> eos" using f Hold rel by (auto simp: feed_cases Let_def split: if_splits)
    ultimately show ?thesis
      using h lim f feed_Hold [of b chunk eos b'] unfolding b
      by (auto simp: waf_handle_request_body_def)
  next
    case Release
    with h lim f feed_Release [of b chunk eos b'] show ?thesis unfolding b
      by (auto simp: waf_handle_request_body_def body_take_def Let_def split: if_splits)
  next
    case PassThrough
    with f rel show ?thesis by (auto simp: feed_cases Let_def split: if_splits)
  next
    case FeedReject
    with h lim f show ?thesis unfolding b by (auto simp: waf_handle_request_body_def Let_def)
  qed
qed

lemma body_run_unreleased:
  fixes pl :: "('re, 'ac, 'n, 'u) waf"
  assumes "wf_body_limit pl \<noteq> 0"
    and "\<not> bb_released (or_new (wx_request_body ctx) (wf_body_limit pl) (wf_over_cap pl))"
    and "body_run w pl ctx chunks = (r, ctx', sent)"
  shows "(is_Ok r \<longrightarrow> ends_stream chunks \<longrightarrow>
      sent = bb_buf (or_new (wx_request_body ctx) (wf_body_limit pl) (wf_over_cap pl)) @ body_of chunks) \<and>
    (\<not> is_Ok r \<longrightarrow> sent = [])"
  using assms(2,3)
proof (induction chunks arbitrary: ctx sent)
  case Nil
  then show ?case by (auto simp: ends_stream_def)
next
  case (Cons a chunks)
  obtain chunk eos where a: "a = (chunk, eos)" by (cases a)
  let ?b = "or_new (wx_request_body ctx) (wf_body_limit pl) (wf_over_cap pl)"
  obtain r1 c1 o1 where h: "waf_handle_request_body w pl ctx chunk eos = (r1, c1, o1)"
    by (metis prod_cases3)
  have body: "body_of (a # chunks) = chunk_bytes chunk @ body_of chunks"
    by (simp add: a chunk_bytes_def)
  consider (err) e where "r1 = Err e" "o1 = None"
    | (hold) b' where "r1 = Ok ()" "o1 = None" "\<not> eos" "wx_request_body c1 = Some b'" "\<not> bb_released b'"
        "bb_buf b' = bb_buf ?b @ chunk_bytes chunk"
    | (release) b' where "r1 = Ok ()" "o1 = Some (bb_buf ?b @ chunk_bytes chunk)"
        "wx_request_body c1 = Some b'" "bb_released b'"
    using body_step_unreleased [OF assms(1) refl Cons.prems(1) h] by blast
  then show ?case
  proof cases
    case err
    with Cons.prems(2) h show ?thesis by (auto simp: a chunk_bytes_def)
  next
    case (hold b')
    then obtain s2 where rest: "body_run w pl c1 chunks = (r, ctx', s2)" "sent = s2"
      using Cons.prems(2) h by (auto simp: a chunk_bytes_def split: prod.splits)
    have or: "or_new (wx_request_body c1) (wf_body_limit pl) (wf_over_cap pl) = b'"
      using hold by (simp add: or_new_def)
    have "ends_stream (a # chunks) = ends_stream chunks" using hold by (simp add: a ends_stream_def)
    with Cons.IH [of c1 s2] rest hold show ?thesis unfolding or body by simp
  next
    case (release b')
    obtain c2 where "body_run w pl c1 chunks = (Ok (), c2, body_of chunks)"
      using body_run_released [OF assms(1) release(3,4)] by blast
    with Cons.prems(2) h release show ?thesis
      unfolding body by (auto simp: a chunk_bytes_def)
  qed
qed

text \<open>
  C8: a request body is forwarded whole or not at all. However the body is cut into chunks, when
  every call of the body stage succeeds and the stream ends, the bytes handed to the upstream are
  the bytes received; when a call fails, because the body is over the limit under the reject policy
  or because its inspected part is enforced against, not one byte was handed over before.
\<close>

theorem waf_body_all_or_nothing:
  assumes "wx_request_body ctx = None" and "body_run w pl ctx chunks = (r, ctx', sent)"
  shows "(is_Ok r \<longrightarrow> ends_stream chunks \<longrightarrow> sent = body_of chunks) \<and> (\<not> is_Ok r \<longrightarrow> sent = [])"
proof (cases "wf_body_limit pl = 0")
  case True
  with assms show ?thesis by (auto simp: body_run_unlimited)
next
  case False
  have new: "or_new (wx_request_body ctx) (wf_body_limit pl) (wf_over_cap pl) =
      body_buffer_new (wf_body_limit pl) (wf_over_cap pl)"
    using assms(1) by (simp add: or_new_def)
  show ?thesis
    using body_run_unreleased [OF False _ assms(2)] unfolding new by (simp add: body_buffer_new_def)
qed

section \<open>Response bodies\<close>

fun response_run ::
  "('re, 'hir, 'ac, 'n, 'u) waf_world \<Rightarrow> ('re, 'ac, 'n, 'u) waf \<Rightarrow> side \<Rightarrow> waf_ctx
     \<Rightarrow> (string option \<times> bool) list \<Rightarrow> waf_ctx \<times> string" where
  "response_run w pl sd ctx [] = (ctx, [])"
| "response_run w pl sd ctx ((chunk, eos) # chunks) =
     (case waf_handle_response_body w pl sd ctx chunk eos of
        (_, ctx', out) \<Rightarrow>
          (case response_run w pl sd ctx' chunks of (ctx'', sent) \<Rightarrow> (ctx'', chunk_bytes out @ sent)))"

text \<open>\<open>masks hits a b\<close>: \<open>b\<close> is \<open>a\<close> with some bytes overwritten, each inside the span of a hit.\<close>

definition in_span :: "Hit \<Rightarrow> nat \<Rightarrow> bool" where
  "in_span h i =
     (case h_matched_field h of
        FResponseBody offset len \<Rightarrow> offset \<le> i \<and> i < sat_add_usize offset len
      | _ \<Rightarrow> False)"

definition masks :: "Hit list \<Rightarrow> string \<Rightarrow> string \<Rightarrow> bool" where
  "masks hits a b \<longleftrightarrow>
     length b = length a \<and>
     (\<forall>i<length a. b ! i = a ! i \<or> b ! i = CHR ''*'' \<and> list_ex (\<lambda>h. in_span h i) hits)"

lemma masks_refl [simp]: "masks hits a a"
  by (simp add: masks_def)

lemma masks_append: "masks hits a b \<Longrightarrow> masks hits (a @ c) (b @ c)"
  by (auto simp: masks_def nth_append)

lemma masks_mono: "masks hits a b \<Longrightarrow> set hits \<subseteq> set hits' \<Longrightarrow> masks hits' a b"
  unfolding masks_def list_ex_iff by blast

lemma mask_hits_masks:
  "masks hits release (snd (mask_hits hits release)) \<and>
   (\<not> fst (mask_hits hits release) \<longrightarrow> snd (mask_hits hits release) = release)"
proof (induction hits rule: rev_induct)
  case Nil
  then show ?case by (simp add: mask_hits_def)
next
  case (snoc h hits)
  obtain m body where m: "mask_hits hits release = (m, body)" by fastforce
  have IH: "masks hits release body" and same: "\<not> m \<longrightarrow> body = release" using snoc m by simp_all
  show ?case
  proof (cases "\<exists>offset len. h_matched_field h = FResponseBody offset len")
    case True
    then obtain offset len where f: "h_matched_field h = FResponseBody offset len" by blast
    obtain m' body' where m': "mask_body body offset len = (m', body')" by fastforce
    have run: "mask_hits (hits @ [h]) release = (m \<or> m', body')"
      using m m' f by (simp add: mask_hits_def)
    have len: "length body' = length body" using length_mask [of body offset len] m' by simp
    have nth: "i < length body \<Longrightarrow>
        body' ! i = (if offset \<le> i \<and> i < sat_add_usize offset len then CHR ''*'' else body ! i)" for i
      using mask_nth [of i body offset len] m' by simp
    have "masks (hits @ [h]) release body'"
      using IH len nth f by (auto simp: masks_def in_span_def)
    moreover have "\<not> m' \<longrightarrow> body' = body" using m' by (auto simp: mask_body_def Let_def split: if_splits)
    ultimately show ?thesis using run same by auto
  next
    case False
    then have run: "mask_hits (hits @ [h]) release = (m, body)"
      using m by (simp add: mask_hits_def split: MatchedField.split)
    have "masks (hits @ [h]) release body" using IH by (rule masks_mono) auto
    with run same show ?thesis by simp
  qed
qed

definition hits_of :: "waf_ctx \<Rightarrow> Hit list" where
  "hits_of ctx = (case wx_waf ctx of Some st \<Rightarrow> ws_hits st | None \<Rightarrow> [])"

definition redacted_of :: "waf_ctx \<Rightarrow> bool" where
  "redacted_of ctx = (case wx_waf ctx of Some st \<Rightarrow> ws_redacted st | None \<Rightarrow> False)"

lemma publish_verdict [simp]:
  "hits_of (publish now ctx) = hits_of ctx" "redacted_of (publish now ctx) = redacted_of ctx"
  using publish_core(2) [of now ctx]
  by (cases "wx_waf (publish now ctx)"; cases "wx_waf ctx"; simp add: hits_of_def redacted_of_def verdict_of_def)+

lemma waf_state_of_sel:
  "ws_hits (waf_state_of pl ctx) = hits_of ctx" "ws_redacted (waf_state_of pl ctx) = redacted_of ctx"
  by (simp_all add: waf_state_of_def hits_of_def redacted_of_def waf_state_default_def Let_def split: option.split)

lemma with_state_verdict [simp]:
  "hits_of (with_state pl f ctx) = ws_hits (f (waf_state_of pl ctx))"
  "redacted_of (with_state pl f ctx) = ws_redacted (f (waf_state_of pl ctx))"
  by (simp_all add: hits_of_def redacted_of_def with_state_def)

lemma side_body_set [simp]: "side_body sd (set_side_body sd b ctx) = Some b"
  by (simp add: side_body_def set_side_body_def split: side.split)

lemma hits_set_side [simp]:
  "hits_of (set_side_body sd b ctx) = hits_of ctx" "redacted_of (set_side_body sd b ctx) = redacted_of ctx"
  by (simp_all add: hits_of_def redacted_of_def set_side_body_def split: side.split)

definition scans :: "('re, 'ac, 'n, 'u) waf \<Rightarrow> bool" where
  "scans pl \<longleftrightarrow> wf_response_prefix_limit pl \<noteq> 0 \<and> en_response_rules (wf_engine pl) \<noteq> []"

lemma response_step_off:
  "\<not> scans pl \<Longrightarrow> waf_handle_response_body w pl sd ctx chunk eos =
     (Unchanged, if eos then publish (ww_now w) ctx else ctx, chunk)"
  by (auto simp: waf_handle_response_body_def scan_response_def scans_def)

lemma response_step_released:
  assumes "scans pl" and "side_body sd ctx = Some b" and "bb_released b"
  shows "\<exists>ctx'. waf_handle_response_body w pl sd ctx chunk eos = (Unchanged, ctx', chunk) \<and>
    side_body sd ctx' = Some b \<and> hits_of ctx' = hits_of ctx \<and> redacted_of ctx' = redacted_of ctx"
  using assms
  by (simp add: waf_handle_response_body_def scan_response_def scans_def or_new_def feed_released)

lemma response_step_unreleased:
  fixes pl :: "('re, 'ac, 'n, 'u) waf"
  assumes on: "scans pl"
    and b: "b = or_new (side_body sd ctx) (wf_response_prefix_limit pl) InspectPrefix"
    and rel: "\<not> bb_released b" and policy: "bb_policy b = InspectPrefix"
    and h: "waf_handle_response_body w pl sd ctx chunk eos = (r, ctx', out)"
  shows "(out = None \<and> \<not> eos \<and> hits_of ctx' = hits_of ctx \<and> redacted_of ctx' = redacted_of ctx \<and>
       (\<exists>b'. side_body sd ctx' = Some b' \<and> \<not> bb_released b' \<and> bb_policy b' = InspectPrefix \<and>
             bb_buf b' = bb_buf b @ chunk_bytes chunk)) \<or>
    (\<exists>sent. out = Some sent \<and> masks (hits_of ctx') (bb_buf b @ chunk_bytes chunk) sent \<and>
       (\<not> redacted_of ctx' \<longrightarrow> sent = bb_buf b @ chunk_bytes chunk) \<and>
       (\<exists>b'. side_body sd ctx' = Some b' \<and> bb_released b'))"
proof -
  obtain fd b' where f: "feed b chunk eos = (fd, b')" by fastforce
  note h' = h [unfolded waf_handle_response_body_def scan_response_def b [symmetric] f]
  show ?thesis
  proof (cases fd)
    case Hold
    have "\<not> eos" using f Hold rel by (auto simp: feed_cases Let_def split: if_splits)
    moreover have "out = None" "ctx' = set_side_body sd b' ctx"
      using h' on Hold \<open>\<not> eos\<close> by (auto simp: scans_def)
    ultimately show ?thesis
      using feed_Hold [of b chunk eos b'] f Hold policy by simp
  next
    case Release
    let ?body = "bb_buf b @ chunk_bytes chunk"
    have buf: "bb_buf b' = ?body" "bb_released b'" using feed_Release [of b chunk eos b'] f Release by simp_all
    define e where "e = evaluate_response (ww_libs w) (ww_clock w) (wf_engine pl)
        \<lparr>rp_status = (case wx_status ctx of Some s \<Rightarrow> s | None \<Rightarrow> 0), rp_headers = [],
         rp_body_chunk = Some (take (length (inspected b')) (bb_buf b')), rp_request_score = 0,
         rp_body_truncated = bb_truncated b'\<rparr>"
    obtain masked sent where ms: "redact (e_verdict e) (bb_buf b') = (masked, sent)" by fastforce
    have m: "masks (rs_hits (e_verdict e)) ?body sent" "\<not> masked \<longrightarrow> sent = ?body"
      using ms mask_hits_masks [of "rs_hits (e_verdict e)" ?body] by (auto simp: buf redact_def split: if_splits)
    have out: "out = Some sent" and ctx: "side_body sd ctx' = Some (b'\<lparr>bb_buf := []\<rparr>)"
      "hits_of ctx' = hits_of ctx @ rs_hits (e_verdict e)" "redacted_of ctx' = (redacted_of ctx \<or> masked)"
      using h' on Release
      by (cases eos; auto simp: scans_def body_take_def Let_def ms absorb_def waf_state_of_sel simp flip: e_def)+
    have "masks (hits_of ctx') ?body sent" using m(1) by (rule masks_mono) (simp add: ctx)
    with out ctx m(2) buf show ?thesis by auto
  next
    case PassThrough
    with f rel show ?thesis by (auto simp: feed_cases Let_def split: if_splits)
  next
    case FeedReject
    with f rel policy show ?thesis by (auto simp: feed_cases Let_def split: if_splits)
  qed
qed

lemma response_run_released:
  assumes "scans pl" and "side_body sd ctx = Some b" and "bb_released b"
    and "response_run w pl sd ctx chunks = (ctx', sent)"
  shows "sent = body_of chunks \<and> hits_of ctx' = hits_of ctx \<and> redacted_of ctx' = redacted_of ctx"
  using assms(2-4)
proof (induction chunks arbitrary: ctx sent)
  case (Cons a chunks)
  obtain chunk eos where a: "a = (chunk, eos)" by (cases a)
  obtain c1 where h: "waf_handle_response_body w pl sd ctx chunk eos = (Unchanged, c1, chunk)"
    and c1: "side_body sd c1 = Some b" "hits_of c1 = hits_of ctx" "redacted_of c1 = redacted_of ctx"
    using response_step_released [OF assms(1) Cons.prems(1,2)] by blast
  obtain s2 where rest: "response_run w pl sd c1 chunks = (ctx', s2)" and sent: "sent = chunk_bytes chunk @ s2"
    using Cons.prems(3) h by (auto simp: a split: prod.splits)
  from Cons.IH [OF c1(1) Cons.prems(2) rest] c1 sent show ?case by (simp add: a chunk_bytes_def)
qed simp

lemma response_run_off:
  assumes "\<not> scans pl"
  shows "snd (response_run w pl sd ctx chunks) = body_of chunks"
proof (induction chunks arbitrary: ctx)
  case (Cons a chunks)
  obtain chunk eos where a: "a = (chunk, eos)" by (cases a)
  obtain c1 where "waf_handle_response_body w pl sd ctx chunk eos = (Unchanged, c1, chunk)"
    using response_step_off [OF assms] by blast
  with Cons.IH [of c1] show ?case
    by (cases "response_run w pl sd c1 chunks") (simp add: a chunk_bytes_def)
qed simp

lemma response_run_unreleased:
  fixes pl :: "('re, 'ac, 'n, 'u) waf"
  assumes on: "scans pl"
    and "\<not> bb_released (or_new (side_body sd ctx) (wf_response_prefix_limit pl) InspectPrefix)"
    and "bb_policy (or_new (side_body sd ctx) (wf_response_prefix_limit pl) InspectPrefix) = InspectPrefix"
    and "ends_stream chunks" and "response_run w pl sd ctx chunks = (ctx', sent)"
  shows "masks (hits_of ctx')
      (bb_buf (or_new (side_body sd ctx) (wf_response_prefix_limit pl) InspectPrefix) @ body_of chunks) sent \<and>
    (\<not> redacted_of ctx' \<longrightarrow>
      sent = bb_buf (or_new (side_body sd ctx) (wf_response_prefix_limit pl) InspectPrefix) @ body_of chunks)"
  using assms(2-5)
proof (induction chunks arbitrary: ctx sent)
  case Nil
  then show ?case by (simp add: ends_stream_def)
next
  case (Cons a chunks)
  obtain chunk eos where a: "a = (chunk, eos)" by (cases a)
  let ?b = "or_new (side_body sd ctx) (wf_response_prefix_limit pl) InspectPrefix"
  let ?buf = "bb_buf ?b @ chunk_bytes chunk"
  obtain r c1 o1 where h: "waf_handle_response_body w pl sd ctx chunk eos = (r, c1, o1)"
    by (metis prod_cases3)
  obtain s2 where rest: "response_run w pl sd c1 chunks = (ctx', s2)" and sent: "sent = chunk_bytes o1 @ s2"
    using Cons.prems(4) h by (auto simp: a split: prod.splits)
  have body: "bb_buf ?b @ body_of (a # chunks) = ?buf @ body_of chunks"
    by (simp add: a chunk_bytes_def)
  consider (hold) b' where "o1 = None" "\<not> eos" "side_body sd c1 = Some b'" "\<not> bb_released b'"
        "bb_policy b' = InspectPrefix" "bb_buf b' = ?buf"
    | (release) s b' where "o1 = Some s" "masks (hits_of c1) ?buf s" "\<not> redacted_of c1 \<longrightarrow> s = ?buf"
        "side_body sd c1 = Some b'" "bb_released b'"
    using response_step_unreleased [OF on refl Cons.prems(1,2) h] by blast
  then show ?case
  proof cases
    case (hold b')
    have or: "or_new (side_body sd c1) (wf_response_prefix_limit pl) InspectPrefix = b'"
      using hold by (simp add: or_new_def)
    have ends: "ends_stream chunks" using Cons.prems(3) hold by (simp add: a ends_stream_def)
    from Cons.IH [of c1 s2, unfolded or, OF hold(4,5) ends rest] show ?thesis
      unfolding body using hold sent by (simp add: chunk_bytes_def)
  next
    case (release s b')
    note t = response_run_released [OF on release(4,5) rest]
    then show ?thesis
      unfolding body using release sent masks_append [OF release(2)] by (simp add: chunk_bytes_def)
  qed
qed

text \<open>
  C33: a response body is only ever masked. However it is cut into chunks, the bytes that leave a
  response stage are as many as the bytes that entered it; each is the byte received, or an asterisk
  inside the response-body span of a recorded hit; and unless the request ends up marked as redacted
  the body is unchanged.
\<close>

theorem waf_response_only_masked:
  assumes "side_body sd ctx = None" and "ends_stream chunks"
    and "response_run w pl sd ctx chunks = (ctx', sent)"
  shows "masks (hits_of ctx') (body_of chunks) sent \<and> (\<not> redacted_of ctx' \<longrightarrow> sent = body_of chunks)"
proof (cases "scans pl")
  case True
  have new: "or_new (side_body sd ctx) (wf_response_prefix_limit pl) InspectPrefix =
      body_buffer_new (wf_response_prefix_limit pl) InspectPrefix"
    using assms(1) by (simp add: or_new_def)
  show ?thesis
    using response_run_unreleased [OF True _ _ assms(2,3)] unfolding new by (simp add: body_buffer_new_def)
next
  case False
  with assms(3) response_run_off [of pl w sd ctx chunks] show ?thesis by simp
qed

section \<open>Address controls\<close>

lemma build_ip_filter_Ok:
  assumes "build_ip_filter lib enabled extras = Ok f"
  shows "(px_ip_list extras = [] \<and> px_ip_list_mode extras = LmDeny \<and> f = None) \<or>
    (px_ip_list extras \<noteq> [] \<and> enabled \<and>
       (\<exists>filt. f = Some filt \<and> ip_filter_new lib (px_ip_list_mode extras) (px_ip_list extras) = Ok filt))"
  using assms
  by (cases "px_ip_list_mode extras") (auto simp: build_ip_filter_def result_bind_Ok map_err_Ok split: if_splits)

lemma waf_try_from_Ok:
  assumes "waf_try_from w cell step hash conf intel extras = Some (Ok pl)"
  shows "wf_plugin_step pl = Request"
    and "build_ip_filter (ww_ipnet w) (construction_trusted_proxies_enabled cell (ww_proxies w)) extras =
      Ok (wf_ip_filter pl)"
    and "build_intel w hash intel = Ok (wf_intel pl)"
    and "ic_feed intel \<noteq> [] \<or> ic_manual intel \<noteq> [] \<Longrightarrow>
      construction_trusted_proxies_enabled cell (ww_proxies w)"
    and "wf_forbidden pl = \<lparr>rsp_status = 403, rsp_headers = [], rsp_body = ''Forbidden''\<rparr>"
  using assms
  by (auto simp: waf_try_from_def Let_def result_bind_Ok map_err_Ok get_step_conf_in_Ok
      split: result.splits if_splits option.splits prod.splits)

text \<open>
  C34: an address list is enforced on the connection's own address. When a plugin with an
  \<open>ip_list\<close> is built outside a construction scope, the running trusted-proxy list is on; so a request
  whose TCP peer is no trusted proxy is judged by the peer's address whatever its headers say: the
  filter refuses it exactly when the written list does, and a refused request is answered 403.
\<close>

definition list_refuses :: "'n ipnet_lib \<Rightarrow> ListMode \<Rightarrow> string list \<Rightarrow> string \<Rightarrow> bool" where
  "list_refuses lib mode entries ip =
     (case mode of LmDeny \<Rightarrow> listed lib entries ip | LmAllow \<Rightarrow> \<not> listed lib entries ip)"

theorem waf_ip_list_judges_the_peer:
  assumes built: "waf_try_from w None step hash conf intel extras = Some (Ok pl)"
    and list: "px_ip_list extras \<noteq> []"
    and peer: "se_peer s = Some peer" "\<not> is_trusted_proxy (ww_ipnet w) (ww_proxies w) (ip_to_string peer)"
    and fresh: "wx_client_ip ctx = None"
  shows "fst (client_ip_of w s ctx) = ip_to_string peer \<and>
    refused_by_list w pl (ip_to_string peer) =
      list_refuses (ww_ipnet w) (px_ip_list_mode extras) (px_ip_list extras) (ip_to_string peer) \<and>
    (list_refuses (ww_ipnet w) (px_ip_list_mode extras) (px_ip_list extras) (ip_to_string peer) \<longrightarrow>
       fst (waf_handle_request w pl Request s ctx) =
         Respond \<lparr>rsp_status = 403, rsp_headers = [], rsp_body = ''Forbidden''\<rparr>)"
proof -
  note b = waf_try_from_Ok [OF built]
  from build_ip_filter_Ok [OF b(2)] list obtain filt where on: "ps_enabled (ww_proxies w)"
    and filt: "wf_ip_filter pl = Some filt"
      "ip_filter_new (ww_ipnet w) (px_ip_list_mode extras) (px_ip_list extras) = Ok filt"
    by (auto simp: construction_trusted_proxies_enabled_def trusted_proxies_enabled_def)
  have ip: "fst (client_ip_of w s ctx) = ip_to_string peer"
    using peer on fresh
    by (simp add: client_ip_of_def ensure_client_ip_def get_client_ip_def get_remote_addr_def session.truncate_def)
  have refused: "refused_by_list w pl (ip_to_string peer) =
      list_refuses (ww_ipnet w) (px_ip_list_mode extras) (px_ip_list extras) (ip_to_string peer)"
    using rejects_listed [OF filt(2)] filt(1) by (simp add: refused_by_list_def list_refuses_def)
  have "fst (waf_handle_request w pl Request s ctx) = Respond (wf_forbidden pl)"
    if "refused_by_list w pl (ip_to_string peer)"
    using ip that b(1) by (cases "client_ip_of w s ctx") (simp add: waf_handle_request_def Let_def)
  with ip refused b(5) show ?thesis by simp
qed

section \<open>Instances\<close>

lemma those_total: "\<forall>x\<in>set xs. f x \<noteq> None \<Longrightarrow> \<exists>ys. those (map f xs) = Some ys"
  by (induction xs) auto

text \<open>A library that compiles every pattern compiles the native tables.\<close>

lemma compile_all_Some:
  assumes "\<forall>(c, specs)\<in>set sets. table_ok specs" and "\<And>p. is_Ok (fr_new lib p)"
  shows "\<exists>rs. compile_all ll lib sets = Some rs"
proof -
  have "pattern_rule_compile (required_needles ll) lib c s \<noteq> None" if "(c, s) \<in> set (interleave sets)" for c s
  proof -
    have "(c, s) \<in> set (tagged sets)" using that mset_eq_setD [OF mset_interleave] by blast
    then obtain specs where "(c, specs) \<in> set sets" "s \<in> set specs" by (auto simp: tagged_def)
    then have "rule_id_native (fst (id_range c) + sp_offset s) = Some (fst (id_range c) + sp_offset s)"
      using assms(1) by (intro id_range_native [OF offset_owned]) (auto simp: table_ok_def)
    with assms(2) [of "sp_pattern s"] show ?thesis
      by (cases "fr_new lib (sp_pattern s)") (auto simp: pattern_rule_compile_def)
  qed
  then show ?thesis
    unfolding compile_all_def by (intro those_total) auto
qed

lemma native_tables_compile:
  assumes "\<And>p. is_Ok (fr_new lib p)"
  shows "\<exists>rq rs. request_rules decode ll lib = Some rq \<and> response_rules ll lib = Some rs"
proof -
  let ?rq = "map (apsnd the) [(SqlInjection, sql_injection_specs), (Xss, xss_specs),
        (LocalFileInclusion, path_traversal_specs), (RemoteCodeExecution, command_injection_specs)]"
  let ?rs = "map (apsnd the) [(DataLeakage, data_leakage_specs), (WebShell, web_shell_specs)]"
  have rq: "request_specs = Some ?rq" and rs: "response_specs = Some ?rs"
    unfolding request_specs_def response_specs_def
    by (rule those_tables; use tables_ok in simp)+
  have ok: "\<forall>(c, specs)\<in>set ?rq. table_ok specs" "\<forall>(c, specs)\<in>set ?rs. table_ok specs"
    using tables_ok by simp_all
  obtain a b where "compile_all ll lib ?rq = Some a" "compile_all ll lib ?rs = Some b"
    using compile_all_Some [OF ok(1) assms] compile_all_Some [OF ok(2) assms] by blast
  then show ?thesis
    unfolding request_rules_def response_rules_def rq rs
    by (simp only: Option.bind.bind_lunit option.map) blast
qed

definition demo_waf_world :: "(string, string, string list, unit, string) waf_world" where
  "demo_waf_world = \<lparr>ww_ipnet = demo_net, ww_urls = demo_urls, ww_http = demo_http, ww_libs = demo_libs,
     ww_clock = demo_clock, ww_now = 0,
     ww_proxies = set_trusted_proxies demo_net (Some [''10.0.0.1'']) proxy_state_init,
     ww_hosts = \<lparr>hp_names = [], hp_index = []\<rparr>\<rparr>"

definition demo_waf_ctx :: waf_ctx where
  "demo_waf_ctx = \<lparr>wx_client_ip = None, wx_location = [], wx_status = Some 200, wx_waf = None,
     wx_request_body = None, wx_upstream_body = None, wx_downstream_body = None, wx_marker = None,
     wx_written = [], wx_variables = [], wx_queue = None\<rparr>"

definition demo_leak_config :: waf_config where
  "demo_leak_config = demo_waf_config\<lparr>wc_custom_rules := [(''key'', \<lparr>cr_category = DataLeakage,
     cr_pattern = ''secret'', cr_severity = Critical, cr_paranoia = 1, cr_action = Some MRedact\<rparr>)]\<rparr>"

definition demo_waf :: "(string, string list, unit, string) waf" where
  "demo_waf = \<lparr>wf_plugin_step = Request,
     wf_engine = ok (engine_build demo_libs (ok (waf_validate demo_regex demo_leak_config))
       (map (pattern_request_rule (wl_decode demo_libs) demo_regex) demo_prq) []),
     wf_ip_filter = None, wf_intel = None, wf_over_cap = OcReject, wf_body_limit = 4,
     wf_response_prefix_limit = 16, wf_profile = ''default'',
     wf_forbidden = \<lparr>rsp_status = 403, rsp_headers = [], rsp_body = ''Forbidden''\<rparr>\<rparr>"

theorem waf_body_all_or_nothing_witness:
  "case body_run demo_waf_world demo_waf demo_waf_ctx [(Some ''abc'', False), (Some ''def'', True)] of
     (r, _, sent) \<Rightarrow> r = Err 413 \<and> sent = []"
proof -
  obtain r ctx' sent where run: "body_run demo_waf_world demo_waf demo_waf_ctx
      [(Some ''abc'', False), (Some ''def'', True)] = (r, ctx', sent)" by (metis prod_cases3)
  then have "r = Err 413"
    by (auto simp: waf_handle_request_body_def demo_waf_def demo_waf_ctx_def or_new_def body_buffer_new_def
        feed_cases Let_def chunk_bytes_def split: prod.splits if_splits)
  with waf_body_all_or_nothing [OF _ run] run show ?thesis by (simp add: demo_waf_ctx_def)
qed

theorem waf_response_only_masked_witness:
  "scans demo_waf \<and>
   (case response_run demo_waf_world demo_waf Upstream demo_waf_ctx
      [(Some ''a sec'', False), (Some ''ret b'', True)] of
    (ctx', sent) \<Rightarrow> masks (hits_of ctx') ''a secret b'' sent \<and> (redacted_of ctx' \<or> sent = ''a secret b''))"
proof -
  have "length (en_response_rules (wf_engine demo_waf)) = 1" by code_simp
  then have scans: "scans demo_waf" by (auto simp: scans_def demo_waf_def)
  obtain ctx' sent where run: "response_run demo_waf_world demo_waf Upstream demo_waf_ctx
      [(Some ''a sec'', False), (Some ''ret b'', True)] = (ctx', sent)"
    using prod.exhaust by blast
  from waf_response_only_masked [OF _ _ run]
  have "masks (hits_of ctx') ''a secret b'' sent \<and> (redacted_of ctx' \<or> sent = ''a secret b'')"
    by (auto simp: demo_waf_ctx_def side_body_def ends_stream_def)
  then show ?thesis unfolding run using scans by simp
qed

definition demo_waf_session :: http_session where
  "demo_waf_session = \<lparr>se_method = ''GET'', se_uri_host = None,
     se_headers = [(''x-forwarded-for'', ''127.0.0.1'')], se_peer = Some (V4 0x01020364),
     wq_uri = ''/'', wq_path = ''/'', wq_query = None\<rparr>"

definition demo_extras :: plugin_extras where
  "demo_extras = \<lparr>px_over_cap = OcReject, px_ip_list_mode = LmDeny, px_ip_list = [''1.2.3.100'']\<rparr>"

definition no_intel :: IntelConf where
  "no_intel = \<lparr>ic_feed = [], ic_manual = [], ic_timeout = None, ic_staleness = None,
     ic_max_body_bytes = None, ic_max_entries = None, ic_redirect_hops = None\<rparr>"

lemma demo_waf_builds:
  "\<exists>pl. waf_try_from demo_waf_world None None [] demo_waf_config no_intel demo_extras = Some (Ok pl)"
proof -
  obtain v where v: "waf_validate demo_regex demo_waf_config = Ok v" "length (v_custom_rules v) = 1"
  proof -
    have "is_Ok (waf_validate demo_regex demo_waf_config)"
      "length (v_custom_rules (ok (waf_validate demo_regex demo_waf_config))) = 1" by code_simp+
    with that show ?thesis by (cases "waf_validate demo_regex demo_waf_config") auto
  qed
  have compiles: "is_Ok (fr_new demo_regex p)" for p by (simp add: demo_regex_def)
  obtain rq rs where rules: "request_rules (wl_decode demo_libs) demo_literal demo_regex = Some rq"
    "response_rules demo_literal demo_regex = Some rs"
    using native_tables_compile [of demo_regex] compiles by blast
  obtain name c where customs: "v_custom_rules v = [(name, c)]" using v(2) by (auto simp: length_Suc_conv)
  have read: "parse_addr ''1.2.3.100'' = Some (V4 0x01020364)" by code_simp
  have filt: "is_Ok (ip_filter_new demo_net LmDeny [''1.2.3.100''])"
    by (simp add: ip_filter_new_Ok_iff entry_ok_def entry_addr_def demo_net_def read map_filter_simps)
  have engine: "is_Ok (engine_build demo_libs v rq rs)"
    by (simp add: engine_build_def customs Let_def)
  from v(1) rules filt engine show ?thesis
    by (cases "engine_build demo_libs v rq rs"; cases "ip_filter_new demo_net LmDeny [''1.2.3.100'']")
      (auto simp: waf_try_from_def Let_def demo_waf_world_def demo_libs_def get_step_conf_in_def no_intel_def
        build_ip_filter_def demo_extras_def build_intel_def construction_trusted_proxies_enabled_def
        trusted_proxies_enabled_def set_trusted_proxies_def nonempty_list_def)
qed

theorem waf_ip_list_judges_the_peer_witness:
  "\<exists>pl. waf_try_from demo_waf_world None None [] demo_waf_config no_intel demo_extras = Some (Ok pl) \<and>
     fst (waf_handle_request demo_waf_world pl Request demo_waf_session demo_waf_ctx) =
       Respond \<lparr>rsp_status = 403, rsp_headers = [], rsp_body = ''Forbidden''\<rparr>"
proof -
  obtain pl where pl: "waf_try_from demo_waf_world None None [] demo_waf_config no_intel demo_extras = Some (Ok pl)"
    using demo_waf_builds by blast
  have shown: "ip_to_string (V4 0x01020364) = ''1.2.3.100''"
    by (simp add: ip_to_string_def show_v4_def v4_octets_def show_base.simps digit_char_def)
  have read: "parse_addr ''1.2.3.100'' = Some (V4 0x01020364)" "parse_addr ''10.0.0.1'' = Some (V4 0x0a000001)"
    by code_simp+
  have peer: "\<not> is_trusted_proxy (ww_ipnet demo_waf_world) (ww_proxies demo_waf_world) ''1.2.3.100''"
    by (simp add: demo_waf_world_def is_trusted_proxy_set read entry_covers_def demo_net_def)
  have "list_refuses (ww_ipnet demo_waf_world) LmDeny [''1.2.3.100''] ''1.2.3.100''"
    by (simp add: list_refuses_def listed_def read entry_covers_def demo_waf_world_def demo_net_def)
  with waf_ip_list_judges_the_peer [OF pl, of demo_waf_session "V4 0x01020364" demo_waf_ctx] pl peer
  show ?thesis by (auto simp: demo_extras_def demo_waf_session_def demo_waf_ctx_def shown)
qed

end
