(* ===== verification/Location.thy ===== *)
theory Location
  imports Http_Header Decimal "HOL-Library.AList" "HOL-Library.Sublist"
begin

text \<open>
  \<open>pingap-location\<close>, the weights of \<open>pingap-config/src/common.rs\<close>, and the routing of
  \<open>pingap-proxy/src/server.rs\<close> with \<open>src/server_locations.rs\<close>. The \<open>regex\<close> crate is a parameter:
  compilation, the named groups that took part in a match, whether a pattern names groups, and the
  replacement of the first match. Maps are association lists; the
  \<open>BTreeSet\<close> of candidates is a set listed in order.
\<close>

section \<open>Selectors\<close>

record 're route_regex =
  rr_new :: "string \<Rightarrow> ('re, string) result"
  rr_captures :: "'re \<Rightarrow> string \<Rightarrow> (string \<times> string) list option"
  rr_has_names :: "'re \<Rightarrow> bool"
  rr_replace :: "'re \<Rightarrow> string \<Rightarrow> string \<Rightarrow> string"

type_synonym variables = "(string \<times> string) list"

definition insert_captures :: "(string \<times> string) list \<Rightarrow> variables option \<Rightarrow> variables option" where
  "insert_captures named vars =
     foldl (\<lambda>vs (name, val). Some (AList.update name val (case vs of Some m \<Rightarrow> m | None \<Rightarrow> []))) vars named"

definition captures :: "'re route_regex \<Rightarrow> 're \<Rightarrow> string \<Rightarrow> bool \<times> variables option" where
  "captures rx re s =
     (case rr_captures rx re s of
        None \<Rightarrow> (False, None)
      | Some named \<Rightarrow>
          (True, insert_captures named None))"

datatype location_error =
    LocationInvalid string | LocationRegex string string | TooManyRequest int | BodyTooLarge usize

datatype 're PathSelector = PathRegex 're | PathPrefix string | PathEqual string | PathAny

definition path_selector_new :: "'re route_regex \<Rightarrow> string \<Rightarrow> ('re PathSelector, location_error) result" where
  "path_selector_new rx path =
     (let path = str_trim path in
      if path = [] then Ok PathAny
      else (case strip_prefix ''~'' path of
              Some re_path \<Rightarrow>
                result_bind (map_err (LocationRegex (str_trim re_path)) (rr_new rx (str_trim re_path)))
                  (\<lambda>re. Ok (PathRegex re))
            | None \<Rightarrow>
                (case strip_prefix ''='' path of
                   Some eq_path \<Rightarrow> Ok (PathEqual (str_trim eq_path))
                 | None \<Rightarrow> Ok (PathPrefix path))))"

definition path_is_match :: "'re route_regex \<Rightarrow> 're PathSelector \<Rightarrow> string \<Rightarrow> bool \<times> variables option" where
  "path_is_match rx sel path =
     (case sel of
        PathEqual v \<Rightarrow> (v = path, None)
      | PathRegex re \<Rightarrow> captures rx re path
      | PathPrefix v \<Rightarrow> (prefix v path, None)
      | PathAny \<Rightarrow> (True, None))"

datatype 're HostSelector = HostRegex 're | HostEqual string | HostSuffix string

definition host_selector_new :: "'re route_regex \<Rightarrow> string \<Rightarrow> ('re HostSelector, location_error) result" where
  "host_selector_new rx host =
     (let host = str_trim host in
      case strip_prefix ''~'' host of
        Some re_host \<Rightarrow>
          result_bind (map_err (LocationRegex (str_trim re_host)) (rr_new rx (str_trim re_host)))
            (\<lambda>re. Ok (HostRegex re))
      | None \<Rightarrow>
          (case strip_prefix ''*.'' host of
             Some domain \<Rightarrow>
               (let domain = str_trim domain in
                if domain = [] \<or> CHR ''*'' \<in> set domain
                then Err (LocationInvalid (''invalid host wildcard pattern: '' @ host))
                else Ok (HostSuffix (to_ascii_lowercase domain)))
           | None \<Rightarrow> Ok (HostEqual (to_ascii_lowercase host))))"

definition host_matches_suffix :: "string \<Rightarrow> string \<Rightarrow> bool" where
  "host_matches_suffix host domain \<longleftrightarrow>
     length host > length domain + 1 \<and> suffix domain host \<and>
     host ! (length host - length domain - 1) = CHR ''.''"

definition host_is_match :: "'re route_regex \<Rightarrow> 're HostSelector \<Rightarrow> string \<Rightarrow> bool \<times> variables option" where
  "host_is_match rx sel host =
     (let host_lower = to_ascii_lowercase host in
      case sel of
        HostEqual v \<Rightarrow> (v = host_lower, None)
      | HostSuffix domain \<Rightarrow> (host_matches_suffix host_lower domain, None)
      | HostRegex re \<Rightarrow> captures rx re host)"

section \<open>Locations\<close>

record location_conf =
  lc_upstream :: "string option"
  lc_path :: "string option"
  lc_host :: "string option"
  lc_match_headers :: "string list option"
  lc_match_query :: "string list option"
  lc_match_cookies :: "string list option"
  lc_weight :: "u16 option"
  lc_client_max_body_size :: "usize option"
  lc_max_processing :: "int option"
  lc_rewrite :: "string option"
  lc_enable_reverse_proxy_headers :: "bool option"
  lc_proxy_set_headers :: "string list option"
  lc_proxy_add_headers :: "string list option"
  lc_plugins :: "string list option"
  lc_grpc_web :: "bool option"
  lc_max_retries :: "u8 option"
  lc_max_retry_window :: "nat option"

type_synonym condition = "string \<times> string option"

definition parse_match_conditions :: "string list option \<Rightarrow> condition list" where
  "parse_match_conditions items =
     (case items of
        None \<Rightarrow> []
      | Some items \<Rightarrow>
          List.map_filter (\<lambda>item.
            let item = str_trim item in
            if item = [] then None
            else (case split_once CHR '':'' item of
                    Some (n, v) \<Rightarrow> Some (str_trim n, Some (str_trim v))
                  | None \<Rightarrow> Some (item, None))) items)"

definition condition_met :: "string option \<Rightarrow> string option \<Rightarrow> bool" where
  "condition_met actual expected =
     (case actual of Some a \<Rightarrow> (case expected of None \<Rightarrow> True | Some v \<Rightarrow> v = a) | None \<Rightarrow> False)"

text \<open>The rewrite rule \<open>pattern replacement\<close>; one word with a \<open>$\<close> replaces every path.\<close>

record 're regex_rewrite =
  rwr_re :: 're
  rwr_value :: string
  rwr_match_all :: bool
  rwr_has_named_captures :: bool

definition parse_rewrite :: "'re route_regex \<Rightarrow> string \<Rightarrow> 're regex_rewrite option" where
  "parse_rewrite rx rule =
     (let arr = split_on CHR '' '' rule;
          arr = (if length arr = 1 \<and> CHR ''$'' \<in> set (arr ! 0) then [''.*'', arr ! 0] else arr);
          replacement = (if length arr = 2 then arr ! 1 else []) in
      case rr_new rx (arr ! 0) of
        Err _ \<Rightarrow> None
      | Ok re \<Rightarrow> Some \<lparr>rwr_re = re, rwr_value = replacement, rwr_match_all = (arr ! 0 = ''.*''),
                      rwr_has_named_captures = rr_has_names rx re\<rparr>)"

definition default_proxy_set_headers :: "(string \<times> string) list" where
  "default_proxy_set_headers =
     [(''x-real-ip'', ''$remote_addr''), (''x-forwarded-for'', ''$proxy_add_x_forwarded_for''),
      (''x-forwarded-proto'', ''$scheme''), (''x-forwarded-host'', ''$host''), (''x-forwarded-port'', ''$server_port'')]"

text \<open>
  Header names and the text of a header error are the \<open>http\<close> crate's; the hash of a configuration
  is the standard hasher's. A header is set, or added
  when its flag is true.
\<close>

record header_world =
  hw_http :: http_lib
  hw_name_from_str :: "string \<Rightarrow> string option"
  hw_show_error :: "header_error \<Rightarrow> string"
  hw_hash_key :: "location_conf \<Rightarrow> string"

definition format_headers ::
  "header_world \<Rightarrow> string list option \<Rightarrow> ((string \<times> string) list option, location_error) result" where
  "format_headers hw items =
     (case items of
        None \<Rightarrow> Ok None
      | Some items \<Rightarrow>
          result_bind (map_err (\<lambda>e. LocationInvalid (hw_show_error hw e))
              (convert_headers (hw_name_from_str hw) (hw_http hw) items))
            (\<lambda>arr. Ok (Some arr)))"

definition location_headers ::
  "header_world \<Rightarrow> location_conf \<Rightarrow> ((string \<times> string \<times> bool) list, location_error) result" where
  "location_headers hw conf =
     (let flagged = (\<lambda>add hs. map (\<lambda>(name, val). (name, val, add)) (case hs of Some hs \<Rightarrow> hs | None \<Rightarrow> []));
          headers = (if lc_enable_reverse_proxy_headers conf = Some True
                     then flagged False (Some default_proxy_set_headers) else []) in
      result_bind (format_headers hw (lc_proxy_set_headers conf)) (\<lambda>set_headers.
        result_bind (format_headers hw (lc_proxy_add_headers conf)) (\<lambda>add_headers.
          Ok (headers @ flagged False set_headers @ flagged True add_headers))))"

record 're location =
  lo_name :: string
  lo_key :: string
  lo_upstream :: string
  lo_path :: string
  lo_path_selector :: "'re PathSelector"
  lo_hosts :: "'re HostSelector list"
  lo_header_conditions :: "condition list"
  lo_query_conditions :: "condition list"
  lo_cookie_conditions :: "condition list"
  lo_reg_rewrite :: "'re regex_rewrite option"
  lo_headers :: "(string \<times> string \<times> bool) list option"
  lo_plugins :: "string list option"
  lo_max_processing :: int
  lo_grpc_web :: bool
  lo_client_max_body_size :: usize
  lo_max_retries :: "u8 option"
  lo_max_retry_window :: "nat option"

definition location_new ::
  "'re route_regex \<Rightarrow> header_world \<Rightarrow> string \<Rightarrow> location_conf \<Rightarrow> ('re location, location_error) result" where
  "location_new rx hw name conf =
     (if name = [] then Err (LocationInvalid ''Name is required'')
      else result_bind
        (try_map (host_selector_new rx)
          (filter (\<lambda>s. s \<noteq> []) (map str_trim
            (split_on CHR '','' (case lc_host conf of Some h \<Rightarrow> h | None \<Rightarrow> [])))))
        (\<lambda>hosts. result_bind (location_headers hw conf) (\<lambda>headers.
          (let path = (case lc_path conf of Some p \<Rightarrow> p | None \<Rightarrow> []) in
           result_bind (path_selector_new rx path) (\<lambda>sel.
             Ok \<lparr>lo_name = name, lo_key = hw_hash_key hw conf,
                 lo_upstream = (case lc_upstream conf of Some u \<Rightarrow> u | None \<Rightarrow> []),
                 lo_path = path, lo_path_selector = sel, lo_hosts = hosts,
                 lo_header_conditions = parse_match_conditions (lc_match_headers conf),
                 lo_query_conditions = parse_match_conditions (lc_match_query conf),
                 lo_cookie_conditions = parse_match_conditions (lc_match_cookies conf),
                 lo_reg_rewrite = Option.bind (lc_rewrite conf) (parse_rewrite rx),
                 lo_headers = (if headers = [] then None else Some headers),
                 lo_plugins = lc_plugins conf,
                 lo_max_processing = (case lc_max_processing conf of Some n \<Rightarrow> n | None \<Rightarrow> 0),
                 lo_grpc_web = (lc_grpc_web conf = Some True),
                 lo_client_max_body_size = (case lc_client_max_body_size conf of Some n \<Rightarrow> n | None \<Rightarrow> 0),
                 lo_max_retries = lc_max_retries conf, lo_max_retry_window = lc_max_retry_window conf\<rparr>)))))"

text \<open>The host patterns of a location are tried in order; captures of the tried ones accumulate.\<close>

fun match_hosts ::
  "'re route_regex \<Rightarrow> string \<Rightarrow> 're HostSelector list \<Rightarrow> variables option \<Rightarrow> bool \<times> variables option" where
  "match_hosts rx host [] captured = (False, captured)"
| "match_hosts rx host (sel # sels) captured =
     (let (matched, cs) = host_is_match rx sel host;
          captured = (case cs of
             None \<Rightarrow> captured
           | Some cs \<Rightarrow> Some (case captured of Some vs \<Rightarrow> AList.updates (map fst cs) (map snd cs) vs | None \<Rightarrow> cs)) in
      if matched then (True, captured) else match_hosts rx host sels captured)"

definition match_host_path ::
  "'re route_regex \<Rightarrow> 're location \<Rightarrow> string \<Rightarrow> string \<Rightarrow> bool \<times> variables option" where
  "match_host_path rx lo host path =
     (let (path_ok, captured) = (if lo_path lo = [] then (True, None) else path_is_match rx (lo_path_selector lo) path) in
      if \<not> path_ok then (False, None)
      else if lo_hosts lo = [] then (True, captured)
      else match_hosts rx host (lo_hosts lo) captured)"

definition match_conditions :: "http_lib \<Rightarrow> 're location \<Rightarrow> http_session \<Rightarrow> bool" where
  "match_conditions http lo s \<longleftrightarrow>
     list_all (\<lambda>(name, expected). condition_met (get_req_header_value http (se_headers s) name) expected)
       (lo_header_conditions lo) \<and>
     list_all (\<lambda>(name, expected). condition_met (get_query_value (wq_query s) name) expected)
       (lo_query_conditions lo) \<and>
     list_all (\<lambda>(name, expected). condition_met (get_cookie_value http (se_headers s) name) expected)
       (lo_cookie_conditions lo)"

definition get_content_length :: "http_lib \<Rightarrow> http_session \<Rightarrow> usize option" where
  "get_content_length http s =
     (case hl_get http (se_headers s) ''content-length'' of
        None \<Rightarrow> None
      | Some v \<Rightarrow> parse_uint usize_max (case hl_to_str http v of Some t \<Rightarrow> t | None \<Rightarrow> []))"

definition validate_content_length :: "http_lib \<Rightarrow> 're location \<Rightarrow> http_session \<Rightarrow> (unit, location_error) result" where
  "validate_content_length http lo s =
     (if lo_client_max_body_size lo = 0 then Ok ()
      else if (case get_content_length http s of Some n \<Rightarrow> n | None \<Rightarrow> 0) > lo_client_max_body_size lo
      then Err (BodyTooLarge (lo_client_max_body_size lo)) else Ok ())"

text \<open>
  \<open>str::replace\<close>: every occurrence from the left; the empty pattern occurs before every character
  and at the end, where a character is the bytes up to the next byte that is no continuation.
\<close>

fun replace_from :: "nat \<Rightarrow> string \<Rightarrow> string \<Rightarrow> string \<Rightarrow> string" where
  "replace_from 0 pat rep s = s"
| "replace_from (Suc n) pat rep [] = []"
| "replace_from (Suc n) pat rep (c # s) =
     (if prefix pat (c # s) then rep @ replace_from n pat rep (drop (length pat) (c # s))
      else c # replace_from n pat rep s)"

definition str_replace :: "string \<Rightarrow> string \<Rightarrow> string \<Rightarrow> string" where
  "str_replace pat rep s =
     (if pat = [] then concat (map (\<lambda>c. if 128 \<le> byte_of c \<and> byte_of c < 192 then [c] else rep @ [c]) s) @ rep
      else replace_from (length s) pat rep s)"

lemma replace_from_fuel:
  "pat \<noteq> [] \<Longrightarrow> length s \<le> n \<Longrightarrow> replace_from n pat rep s = replace_from (length s) pat rep s"
proof (induction s arbitrary: n rule: length_induct)
  case (1 s)
  have IH: "replace_from n pat rep t = replace_from k pat rep t"
    if "length t < length s" "length t \<le> n" "length t \<le> k" for t n k
    using 1 that by metis
  show ?case
  proof (cases s)
    case (Cons c r)
    with 1(3) obtain m where m: "n = Suc m" "length r \<le> m" by (cases n) auto
    have d: "length (drop (length pat) (c # r)) \<le> length r" using 1(2) by (cases pat) auto
    show ?thesis using IH [of r m "length r"] IH [of "drop (length pat) (c # r)" m "length r"] d m(2)
      by (simp add: Cons m(1))
  qed (cases n; simp)
qed

text \<open>
  The rewrite of a request. \<open>from_str\<close> is the URI parser: what the accessors of the parsed text
  return, or its error, which is logged only.
\<close>

definition rewrite ::
  "'re route_regex \<Rightarrow> (string \<Rightarrow> (string option \<times> string \<times> string option, 'e) result) \<Rightarrow> 're location
     \<Rightarrow> http_session \<Rightarrow> variables option \<Rightarrow> (bool \<times> variables option) \<times> http_session" where
  "rewrite rx from_str lo s vars =
     (case lo_reg_rewrite lo of
        None \<Rightarrow> ((False, vars), s)
      | Some rule \<Rightarrow>
          (let replacement = foldl (\<lambda>t (k, v). str_replace k v t) (rwr_value rule) (case vars of Some m \<Rightarrow> m | None \<Rightarrow> []);
               new_path = (if rwr_match_all rule then replacement else rr_replace rx (rwr_re rule) (wq_path s) replacement) in
           if wq_path s = new_path then ((False, vars), s)
           else (let vars = (if rwr_has_named_captures rule
                             then (case rr_captures rx (rwr_re rule) (wq_path s) of
                                     Some named \<Rightarrow> insert_captures named vars | None \<Rightarrow> vars)
                             else vars);
                     new_path = (case wq_query s of Some q \<Rightarrow> new_path @ ''?'' @ q | None \<Rightarrow> new_path) in
                 ((True, vars),
                  case from_str new_path of
                    Err _ \<Rightarrow> s
                  | Ok (host, path, query) \<Rightarrow>
                      s\<lparr>se_uri_host := host, wq_uri := new_path, wq_path := path, wq_query := query\<rparr>))))"

section \<open>Weights\<close>

text \<open>The sum is of \<open>u16\<close> values; it wraps when it leaves the range.\<close>

definition get_weight :: "location_conf \<Rightarrow> u16" where
  "get_weight conf =
     (case lc_weight conf of
        Some weight \<Rightarrow> weight
      | None \<Rightarrow>
          (let path = (case lc_path conf of Some p \<Rightarrow> p | None \<Rightarrow> []);
               weight = (if length path > 1
                         then (if hd path = CHR ''='' then 1024 else if hd path = CHR ''~'' then 256 else 512) +
                              of_nat (min (length path) 64)
                         else 0) in
           case lc_host conf of
             None \<Rightarrow> weight
           | Some host \<Rightarrow>
               (let exist_regex = list_ex (\<lambda>item. prefix ''~'' item) (split_on CHR '','' host) in
                if \<not> exist_regex \<and> host \<noteq> [] then weight + 128 else weight + of_nat (length host))))"

definition weight_of :: "(string \<times> location_conf) list \<Rightarrow> string \<Rightarrow> u16" where
  "weight_of locations name =
     (case map_of locations name of Some conf \<Rightarrow> get_weight conf | None \<Rightarrow> 0)"

text \<open>The stable sort by descending weight.\<close>

definition order_locations :: "(string \<times> location_conf) list \<Rightarrow> string list \<Rightarrow> string list" where
  "order_locations locations items = sort_key (\<lambda>item. - int (unat (weight_of locations item))) items"

section \<open>The host index\<close>

datatype HostIndexEntry = IndexExact string | IndexSuffix string | IndexRegex | IndexAny

definition host_index_entries :: "'re location \<Rightarrow> HostIndexEntry list" where
  "host_index_entries lo =
     (if lo_hosts lo = [] then [IndexAny]
      else map (\<lambda>sel. case sel of
                  HostEqual v \<Rightarrow> IndexExact v
                | HostSuffix domain \<Rightarrow> IndexSuffix domain
                | HostRegex _ \<Rightarrow> IndexRegex) (lo_hosts lo))"

record LocationHostIndex =
  ix_ordered :: "string list"
  ix_exact :: "(string \<times> u16 list) list"
  ix_suffixes :: "(string \<times> u16 list) list"
  ix_regex :: "u16 list"
  ix_any :: "u16 list"

definition push_bucket :: "string \<Rightarrow> u16 \<Rightarrow> (string \<times> u16 list) list \<Rightarrow> (string \<times> u16 list) list" where
  "push_bucket key idx m =
     AList.update key ((case map_of m key of Some is \<Rightarrow> is | None \<Rightarrow> []) @ [idx]) m"

definition add_index_entry :: "u16 \<Rightarrow> LocationHostIndex \<Rightarrow> HostIndexEntry \<Rightarrow> LocationHostIndex" where
  "add_index_entry idx ix entry =
     (case entry of
        IndexExact host \<Rightarrow> ix\<lparr>ix_exact := push_bucket host idx (ix_exact ix)\<rparr>
      | IndexSuffix domain \<Rightarrow> ix\<lparr>ix_suffixes := push_bucket domain idx (ix_suffixes ix)\<rparr>
      | IndexRegex \<Rightarrow> if idx \<in> set (ix_regex ix) then ix else ix\<lparr>ix_regex := ix_regex ix @ [idx]\<rparr>
      | IndexAny \<Rightarrow> if idx \<in> set (ix_any ix) then ix else ix\<lparr>ix_any := ix_any ix @ [idx]\<rparr>)"

definition add_index_location ::
  "(string \<Rightarrow> 're location option) \<Rightarrow> LocationHostIndex \<Rightarrow> nat \<times> string \<Rightarrow> LocationHostIndex" where
  "add_index_location resolve ix = (\<lambda>(i, name).
     case resolve name of
       None \<Rightarrow> ix
     | Some lo \<Rightarrow> foldl (add_index_entry (of_nat i)) ix (host_index_entries lo))"

definition host_index_build :: "string list \<Rightarrow> (string \<Rightarrow> 're location option) \<Rightarrow> LocationHostIndex" where
  "host_index_build ordered_names resolve =
     (let ix = foldl (add_index_location resolve)
            \<lparr>ix_ordered = ordered_names, ix_exact = [], ix_suffixes = [], ix_regex = [], ix_any = []\<rparr>
            (enumerate 0 ordered_names) in
      ix\<lparr>ix_suffixes := sort_key (\<lambda>b. - int (length (fst b))) (ix_suffixes ix)\<rparr>)"

definition candidate_set :: "LocationHostIndex \<Rightarrow> string \<Rightarrow> nat set" where
  "candidate_set ix host =
     (let host_lower = to_ascii_lowercase host in
      unat ` (set (case map_of (ix_exact ix) host_lower of Some is \<Rightarrow> is | None \<Rightarrow> []) \<union>
        (\<Union>(domain, is) \<in> set (ix_suffixes ix). if host_matches_suffix host_lower domain then set is else {}) \<union>
        set (ix_regex ix) \<union> set (ix_any ix)))"

definition candidate_indices :: "LocationHostIndex \<Rightarrow> string \<Rightarrow> nat list" where
  "candidate_indices ix host = sorted_list_of_set (candidate_set ix host)"

definition candidate_names :: "LocationHostIndex \<Rightarrow> string \<Rightarrow> string list" where
  "candidate_names ix host =
     List.map_filter (\<lambda>i. if i < length (ix_ordered ix) then Some (ix_ordered ix ! i) else None)
       (candidate_indices ix host)"

end
