(* ===== verification/Routing.thy ===== *)
theory Routing
  imports Location
begin

text \<open>
  The routing of a request: the ordered locations of a server with their host index
  (\<open>src/server_locations.rs\<close>), the search, and the admission of the request to its location
  (\<open>pingap-proxy/src/server.rs\<close>); the host index proved equal to the linear scan it replaces.
\<close>

section \<open>Model\<close>

record location_counters =
  lk_accepted :: u64
  lk_processing :: "32 word"

record 're route_world =
  rw_regex :: "'re route_regex"
  rw_http :: http_lib
  rw_locations :: "string \<Rightarrow> 're location option"

record server_route =
  sr_ordered :: "string list"
  sr_host_index :: LocationHostIndex

definition server_location_route_build :: "string list \<Rightarrow> (string \<Rightarrow> 're location option) \<Rightarrow> server_route" where
  "server_location_route_build ordered resolve =
     \<lparr>sr_ordered = ordered, sr_host_index = host_index_build ordered resolve\<rparr>"

text \<open>The routes of every server that lists locations, and the servers whose order changed.\<close>

fun try_init_server_locations ::
  "(string \<Rightarrow> 're location option) \<Rightarrow> (string \<times> location_conf) list \<Rightarrow> (string \<times> server_route) list
     \<Rightarrow> (string \<times> string list option) list \<Rightarrow> (string \<times> server_route) list \<times> string list" where
  "try_init_server_locations resolve locations current [] = ([], [])"
| "try_init_server_locations resolve locations current ((name, items) # servers) =
     (let (routes, updated) = try_init_server_locations resolve locations current servers in
      case items of
        None \<Rightarrow> (routes, updated)
      | Some items \<Rightarrow>
          (let items = order_locations locations items;
               not_modified = (case map_of current name of Some r \<Rightarrow> sr_ordered r = items | None \<Rightarrow> False) in
           ((name, server_location_route_build items resolve) # routes,
            if not_modified then updated else name # updated)))"

definition try_location ::
  "'re route_world \<Rightarrow> server_route \<Rightarrow> string \<Rightarrow> http_session \<Rightarrow> nat \<Rightarrow> ('re location \<times> variables option) option" where
  "try_location w route host s i =
     (if i < length (sr_ordered route)
      then (case rw_locations w (sr_ordered route ! i) of
              None \<Rightarrow> None
            | Some lo \<Rightarrow>
                (let (matched, captured) = match_host_path (rw_regex w) lo host (wq_path s) in
                 if matched \<and> match_conditions (rw_http w) lo s then Some (lo, captured) else None))
      else None)"

definition find_location ::
  "'re route_world \<Rightarrow> server_route \<Rightarrow> http_session \<Rightarrow> ('re location \<times> variables option) option" where
  "find_location w route s =
     (let host = (case get_host (rw_http w) (session.truncate s) of Some h \<Rightarrow> h | None \<Rightarrow> []) in
      find_map (try_location w route host s) (candidate_indices (sr_host_index route) host))"

record 're route_ctx =
  rx_location :: "'re location option"
  rx_variables :: "variables option"
  rx_accepted :: u64
  rx_processing :: "32 word"
  rx_max_retries :: "u8 option"
  rx_max_retry_window :: "nat option"
  rx_generation :: "u64 option"

definition extend_variables :: "variables \<Rightarrow> ('re, 'z) route_ctx_scheme \<Rightarrow> ('re, 'z) route_ctx_scheme" where
  "extend_variables cs ctx =
     ctx\<lparr>rx_variables := Some (case rx_variables ctx of
       Some vs \<Rightarrow> AList.updates (map fst cs) (map snd cs) vs | None \<Rightarrow> cs)\<rparr>"

definition on_request :: "'re location \<Rightarrow> location_counters \<Rightarrow> (u64 \<times> 32 word, location_error) result \<times> location_counters" where
  "on_request lo lk =
     (let lk = lk\<lparr>lk_accepted := lk_accepted lk + 1, lk_processing := lk_processing lk + 1\<rparr> in
      if lo_max_processing lo \<noteq> 0 \<and> sint (lk_processing lk) > lo_max_processing lo
      then (Err (TooManyRequest (lo_max_processing lo)), lk)
      else (Ok (lk_accepted lk, lk_processing lk), lk))"

definition location_on_response :: "location_counters \<Rightarrow> location_counters" where
  "location_on_response lk = lk\<lparr>lk_processing := lk_processing lk - 1\<rparr>"

definition counters_at :: "(string \<times> location_counters) list \<Rightarrow> string \<Rightarrow> location_counters" where
  "counters_at ks name = (case map_of ks name of Some lk \<Rightarrow> lk | None \<Rightarrow> \<lparr>lk_accepted = 0, lk_processing = 0\<rparr>)"

text \<open>
  Finding the location and admitting the request, up to the plugins. \<open>gen k\<close> is what the request's
  \<open>k\<close>-th read of the policy generation returns; the generation is odd during a reload. The counters
  live in the locations.
\<close>

definition policy_reload_in_progress :: "u64 \<Rightarrow> bool" where
  "policy_reload_in_progress generation \<longleftrightarrow> generation mod 2 = 1"

definition admit_to_location ::
  "'re route_world \<Rightarrow> server_route option \<Rightarrow> (nat \<Rightarrow> u64) \<Rightarrow> http_session
     \<Rightarrow> ('re, 'z) route_ctx_scheme \<times> (string \<times> location_counters) list
     \<Rightarrow> ('re location option, nat) result \<times> ('re, 'z) route_ctx_scheme \<times> (string \<times> location_counters) list" where
  "admit_to_location w route gen s = (\<lambda>(ctx, ks).
     let generation = gen 0 in
     if policy_reload_in_progress (gen 1) then (Err 503, ctx, ks)
     else (case route of
             None \<Rightarrow> (Ok None, ctx, ks)
           | Some route \<Rightarrow>
               (case find_location w route s of
                  None \<Rightarrow> (Ok None, ctx, ks)
                | Some (lo, captured) \<Rightarrow>
                    if policy_reload_in_progress (gen 2) \<or> gen 3 \<noteq> generation then (Err 503, ctx, ks)
                    else (let ctx = ctx\<lparr>rx_generation := Some generation, rx_location := Some lo,
                                rx_max_retries := lo_max_retries lo, rx_max_retry_window := lo_max_retry_window lo\<rparr>;
                              ctx = (case captured of None \<Rightarrow> ctx | Some cs \<Rightarrow> extend_variables cs ctx) in
                          case validate_content_length (rw_http w) lo s of
                            Err _ \<Rightarrow> (Err 413, ctx, ks)
                          | Ok _ \<Rightarrow>
                              (let (r, lk) = on_request lo (counters_at ks (lo_name lo));
                                   ks = AList.update (lo_name lo) lk ks in
                               case r of
                                 Err _ \<Rightarrow> (Err 429, ctx, ks)
                               | Ok (accepted, processing) \<Rightarrow>
                                   (Ok (Some lo), ctx\<lparr>rx_accepted := accepted, rx_processing := processing\<rparr>, ks))))))"

text \<open>The end of every request, where the location is told of the response.\<close>

definition release_location ::
  "('re, 'z) route_ctx_scheme \<Rightarrow> (string \<times> location_counters) list \<Rightarrow> (string \<times> location_counters) list" where
  "release_location ctx ks =
     (case rx_location ctx of
        None \<Rightarrow> ks
      | Some lo \<Rightarrow> AList.update (lo_name lo) (location_on_response (counters_at ks (lo_name lo))) ks)"

section \<open>The index is the linear scan\<close>

text \<open>Whether an entry of a location is in its bucket.\<close>

definition listed_in :: "LocationHostIndex \<Rightarrow> HostIndexEntry \<Rightarrow> u16 \<Rightarrow> bool" where
  "listed_in ix entry idx =
     (case entry of
        IndexExact host \<Rightarrow> (\<exists>is. map_of (ix_exact ix) host = Some is \<and> idx \<in> set is)
      | IndexSuffix domain \<Rightarrow> (\<exists>is. map_of (ix_suffixes ix) domain = Some is \<and> idx \<in> set is)
      | IndexRegex \<Rightarrow> idx \<in> set (ix_regex ix)
      | IndexAny \<Rightarrow> idx \<in> set (ix_any ix))"

definition index_members :: "LocationHostIndex \<Rightarrow> u16 set" where
  "index_members ix =
     (\<Union>(_, is) \<in> set (ix_exact ix). set is) \<union> (\<Union>(_, is) \<in> set (ix_suffixes ix). set is) \<union>
     set (ix_regex ix) \<union> set (ix_any ix)"

lemma map_of_push_bucket:
  "map_of (push_bucket key idx m) k =
     (if k = key then Some ((case map_of m key of Some is \<Rightarrow> is | None \<Rightarrow> []) @ [idx]) else map_of m k)"
  by (simp add: push_bucket_def update_conv')

lemma update_members: "set (AList.update k v m) \<subseteq> insert (k, v) (set m)"
  by (induction m) auto

lemma set_push_bucket: "(\<Union>(_, is) \<in> set (push_bucket key idx m). set is) \<subseteq> insert idx (\<Union>(_, is) \<in> set m. set is)"
  using update_members [of key "(case map_of m key of Some is \<Rightarrow> is | None \<Rightarrow> []) @ [idx]" m]
  by (fastforce simp: push_bucket_def split: option.splits dest: map_of_SomeD)

lemma add_index_entry_self: "listed_in (add_index_entry idx ix entry) entry idx"
  by (auto simp: listed_in_def add_index_entry_def map_of_push_bucket split: HostIndexEntry.splits)

lemma add_index_entry_keep: "listed_in ix e i \<Longrightarrow> listed_in (add_index_entry idx ix entry) e i"
  by (auto simp: listed_in_def add_index_entry_def map_of_push_bucket split: HostIndexEntry.splits)

lemma add_index_entry_members: "index_members (add_index_entry idx ix entry) \<subseteq> insert idx (index_members ix)"
proof (cases entry)
  case (IndexExact host)
  then show ?thesis
    using set_push_bucket [of host idx "ix_exact ix"] by (auto simp: index_members_def add_index_entry_def)
next
  case (IndexSuffix domain)
  then show ?thesis
    using set_push_bucket [of domain idx "ix_suffixes ix"] by (auto simp: index_members_def add_index_entry_def)
qed (auto simp: index_members_def add_index_entry_def)

lemma add_index_entries_keep: "listed_in ix e i \<Longrightarrow> listed_in (foldl (add_index_entry idx) ix es) e i"
  by (induction es arbitrary: ix) (simp_all add: add_index_entry_keep)

lemma add_index_entries_self: "e \<in> set es \<Longrightarrow> listed_in (foldl (add_index_entry idx) ix es) e idx"
  by (induction es arbitrary: ix) (auto intro: add_index_entries_keep add_index_entry_self)

lemma add_index_entries_members:
  "index_members (foldl (add_index_entry idx) ix es) \<subseteq> insert idx (index_members ix)"
proof (induction es arbitrary: ix)
  case (Cons a es)
  show ?case using Cons.IH [of "add_index_entry idx ix a"] add_index_entry_members [of idx ix a] by auto
qed auto

lemma add_index_location_keep: "listed_in ix e i \<Longrightarrow> listed_in (add_index_location resolve ix x) e i"
  by (simp add: add_index_location_def add_index_entries_keep split: prod.split option.split)

lemma add_index_locations_keep:
  "listed_in ix e i \<Longrightarrow> listed_in (foldl (add_index_location resolve) ix js) e i"
  by (induction js arbitrary: ix) (simp_all add: add_index_location_keep)

lemma add_index_locations_listed:
  assumes "(j, name) \<in> set js" and "resolve name = Some lo" and "e \<in> set (host_index_entries lo)"
  shows "listed_in (foldl (add_index_location resolve) ix js) e (of_nat j)"
proof -
  from assms(1) obtain as bs where js: "js = as @ (j, name) # bs" by (meson split_list)
  have "listed_in (add_index_location resolve ix' (j, name)) e (of_nat j)" for ix'
    using assms(2,3) by (simp add: add_index_location_def add_index_entries_self)
  then show ?thesis by (simp add: js add_index_locations_keep)
qed

lemma add_index_locations_members:
  "index_members (foldl (add_index_location resolve) ix js) \<subseteq> (\<lambda>(j, _). of_nat j) ` set js \<union> index_members ix"
proof (induction js arbitrary: ix)
  case (Cons a js)
  obtain j name where a: "a = (j, name)" by (cases a)
  have "index_members (add_index_location resolve ix a) \<subseteq> insert (of_nat j) (index_members ix)"
    using add_index_entries_members by (auto simp: a add_index_location_def split: option.split)
  with Cons.IH [of "add_index_location resolve ix a"] show ?case by (auto simp: a)
qed simp

lemma host_index_build_listed:
  assumes "i < length names" and "resolve (names ! i) = Some lo" and "e \<in> set (host_index_entries lo)"
  shows "case e of
      IndexSuffix domain \<Rightarrow> \<exists>is. (domain, is) \<in> set (ix_suffixes (host_index_build names resolve)) \<and> of_nat i \<in> set is
    | _ \<Rightarrow> listed_in (host_index_build names resolve) e (of_nat i)"
proof -
  let ?ix = "foldl (add_index_location resolve)
    \<lparr>ix_ordered = names, ix_exact = [], ix_suffixes = [], ix_regex = [], ix_any = []\<rparr> (enumerate 0 names)"
  have "(i, names ! i) \<in> set (enumerate 0 names)" using assms(1) by (simp add: in_set_enumerate_eq)
  then have "listed_in ?ix e (of_nat i)"
    using add_index_locations_listed [where resolve = resolve and j = i] assms(2,3) by blast
  then show ?thesis
    by (cases e) (auto simp: host_index_build_def Let_def listed_in_def dest: map_of_SomeD)
qed

lemma host_index_build_members:
  assumes "length names \<le> 2 ^ 16"
  shows "unat ` index_members (host_index_build names resolve) \<subseteq> {0..<length names}"
proof -
  let ?ix = "foldl (add_index_location resolve)
    \<lparr>ix_ordered = names, ix_exact = [], ix_suffixes = [], ix_regex = [], ix_any = []\<rparr> (enumerate 0 names)"
  have "index_members (host_index_build names resolve) = index_members ?ix"
    by (simp add: host_index_build_def Let_def index_members_def)
  also have "\<dots> \<subseteq> of_nat ` {0..<length names}"
    using add_index_locations_members [of resolve
        "\<lparr>ix_ordered = names, ix_exact = [], ix_suffixes = [], ix_regex = [], ix_any = []\<rparr>" "enumerate 0 names"]
    by (auto simp: index_members_def in_set_enumerate_eq)
  finally show ?thesis
    using assms by (fastforce simp: unat_of_nat)
qed

lemma find_map_filter: "\<forall>x\<in>set xs. \<not> P x \<longrightarrow> f x = None \<Longrightarrow> find_map f (filter P xs) = find_map f xs"
  by (induction xs) (auto split: option.split)

lemma find_map_None: "find_map f xs = None \<longleftrightarrow> (\<forall>x\<in>set xs. f x = None)"
  by (induction xs) (auto split: option.split)

lemma find_map_Some:
  "find_map f xs = Some y \<Longrightarrow> \<exists>i<length xs. f (xs ! i) = Some y \<and> (\<forall>j<i. f (xs ! j) = None)"
proof (induction xs)
  case (Cons a xs)
  show ?case
  proof (cases "f a")
    case None
    with Cons obtain i where "i < length xs" "f (xs ! i) = Some y" "\<forall>j<i. f (xs ! j) = None" by auto
    with None show ?thesis by (intro exI [of _ "Suc i"]) (auto simp: less_Suc_eq_0_disj)
  next
    case (Some z)
    with Cons.prems show ?thesis by (intro exI [of _ 0]) simp
  qed
qed simp

lemma sorted_list_of_subset:
  assumes "A \<subseteq> {0..<n}"
  shows "sorted_list_of_set A = filter (\<lambda>i. i \<in> A) [0..<n]"
proof -
  have "set (filter (\<lambda>i. i \<in> A) [0..<n]) = A" using assms by auto
  then have "sorted_list_of_set A = sorted_list_of_set (set (filter (\<lambda>i. i \<in> A) [0..<n]))" by simp
  also have "\<dots> = filter (\<lambda>i. i \<in> A) [0..<n]"
    by (rule sorted_list_of_set.idem_if_sorted_distinct) (simp_all add: sorted_wrt_filter)
  finally show ?thesis .
qed

lemma fst_match_hosts: "fst (match_hosts rx host sels captured) \<longleftrightarrow> list_ex (\<lambda>sel. fst (host_is_match rx sel host)) sels"
  by (induction sels arbitrary: captured) (auto simp: Let_def split: prod.split)

lemma candidate_set_members: "candidate_set ix host \<subseteq> unat ` index_members ix"
proof -
  have "set (case map_of (ix_exact ix) h of Some is \<Rightarrow> is | None \<Rightarrow> []) \<subseteq> index_members ix" for h
  proof (cases "map_of (ix_exact ix) h")
    case (Some js)
    then have "(h, js) \<in> set (ix_exact ix)" by (rule map_of_SomeD)
    with Some show ?thesis by (force simp: index_members_def)
  qed simp
  moreover have "(\<Union>(domain, is) \<in> set (ix_suffixes ix). if host_matches_suffix h domain then set is else {})
      \<subseteq> index_members ix" for h
    by (auto simp: index_members_def split: if_splits)
  moreover have "set (ix_regex ix) \<subseteq> index_members ix" "set (ix_any ix) \<subseteq> index_members ix"
    by (auto simp: index_members_def)
  ultimately show ?thesis unfolding candidate_set_def Let_def by (intro image_mono Un_least)
qed

lemma matching_is_candidate:
  assumes "i < length names" and "length names \<le> 2 ^ 16" and lo: "resolve (names ! i) = Some lo"
    and "fst (match_host_path rx lo host path)"
  shows "i \<in> candidate_set (host_index_build names resolve) host"
proof -
  let ?ix = "host_index_build names resolve"
  have i: "unat (of_nat i :: u16) = i" using assms(1,2) by (simp add: unat_of_nat)
  have in_set: "i \<in> candidate_set ?ix host" if "(of_nat i :: u16) \<in> set (ix_regex ?ix) \<union> set (ix_any ?ix) \<union>
      set (case map_of (ix_exact ?ix) (to_ascii_lowercase host) of Some is \<Rightarrow> is | None \<Rightarrow> []) \<union>
      (\<Union>(domain, is) \<in> set (ix_suffixes ?ix).
        if host_matches_suffix (to_ascii_lowercase host) domain then set is else {})"
    using that i unfolding candidate_set_def Let_def by (intro image_eqI [of _ _ "of_nat i"]) auto
  note listed = host_index_build_listed [of i names resolve, OF assms(1) lo]
  show ?thesis
  proof (cases "lo_hosts lo = []")
    case True
    then have "IndexAny \<in> set (host_index_entries lo)" by (simp add: host_index_entries_def)
    from listed [OF this] have "(of_nat i :: u16) \<in> set (ix_any ?ix)" by (simp add: listed_in_def)
    then show ?thesis by (intro in_set) simp
  next
    case False
    then obtain sel where sel: "sel \<in> set (lo_hosts lo)" "fst (host_is_match rx sel host)"
      using assms(4) by (auto simp: match_host_path_def Let_def fst_match_hosts list_ex_iff split: prod.splits if_splits)
    show ?thesis
    proof (cases sel)
      case (HostRegex re)
      with sel False have "IndexRegex \<in> set (host_index_entries lo)" by (force simp: host_index_entries_def)
      from listed [OF this] have "(of_nat i :: u16) \<in> set (ix_regex ?ix)" by (simp add: listed_in_def)
      then show ?thesis by (intro in_set) simp
    next
      case (HostEqual v)
      with sel False have "IndexExact (to_ascii_lowercase host) \<in> set (host_index_entries lo)"
        by (force simp: host_index_entries_def host_is_match_def)
      from listed [OF this] obtain js where "map_of (ix_exact ?ix) (to_ascii_lowercase host) = Some js"
        "(of_nat i :: u16) \<in> set js" by (auto simp: listed_in_def)
      then show ?thesis by (intro in_set) simp
    next
      case (HostSuffix domain)
      with sel False have "IndexSuffix domain \<in> set (host_index_entries lo)"
        and suffix: "host_matches_suffix (to_ascii_lowercase host) domain"
        by (force simp: host_index_entries_def host_is_match_def)+
      from listed [OF this(1)] obtain js where "(domain, js) \<in> set (ix_suffixes ?ix)" "(of_nat i :: u16) \<in> set js"
        by auto
      with suffix show ?thesis by (intro in_set UnI2 UN_I [of "(domain, js)"]) simp_all
    qed
  qed
qed

definition request_host :: "'re route_world \<Rightarrow> http_session \<Rightarrow> string" where
  "request_host w s = (case get_host (rw_http w) (session.truncate s) of Some h \<Rightarrow> h | None \<Rightarrow> [])"

lemma find_location_linear:
  assumes "length names \<le> 2 ^ 16" and "route = server_location_route_build names (rw_locations w)"
  shows "find_location w route s = find_map (try_location w route (request_host w s) s) [0..<length names]"
proof -
  let ?host = "request_host w s" and ?ix = "host_index_build names (rw_locations w)"
  have route: "sr_ordered route = names" "sr_host_index route = ?ix"
    by (simp_all add: assms(2) server_location_route_build_def)
  have sub: "candidate_set ?ix ?host \<subseteq> {0..<length names}"
    using candidate_set_members host_index_build_members [OF assms(1)] by blast
  have "try_location w route ?host s i = None" if i: "i < length names" "i \<notin> candidate_set ?ix ?host" for i
  proof (cases "rw_locations w (names ! i)")
    case (Some lo)
    with i matching_is_candidate [OF i(1) assms(1), of "rw_locations w" lo "rw_regex w" ?host "wq_path s"]
    show ?thesis by (auto simp: try_location_def route split: prod.split)
  qed (simp add: try_location_def route)
  then have "find_map (try_location w route ?host s) (filter (\<lambda>i. i \<in> candidate_set ?ix ?host) [0..<length names]) =
      find_map (try_location w route ?host s) [0..<length names]"
    by (intro find_map_filter) auto
  then show ?thesis
    by (simp add: find_location_def request_host_def [symmetric] route candidate_indices_def
        sorted_list_of_subset [OF sub])
qed

text \<open>A server with a location for one host below one another that takes everything.\<close>

definition demo_route_conf :: location_conf where
  "demo_route_conf = \<lparr>lc_upstream = None, lc_path = None, lc_host = None, lc_match_headers = None,
     lc_match_query = None, lc_match_cookies = None, lc_weight = None, lc_client_max_body_size = None,
     lc_max_processing = None, lc_rewrite = None, lc_enable_reverse_proxy_headers = None,
     lc_proxy_set_headers = None, lc_proxy_add_headers = None, lc_plugins = None, lc_grpc_web = None,
     lc_max_retries = None, lc_max_retry_window = None\<rparr>"

definition demo_location :: "unit location" where
  "demo_location = \<lparr>lo_name = ''all'', lo_key = [], lo_upstream = [], lo_path = [], lo_path_selector = PathAny, lo_hosts = [],
     lo_header_conditions = [], lo_query_conditions = [], lo_cookie_conditions = [], lo_reg_rewrite = None,
     lo_headers = None, lo_plugins = None, lo_max_processing = 0, lo_grpc_web = False, lo_client_max_body_size = 0,
     lo_max_retries = None, lo_max_retry_window = None\<rparr>"

definition demo_api :: "unit location" where
  "demo_api = demo_location\<lparr>lo_name := ''api'', lo_path := ''/v'', lo_path_selector := PathPrefix ''/v'',
     lo_hosts := [HostEqual ''a.b''], lo_client_max_body_size := 10\<rparr>"

definition demo_confs :: "(string \<times> location_conf) list" where
  "demo_confs = [(''all'', demo_route_conf), (''api'', demo_route_conf\<lparr>lc_path := Some ''/v'', lc_host := Some ''a.b''\<rparr>)]"

definition demo_route_world :: "unit route_world" where
  "demo_route_world = \<lparr>rw_regex = \<lparr>rr_new = (\<lambda>_. Ok ()), rr_captures = (\<lambda>_ _. None),
       rr_has_names = (\<lambda>_. False), rr_replace = (\<lambda>_ path _. path)\<rparr>, rw_http = demo_http,
     rw_locations = map_of [(''all'', demo_location), (''api'', demo_api)]\<rparr>"

definition demo_route_request :: http_session where
  "demo_route_request = \<lparr>se_method = ''GET'', se_uri_host = Some ''A.b'', se_headers = [(''content-length'', ''11'')],
     se_peer = None, wq_uri = ''/v/1'', wq_path = ''/v/1'', wq_query = None\<rparr>"

lemmas demo_route_simps = demo_route_conf_def demo_location_def demo_api_def demo_confs_def demo_route_world_def
  demo_route_request_def demo_http_def

lemma demo_order: "order_locations demo_confs [''all'', ''api''] = [''api'', ''all'']"
  by (simp add: order_locations_def weight_of_def get_weight_def demo_route_simps)

lemma demo_host: "to_ascii_lowercase ''A.b'' = ''a.b''"
  by code_simp

lemma demo_try_all:
  assumes "sr_ordered route ! i = ''all''" and "i < length (sr_ordered route)"
  shows "try_location demo_route_world route host demo_route_request i = Some (demo_location, None)"
  using assms by (simp add: try_location_def demo_route_simps match_host_path_def match_conditions_def)

lemma demo_try_api:
  assumes "sr_ordered route ! i = ''api''" and "i < length (sr_ordered route)"
  shows "try_location demo_route_world route (request_host demo_route_world demo_route_request) demo_route_request i = Some (demo_api, None)"
  using assms by (simp add: try_location_def request_host_def get_host_def demo_route_simps match_host_path_def
      path_is_match_def host_is_match_def match_conditions_def session.defs demo_host)

text \<open>
  C6: routing through the host index is the linear scan. For at most 65536 locations (the index keeps
  16-bit positions), the location found among the index's candidates for the request's host is the
  first location of the ordered list that matches host, path and conditions, with the same captured
  variables; none is found only when none matches.
\<close>

theorem route_index_is_linear_scan:
  assumes "length names \<le> 2 ^ 16" and "route = server_location_route_build names (rw_locations w)"
  shows "find_location w route s = find_map (try_location w route (request_host w s) s) [0..<length names]"
  using find_location_linear [OF assms] .

theorem route_index_is_linear_scan_witness:
  "find_location demo_route_world
     (server_location_route_build [''all'', ''api''] (rw_locations demo_route_world)) demo_route_request = Some (demo_location, None) \<and>
   find_location demo_route_world
     (server_location_route_build [''api'', ''all''] (rw_locations demo_route_world)) demo_route_request = Some (demo_api, None)"
  using route_index_is_linear_scan [OF _ refl, of "[''all'', ''api'']" demo_route_world demo_route_request]
    route_index_is_linear_scan [OF _ refl, of "[''api'', ''all'']" demo_route_world demo_route_request] demo_try_api demo_try_all
  by (simp add: server_location_route_build_def upt_rec)

section \<open>The heaviest match\<close>

definition location_matches :: "'re route_world \<Rightarrow> http_session \<Rightarrow> 're location \<Rightarrow> bool" where
  "location_matches w s lo \<longleftrightarrow>
     fst (match_host_path (rw_regex w) lo (request_host w s) (wq_path s)) \<and> match_conditions (rw_http w) lo s"

lemma try_location_Some:
  assumes "sr_ordered route = names" and "i < length names"
  shows "(\<exists>cs. try_location w route (request_host w s) s i = Some (lo, cs)) \<longleftrightarrow>
    rw_locations w (names ! i) = Some lo \<and> location_matches w s lo"
  using assms by (auto simp: try_location_def location_matches_def split: option.split prod.splits)

lemma try_location_None:
  assumes "sr_ordered route = names" and "i < length names"
    and "try_location w route (request_host w s) s i = None" and "rw_locations w (names ! i) = Some lo"
  shows "\<not> location_matches w s lo"
  using try_location_Some [OF assms(1,2), of w s lo] assms(3,4) by auto

lemma order_locations_sorted:
  assumes "i \<le> j" and "j < length (order_locations confs items)"
  shows "weight_of confs (order_locations confs items ! j) \<le> weight_of confs (order_locations confs items ! i)"
proof -
  have "sorted (map (\<lambda>item. - int (unat (weight_of confs item))) (order_locations confs items))"
    by (simp add: order_locations_def)
  from sorted_nth_mono [OF this, of i j] assms show ?thesis by (simp add: word_le_def)
qed

text \<open>
  C12: a request goes to the heaviest location that matches it. On a server whose locations were
  ordered by weight, the location a request is routed to matches the request's host, path, headers,
  query and cookies, and no matching location of the server weighs more; when no location is found,
  none of the server's locations matches.
\<close>

theorem route_picks_heaviest_match:
  assumes "length items \<le> 2 ^ 16"
    and "route = server_location_route_build (order_locations confs items) (rw_locations w)"
  shows "case find_location w route s of
      Some (lo, _) \<Rightarrow>
        (\<exists>name\<in>set items. rw_locations w name = Some lo \<and> location_matches w s lo \<and>
          (\<forall>name'\<in>set items. \<forall>lo'. rw_locations w name' = Some lo' \<and> location_matches w s lo' \<longrightarrow>
             weight_of confs name' \<le> weight_of confs name))
    | None \<Rightarrow> (\<forall>name\<in>set items. \<forall>lo. rw_locations w name = Some lo \<longrightarrow> \<not> location_matches w s lo)"
proof -
  let ?names = "order_locations confs items"
  have items: "set ?names = set items" "length ?names = length items" by (simp_all add: order_locations_def)
  have route: "sr_ordered route = ?names" by (simp add: assms(2) server_location_route_build_def)
  have nth: "\<exists>i<length ?names. ?names ! i = name" if "name \<in> set items" for name
    using that unfolding items(1) [symmetric] in_set_conv_nth .
  have lin: "find_location w route s =
      find_map (try_location w route (request_host w s) s) [0..<length ?names]"
    by (rule find_location_linear [OF _ assms(2)]) (use items(2) assms(1) in simp)
  have none: "\<not> location_matches w s lo" if "try_location w route (request_host w s) s j = None"
    "j < length ?names" "rw_locations w (?names ! j) = Some lo" for j lo
    using try_location_None [OF route that(2,1,3)] .
  show ?thesis
  proof (cases "find_location w route s")
    case None
    have "\<not> location_matches w s lo" if "name \<in> set items" "rw_locations w name = Some lo" for name lo
    proof -
      from nth [OF that(1)] obtain i where "i < length ?names" "?names ! i = name" by blast
      moreover have "\<forall>i<length ?names. try_location w route (request_host w s) s i = None"
        using None unfolding lin find_map_None by auto
      ultimately show ?thesis using none [of i lo] that(2) by simp
    qed
    then show ?thesis unfolding None by simp
  next
    case (Some r)
    obtain lo cs where r: "r = (lo, cs)" by (cases r)
    have "find_map (try_location w route (request_host w s) s) [0..<length ?names] = Some (lo, cs)"
      using Some unfolding lin r .
    from find_map_Some [OF this] obtain i where i: "i < length ?names"
      "try_location w route (request_host w s) s i = Some (lo, cs)"
      "\<forall>j<i. try_location w route (request_host w s) s j = None" by auto
    have lo: "rw_locations w (?names ! i) = Some lo" "location_matches w s lo"
      using try_location_Some [OF route i(1), of w s lo] i(2) by simp_all
    have "weight_of confs name' \<le> weight_of confs (?names ! i)"
      if "name' \<in> set items" "rw_locations w name' = Some lo'" "location_matches w s lo'" for name' lo'
    proof -
      from nth [OF that(1)] obtain j where j: "j < length ?names" "?names ! j = name'" by blast
      have "\<not> j < i" using none [of j lo'] i(3) that(2,3) j by auto
      with order_locations_sorted [of i j confs items] j show ?thesis by simp
    qed
    moreover have "?names ! i \<in> set items" using i(1) items(1) nth_mem by blast
    ultimately have "\<exists>name\<in>set items. rw_locations w name = Some lo \<and> location_matches w s lo \<and>
        (\<forall>name'\<in>set items. \<forall>lo'. rw_locations w name' = Some lo' \<and> location_matches w s lo' \<longrightarrow>
           weight_of confs name' \<le> weight_of confs name)"
      using lo by (intro bexI [of _ "?names ! i"]) blast+
    then show ?thesis unfolding Some r by simp
  qed
qed

theorem route_picks_heaviest_match_witness:
  "weight_of demo_confs ''api'' = 642 \<and>
   (\<exists>name. rw_locations demo_route_world name = Some demo_api \<and> location_matches demo_route_world demo_route_request demo_api \<and>
     weight_of demo_confs ''all'' \<le> weight_of demo_confs name)"
proof -
  let ?route = "server_location_route_build (order_locations demo_confs [''all'', ''api'']) (rw_locations demo_route_world)"
  have w: "weight_of demo_confs ''api'' = 642"
    by (simp add: weight_of_def get_weight_def demo_route_simps)
  have "find_location demo_route_world ?route demo_route_request = Some (demo_api, None)"
    using find_location_linear [OF _ refl, of "[''api'', ''all'']" demo_route_world demo_route_request] demo_try_api
    by (simp add: server_location_route_build_def upt_rec demo_order)
  with route_picks_heaviest_match [where items = "[''all'', ''api'']" and confs = demo_confs and w = demo_route_world
      and s = demo_route_request, OF _ refl]
  have "\<exists>name\<in>{''all'', ''api''}. rw_locations demo_route_world name = Some demo_api \<and>
      location_matches demo_route_world demo_route_request demo_api \<and>
      (\<forall>lo'. rw_locations demo_route_world ''all'' = Some lo' \<and> location_matches demo_route_world demo_route_request lo' \<longrightarrow>
        weight_of demo_confs ''all'' \<le> weight_of demo_confs name)" by auto
  moreover have "rw_locations demo_route_world ''all'' = Some demo_location" by (simp add: demo_route_world_def)
  moreover have "location_matches demo_route_world demo_route_request demo_location"
    by (simp add: location_matches_def match_host_path_def match_conditions_def demo_route_simps)
  ultimately show ?thesis using w by blast
qed

section \<open>Admission\<close>

text \<open>
  C40: a request refused for its size is released without having been counted. Its location is
  recorded before the content length is checked and counted only after, while the end of every request
  with a location counts one down: each request refused with 413 lowers the location's number of
  requests in process by one for good, and with it what \<open>max_processing\<close> limits.
\<close>

theorem oversized_request_uncounts:
  assumes "find_location w route s = Some (lo, captured)"
    and "validate_content_length (rw_http w) lo s = Err e"
    and "admit_to_location w (Some route) gen s (ctx, ks) = (r, ctx', ks')"
    and "\<not> policy_reload_in_progress (gen 1)" and "\<not> policy_reload_in_progress (gen 2)" and "gen 3 = gen 0"
  shows "r = Err 413 \<and>
    lk_processing (counters_at (release_location ctx' ks') (lo_name lo)) = lk_processing (counters_at ks (lo_name lo)) - 1"
proof -
  have "r = Err 413" "ks' = ks" "rx_location ctx' = Some lo"
    using assms by (auto simp: admit_to_location_def extend_variables_def Let_def split: option.splits)
  then show ?thesis by (simp add: release_location_def location_on_response_def counters_at_def update_conv')
qed

theorem oversized_request_uncounts_witness:
  "lk_processing (counters_at (release_location (\<lparr>rx_location = Some demo_api, rx_variables = None, rx_accepted = 0,
     rx_processing = 0, rx_max_retries = None, rx_max_retry_window = None, rx_generation = Some 0\<rparr> :: unit route_ctx) []) ''api'') = - 1"
proof -
  let ?route = "server_location_route_build [''api''] (rw_locations demo_route_world)"
  let ?ctx = "\<lparr>rx_location = None, rx_variables = None, rx_accepted = 0, rx_processing = 0, rx_max_retries = None,
    rx_max_retry_window = None, rx_generation = None\<rparr> :: unit route_ctx"
  have f: "find_location demo_route_world ?route demo_route_request = Some (demo_api, None)"
    using find_location_linear [OF _ refl, of "[''api'']" demo_route_world demo_route_request] demo_try_api
    by (simp add: server_location_route_build_def)
  have v: "validate_content_length (rw_http demo_route_world) demo_api demo_route_request = Err (BodyTooLarge 10)"
    by (simp add: validate_content_length_def get_content_length_def demo_route_simps parse_uint_def usize_max_def
        is_ascii_digit_def digits_val_def digit_val_def byte_of_def Let_def)
  have "admit_to_location demo_route_world (Some ?route) (\<lambda>_. 0) demo_route_request (?ctx, []) =
      (Err 413, ?ctx\<lparr>rx_location := Some demo_api, rx_generation := Some 0\<rparr>, [])"
    using f v by (simp add: admit_to_location_def policy_reload_in_progress_def demo_api_def demo_location_def)
  from oversized_request_uncounts [OF f v this] show ?thesis
    by (simp add: policy_reload_in_progress_def demo_api_def counters_at_def)
qed

text \<open>Every other request leaves the count as it was.\<close>

lemma admitted_request_balanced:
  assumes "admit_to_location w route gen s (ctx, ks) = (r, ctx', ks')"
    and "rx_location ctx = None" and "r \<noteq> Err 413"
  shows "lk_processing (counters_at (release_location ctx' ks') name) = lk_processing (counters_at ks name)"
proof (cases "rx_location ctx'")
  case None
  with assms show ?thesis
    by (auto simp: admit_to_location_def release_location_def extend_variables_def Let_def
        split: if_splits option.splits result.splits prod.splits)
next
  case (Some lo)
  obtain r0 lk where on: "on_request lo (counters_at ks (lo_name lo)) = (r0, lk)" by fastforce
  then have "lk_processing lk = lk_processing (counters_at ks (lo_name lo)) + 1"
    by (auto simp: on_request_def Let_def split: if_splits)
  moreover have "ks' = AList.update (lo_name lo) lk ks"
    using assms on Some by (auto simp: admit_to_location_def extend_variables_def Let_def
        split: if_splits option.splits result.splits prod.splits)
  ultimately show ?thesis
    using Some by (simp add: release_location_def location_on_response_def counters_at_def update_conv')
qed

end
