(* ===== verification/Reload.thy ===== *)
theory Reload
  imports Routing Host_Policy
begin

text \<open>
  Publishing a configuration: the location map (\<open>src/locations.rs\<close>), the decisions of the hot
  reload about locations and server routes (\<open>src/process/auto_restart.rs\<close>), and the policy
  generation that fences requests from a reload (\<open>pingap-core/src/lib.rs\<close>).
\<close>

section \<open>Model\<close>













section \<open>What is in the index\<close>










section \<open>A hot reload and the index\<close>
















section \<open>Requests and reloads\<close>













end
