(* ===== verification/Backend_Stats.thy ===== *)
theory Backend_Stats
  imports Prelude "HOL-Library.AList" Complex_Main
begin

text \<open>
  \<open>pingap-upstream/src/backend_stats.rs\<close>: what an upstream remembers of its backends' answers. The
  sliding rate of the \<open>pingora-limits\<close> crate and the status codes of the \<open>http\<close> crate are
  parameters; an \<open>f64\<close> stands for the rational it denotes, so the window arithmetic is exact. Times
  and durations are nanoseconds.
\<close>

type_synonym f64 = rat

record 'r rate_lib =
  rt_new :: "nat \<Rightarrow> 'r"
  rt_observe :: "nat \<Rightarrow> string \<Rightarrow> 'r \<Rightarrow> 'r"
  rt_rate :: "nat \<Rightarrow> 'r \<Rightarrow> string \<Rightarrow> f64"

record 's status_lib =
  sl_from_u16 :: "u16 \<Rightarrow> 's option"
  sl_is_server_error :: "'s \<Rightarrow> bool"

record WindowStats =
  win_failure_rate_percent :: f64
  win_rps :: f64
  win_total_requests :: u64

record ConsecutiveCounters =
  csc_failures :: u32
  csc_successes :: u32

definition consecutive_counters_new :: ConsecutiveCounters where
  "consecutive_counters_new = \<lparr>csc_failures = 0, csc_successes = 0\<rparr>"

record ('r, 's) BackendStats =
  bs_failure_status_codes :: "'s list option"
  bs_interval :: nat
  bs_rate :: 'r
  bs_counters :: "(string \<times> ConsecutiveCounters) list"

definition make_key :: "string \<Rightarrow> string \<Rightarrow> string" where
  "make_key pre address = pre @ ''-'' @ address"

definition FAILURE_KEY :: string where "FAILURE_KEY = ''failure''"

definition TOTAL_KEY :: string where "TOTAL_KEY = ''total''"

definition backend_stats_new ::
  "'r rate_lib \<Rightarrow> 's status_lib \<Rightarrow> nat \<Rightarrow> u16 list \<Rightarrow> ('r, 's) BackendStats" where
  "backend_stats_new rl sl interval failure_status_codes =
     (let codes = List.map_filter (sl_from_u16 sl) failure_status_codes in
      \<lparr>bs_failure_status_codes = (if codes = [] then None else Some codes), bs_interval = interval,
       bs_rate = rt_new rl interval, bs_counters = []\<rparr>)"

definition stats_transport_failure ::
  "'r rate_lib \<Rightarrow> nat \<Rightarrow> string \<Rightarrow> ('r, 's) BackendStats \<Rightarrow> ('r, 's) BackendStats" where
  "stats_transport_failure rl now address bs =
     bs\<lparr>bs_rate := rt_observe rl now (make_key FAILURE_KEY address) (bs_rate bs)\<rparr>"

definition is_failure_status :: "'s status_lib \<Rightarrow> ('r, 's) BackendStats \<Rightarrow> 's \<Rightarrow> bool" where
  "is_failure_status sl bs status =
     (case bs_failure_status_codes bs of
        None \<Rightarrow> sl_is_server_error sl status
      | Some codes \<Rightarrow> status \<in> set codes)"

definition counters_of :: "('r, 's) BackendStats \<Rightarrow> string \<Rightarrow> ConsecutiveCounters" where
  "counters_of bs address =
     (case map_of (bs_counters bs) address of Some c \<Rightarrow> c | None \<Rightarrow> consecutive_counters_new)"

text \<open>The two counters of one answer; \<open>fetch_add\<close> wraps.\<close>

definition count_answer :: "bool \<Rightarrow> ConsecutiveCounters \<Rightarrow> ConsecutiveCounters" where
  "count_answer is_failure c =
     (if is_failure then c\<lparr>csc_successes := 0, csc_failures := csc_failures c + 1\<rparr>
      else c\<lparr>csc_successes := csc_successes c + 1, csc_failures := 0\<rparr>)"

definition stats_response ::
  "'r rate_lib \<Rightarrow> 's status_lib \<Rightarrow> nat \<Rightarrow> string \<Rightarrow> 's \<Rightarrow> ('r, 's) BackendStats \<Rightarrow> bool \<times> ('r, 's) BackendStats" where
  "stats_response rl sl now address status bs =
     (let rate = rt_observe rl now (make_key TOTAL_KEY address) (bs_rate bs);
          is_failure = is_failure_status sl bs status;
          rate = (if is_failure then rt_observe rl now (make_key FAILURE_KEY address) rate else rate) in
      (is_failure,
       bs\<lparr>bs_rate := rate,
          bs_counters := AList.update address (count_answer is_failure (counters_of bs address)) (bs_counters bs)\<rparr>))"

text \<open>The cast \<open>as u64\<close> saturates.\<close>

definition f64_as_u64 :: "f64 \<Rightarrow> u64" where
  "f64_as_u64 x = (if x < 0 then 0 else of_nat (min (nat \<lfloor>x\<rfloor>) (2 ^ 64 - 1)))"

definition get_window_stats :: "'r rate_lib \<Rightarrow> nat \<Rightarrow> ('r, 's) BackendStats \<Rightarrow> string \<Rightarrow> WindowStats" where
  "get_window_stats rl now bs address =
     (let interval = of_nat (bs_interval bs) / 10 ^ 9;
          rps = rt_rate rl now (bs_rate bs) (make_key TOTAL_KEY address);
          total = rps * interval;
          failure = rt_rate rl now (bs_rate bs) (make_key FAILURE_KEY address) * interval;
          failure_rate_percent = (if total > 0 then failure / total * 100 else 0) in
      \<lparr>win_failure_rate_percent = failure_rate_percent, win_rps = rps, win_total_requests = f64_as_u64 total\<rparr>)"

definition get_consecutive_successes :: "('r, 's) BackendStats \<Rightarrow> string \<Rightarrow> u32" where
  "get_consecutive_successes bs address =
     (case map_of (bs_counters bs) address of Some c \<Rightarrow> csc_successes c | None \<Rightarrow> 0)"

definition get_consecutive_failures :: "('r, 's) BackendStats \<Rightarrow> string \<Rightarrow> u32" where
  "get_consecutive_failures bs address =
     (case map_of (bs_counters bs) address of Some c \<Rightarrow> csc_failures c | None \<Rightarrow> 0)"

text \<open>Reading the statistics forgets the counters of backends that left the pool.\<close>

definition get_all_stats ::
  "'r rate_lib \<Rightarrow> nat \<Rightarrow> string list \<Rightarrow> ('r, 's) BackendStats
     \<Rightarrow> (string \<times> WindowStats) list \<times> ('r, 's) BackendStats" where
  "get_all_stats rl now backends bs =
     (let bs = bs\<lparr>bs_counters := filter (\<lambda>(key, _). key \<in> set backends) (bs_counters bs)\<rparr> in
      (map (\<lambda>address. (address, get_window_stats rl now bs address)) (remdups backends), bs))"

section \<open>What an operation does to the counters\<close>

named_theorems stats_simps

lemma get_consecutive_counters:
  "get_consecutive_successes bs a = csc_successes (counters_of bs a)"
  "get_consecutive_failures bs a = csc_failures (counters_of bs a)"
  by (simp_all add: get_consecutive_successes_def get_consecutive_failures_def counters_of_def
      consecutive_counters_new_def split: option.split)

lemma counters_transport_failure [stats_simps]:
  "counters_of (stats_transport_failure rl now b bs) a = counters_of bs a"
  by (simp add: stats_transport_failure_def counters_of_def)

lemma counters_response [stats_simps]:
  "counters_of (snd (stats_response rl sl now b status bs)) a =
     (if a = b then count_answer (is_failure_status sl bs status) (counters_of bs b) else counters_of bs a)"
  by (simp add: stats_response_def Let_def counters_of_def update_conv')

lemma fst_stats_response [stats_simps]:
  "fst (stats_response rl sl now a status bs) = is_failure_status sl bs status"
  by (simp add: stats_response_def Let_def)

lemma map_of_filter_keys:
  "map_of (filter (\<lambda>(key, _). key \<in> A) xs) a = (if a \<in> A then map_of xs a else None)"
  by (induction xs) auto

lemma counters_all_stats [stats_simps]:
  "a \<in> set backends \<Longrightarrow> counters_of (snd (get_all_stats rl now backends bs)) a = counters_of bs a"
  by (simp add: get_all_stats_def Let_def counters_of_def map_of_filter_keys)

lemma status_codes_kept [stats_simps]:
  "bs_failure_status_codes (stats_transport_failure rl now b bs) = bs_failure_status_codes bs"
  "bs_failure_status_codes (snd (stats_response rl sl now b status bs)) = bs_failure_status_codes bs"
  "bs_failure_status_codes (snd (get_all_stats rl now backends bs)) = bs_failure_status_codes bs"
  by (simp_all add: stats_transport_failure_def stats_response_def get_all_stats_def Let_def)

end
