(* ===== verification/Circuit_Breaker.thy ===== *)
theory Circuit_Breaker
  imports Backend_Stats Utf8
begin

text \<open>
  \<open>pingap-upstream/src/backend_circuit_state.rs\<close>: the circuit breaker of an upstream. Each call is one
  step of the model; the mutex of a backend is only ever tried, so a call takes \<open>contested\<close>, whether
  another thread holds the lock. The tracked addresses are an association list.
\<close>

record CircuitBreakerConfig =
  cb_max_consecutive_failures :: u32
  cb_max_failure_percent :: f64
  cb_min_requests_threshold :: u64
  cb_half_open_consecutive_success_threshold :: u32
  cb_open_duration :: nat

definition circuit_breaker_config_default :: CircuitBreakerConfig where
  "circuit_breaker_config_default =
     \<lparr>cb_max_consecutive_failures = 5, cb_max_failure_percent = 50, cb_min_requests_threshold = 10,
      cb_half_open_consecutive_success_threshold = 5, cb_open_duration = 10 * 10 ^ 9\<rparr>"

definition STATE_CLOSED :: u8 where "STATE_CLOSED = 0"

definition STATE_OPEN :: u8 where "STATE_OPEN = 1"

definition STATE_HALF_OPEN :: u8 where "STATE_HALF_OPEN = 2"

lemmas state_codes = STATE_CLOSED_def STATE_OPEN_def STATE_HALF_OPEN_def

record BreakerStateData =
  bd_open_until :: nat
  bd_probes_sent :: u32

definition breaker_state_data_new :: "nat \<Rightarrow> nat \<Rightarrow> BreakerStateData" where
  "breaker_state_data_new now open_duration = \<lparr>bd_open_until = now + open_duration, bd_probes_sent = 0\<rparr>"

record BackendCircuitState =
  bc_current_state :: u8
  bc_data :: BreakerStateData

definition backend_circuit_state_new :: "nat \<Rightarrow> BackendCircuitState" where
  "backend_circuit_state_new now =
     \<lparr>bc_current_state = STATE_CLOSED, bc_data = \<lparr>bd_open_until = now, bd_probes_sent = 0\<rparr>\<rparr>"

section \<open>The address key\<close>

text \<open>
  The displayed address arrives in pieces; the stack buffer takes 64 bytes, and a longer address is
  looked up by its heap-allocated text.
\<close>

definition addr_key_write :: "string \<Rightarrow> string \<Rightarrow> (string, unit) result" where
  "addr_key_write buf s = (if length buf + length s > 64 then Err () else Ok (buf @ s))"

fun addr_key_fmt :: "string \<Rightarrow> string list \<Rightarrow> (string, unit) result" where
  "addr_key_fmt buf [] = Ok buf"
| "addr_key_fmt buf (s # pieces) =
     (case addr_key_write buf s of Err e \<Rightarrow> Err e | Ok buf' \<Rightarrow> addr_key_fmt buf' pieces)"

definition addr_key_as_str :: "string \<Rightarrow> string" where
  "addr_key_as_str buf = (case from_utf8 buf of Ok s \<Rightarrow> s | Err _ \<Rightarrow> [])"

definition addr_key :: "string list \<Rightarrow> string" where
  "addr_key pieces =
     (case addr_key_fmt [] pieces of Ok buf \<Rightarrow> addr_key_as_str buf | Err _ \<Rightarrow> concat pieces)"

section \<open>The breaker\<close>

record BackendCircuitStates =
  bcs_backend_states :: "(string \<times> BackendCircuitState) list"
  bcs_config :: CircuitBreakerConfig

definition backend_circuit_states_new :: "CircuitBreakerConfig \<Rightarrow> BackendCircuitStates" where
  "backend_circuit_states_new config = \<lparr>bcs_backend_states = [], bcs_config = config\<rparr>"

definition get_or_create_backend_circuit_state ::
  "nat \<Rightarrow> string \<Rightarrow> BackendCircuitStates \<Rightarrow> BackendCircuitState \<times> BackendCircuitStates" where
  "get_or_create_backend_circuit_state now address bcs =
     (case map_of (bcs_backend_states bcs) address of
        Some st \<Rightarrow> (st, bcs)
      | None \<Rightarrow>
          (let st = backend_circuit_state_new now in
           (st, bcs\<lparr>bcs_backend_states := AList.update address st (bcs_backend_states bcs)\<rparr>)))"

definition put_state :: "string \<Rightarrow> BackendCircuitState \<Rightarrow> BackendCircuitStates \<Rightarrow> BackendCircuitStates" where
  "put_state address st bcs = bcs\<lparr>bcs_backend_states := AList.update address st (bcs_backend_states bcs)\<rparr>"

definition check_open_state_non_blocking ::
  "nat \<Rightarrow> bool \<Rightarrow> BackendCircuitState \<Rightarrow> bool \<times> BackendCircuitState" where
  "check_open_state_non_blocking now contested st =
     (if contested then (False, st)
      else if now \<ge> bd_open_until (bc_data st)
      then (True, st\<lparr>bc_current_state := STATE_HALF_OPEN, bc_data := (bc_data st)\<lparr>bd_probes_sent := 1\<rparr>\<rparr>)
      else (False, st))"

definition check_half_open_state_non_blocking ::
  "CircuitBreakerConfig \<Rightarrow> bool \<Rightarrow> BackendCircuitState \<Rightarrow> bool \<times> BackendCircuitState" where
  "check_half_open_state_non_blocking config contested st =
     (if contested then (False, st)
      else if bd_probes_sent (bc_data st) < cb_half_open_consecutive_success_threshold config
      then (True, st\<lparr>bc_data := (bc_data st)\<lparr>bd_probes_sent := bd_probes_sent (bc_data st) + 1\<rparr>\<rparr>)
      else (False, st))"

definition get_state_code :: "BackendCircuitStates \<Rightarrow> string \<Rightarrow> u8" where
  "get_state_code bcs address =
     (case map_of (bcs_backend_states bcs) address of
        Some st \<Rightarrow> bc_current_state st
      | None \<Rightarrow> STATE_CLOSED)"

definition get_all_state_codes :: "BackendCircuitStates \<Rightarrow> (string \<times> u8) list" where
  "get_all_state_codes bcs = map (\<lambda>(address, st). (address, bc_current_state st)) (bcs_backend_states bcs)"

definition judge_state ::
  "CircuitBreakerConfig \<Rightarrow> nat \<Rightarrow> bool \<Rightarrow> BackendCircuitState \<Rightarrow> bool \<times> BackendCircuitState" where
  "judge_state config now contested st =
     (if bc_current_state st = STATE_CLOSED then (True, st)
      else if bc_current_state st = STATE_OPEN then check_open_state_non_blocking now contested st
      else if bc_current_state st = STATE_HALF_OPEN then check_half_open_state_non_blocking config contested st
      else (False, st))"

definition is_backend_acceptable ::
  "nat \<Rightarrow> bool \<Rightarrow> string list \<Rightarrow> BackendCircuitStates \<Rightarrow> bool \<times> BackendCircuitStates" where
  "is_backend_acceptable now contested addr bcs =
     (let key = addr_key addr;
          (st, bcs) = get_or_create_backend_circuit_state now key bcs;
          (accepted, st) = judge_state (bcs_config bcs) now contested st in
      (accepted, put_state key st bcs))"

definition should_trip ::
  "'r rate_lib \<Rightarrow> nat \<Rightarrow> CircuitBreakerConfig \<Rightarrow> string \<Rightarrow> ('r, 's) BackendStats \<Rightarrow> bool" where
  "should_trip rl now config address stats =
     (let is_fail = (cb_max_consecutive_failures config > 0 \<and>
            get_consecutive_failures stats address \<ge> cb_max_consecutive_failures config) in
      if \<not> is_fail \<and> cb_max_failure_percent config \<le> 100
      then (let window = get_window_stats rl now stats address in
            win_total_requests window \<ge> cb_min_requests_threshold config \<and>
            win_failure_rate_percent window \<ge> cb_max_failure_percent config)
      else is_fail)"

definition update_state ::
  "'r rate_lib \<Rightarrow> nat \<Rightarrow> bool \<Rightarrow> CircuitBreakerConfig \<Rightarrow> string \<Rightarrow> bool \<Rightarrow> ('r, 's) BackendStats
     \<Rightarrow> BackendCircuitState \<Rightarrow> BackendCircuitState" where
  "update_state rl now contested config address is_request_failure stats st =
     (if \<not> is_request_failure
      then (if bc_current_state st = STATE_CLOSED then st
            else if bc_current_state st = STATE_HALF_OPEN \<and>
                    get_consecutive_successes stats address \<ge> cb_half_open_consecutive_success_threshold config
            then st\<lparr>bc_current_state := STATE_CLOSED\<rparr> else st)
      else if contested then st
      else if bc_current_state st = STATE_CLOSED
      then (if should_trip rl now config address stats
            then st\<lparr>bc_current_state := STATE_HALF_OPEN,
                    bc_data := breaker_state_data_new now (cb_open_duration config)\<rparr>
            else st)
      else if bc_current_state st = STATE_HALF_OPEN
      then st\<lparr>bc_current_state := STATE_OPEN, bc_data := breaker_state_data_new now (cb_open_duration config)\<rparr>
      else st)"

definition update_state_after_request ::
  "'r rate_lib \<Rightarrow> nat \<Rightarrow> bool \<Rightarrow> string \<Rightarrow> bool \<Rightarrow> ('r, 's) BackendStats \<Rightarrow> BackendCircuitStates
     \<Rightarrow> BackendCircuitStates" where
  "update_state_after_request rl now contested address is_request_failure stats bcs =
     (let (st, bcs) = get_or_create_backend_circuit_state now address bcs in
      put_state address
        (update_state rl now contested (bcs_config bcs) address is_request_failure stats st) bcs)"

end
