(* ===== verification/Upstream.thy ===== *)
theory Upstream
  imports Http_Header Circuit_Breaker
begin

text \<open>
  \<open>pingap-upstream/src/upstream.rs\<close> and \<open>hash_strategy.rs\<close>: the choice of a backend and the reports
  that drive the circuit breaker. The load balancer of \<open>pingora\<close> is a parameter: the candidates it
  offers for a key with their health, at most as many as it is asked for. A backend is the pieces its
  address is displayed in.
\<close>

section \<open>Hash strategies\<close>

datatype HashStrategy = HsUrl | HsIp | HsHeader string | HsCookie string | HsQuery string | HsPath

definition hash_strategy_from :: "string \<Rightarrow> string \<Rightarrow> HashStrategy" where
  "hash_strategy_from hash_type key =
     (if hash_type = ''url'' then HsUrl
      else if hash_type = ''ip'' then HsIp
      else if hash_type = ''header'' then HsHeader key
      else if hash_type = ''cookie'' then HsCookie key
      else if hash_type = ''query'' then HsQuery key
      else HsPath)"

definition or_empty :: "string option \<Rightarrow> string" where
  "or_empty v = (case v of Some s \<Rightarrow> s | None \<Rightarrow> [])"

definition hash_value ::
  "'n ipnet_lib \<Rightarrow> http_lib \<Rightarrow> 'n proxy_state \<Rightarrow> HashStrategy \<Rightarrow> http_session \<Rightarrow> string option
     \<Rightarrow> string \<times> string option" where
  "hash_value lib http ps strategy s client_ip =
     (case strategy of
        HsUrl \<Rightarrow> (wq_uri s, client_ip)
      | HsIp \<Rightarrow>
          (let client_ip = (case client_ip of None \<Rightarrow> Some (get_client_ip lib http ps (session.truncate s))
                            | Some ip \<Rightarrow> Some ip) in
           (or_empty client_ip, client_ip))
      | HsHeader key \<Rightarrow> (or_empty (get_req_header_value http (se_headers s) key), client_ip)
      | HsCookie key \<Rightarrow> (or_empty (get_cookie_value http (se_headers s) key), client_ip)
      | HsQuery key \<Rightarrow> (or_empty (get_query_value (wq_query s) key), client_ip)
      | HsPath \<Rightarrow> (wq_path s, client_ip))"

section \<open>Configuration\<close>

record upstream_conf =
  uc_addrs :: "string list"
  uc_discovery :: "string option"
  uc_algo :: "string option"
  uc_sni :: "string option"
  uc_alpn :: "string option"
  uc_enable_backend_stats :: "bool option"
  uc_backend_failure_status_code :: "string option"
  uc_backend_stats_interval :: "nat option"
  uc_max_consecutive_failures :: "u32 option"
  uc_max_failure_percent :: "u16 option"
  uc_min_requests_threshold :: "u64 option"
  uc_half_open_success_threshold :: "u32 option"
  uc_open_duration :: "nat option"

definition guess_discovery :: "upstream_conf \<Rightarrow> string" where
  "guess_discovery conf =
     (case uc_discovery conf of
        Some discovery \<Rightarrow> discovery
      | None \<Rightarrow>
          (if list_ex (\<lambda>addr. parse_addr (case split_once CHR '':'' addr of Some (host, _) \<Rightarrow> host | None \<Rightarrow> addr) = None)
                (uc_addrs conf)
           then ''dns'' else []))"

datatype ALPN = ALPN_H1 | ALPN_H2 | ALPN_H2H1

definition alpn_of :: "(string \<Rightarrow> string) \<Rightarrow> string option \<Rightarrow> ALPN" where
  "alpn_of to_uppercase alpn =
     (case alpn of
        Some a \<Rightarrow> (let u = to_uppercase a in
                   if u = ''H2H1'' then ALPN_H2H1 else if u = ''H2'' then ALPN_H2 else ALPN_H1)
      | None \<Rightarrow> ALPN_H1)"

definition failure_status_codes :: "upstream_conf \<Rightarrow> u16 list" where
  "failure_status_codes conf =
     List.map_filter (\<lambda>code. map_option of_nat (parse_uint 65535 (str_trim code)))
       (split_on CHR '','' (or_empty (uc_backend_failure_status_code conf)))"

definition or_default :: "'a option \<Rightarrow> 'a \<Rightarrow> 'a" where
  "or_default v d = (case v of Some x \<Rightarrow> x | None \<Rightarrow> d)"

definition circuit_breaker_of :: "upstream_conf \<Rightarrow> BackendCircuitStates option" where
  "circuit_breaker_of conf =
     (let max_consecutive_failures = or_default (uc_max_consecutive_failures conf) 0;
          max_failure_percent = or_default (uc_max_failure_percent conf) 0 in
      if max_consecutive_failures > 0 \<or> max_failure_percent > 0
      then Some (backend_circuit_states_new
        \<lparr>cb_max_consecutive_failures = max_consecutive_failures,
         cb_max_failure_percent = of_nat (unat max_failure_percent),
         cb_min_requests_threshold = or_default (uc_min_requests_threshold conf) 10,
         cb_half_open_consecutive_success_threshold = or_default (uc_half_open_success_threshold conf) 5,
         cb_open_duration = or_default (uc_open_duration conf) (10 * 10 ^ 9)\<rparr>)
      else None)"

datatype 'lb SelectionLb = RoundRobin 'lb | Consistent 'lb HashStrategy | Transparent

definition new_load_balancer ::
  "(upstream_conf \<Rightarrow> bool \<Rightarrow> ('lb, string) result) \<Rightarrow> upstream_conf \<Rightarrow> ('lb SelectionLb, string) result" where
  "new_load_balancer build conf =
     (if uc_addrs conf = [] then Err ''upstream addrs is empty''
      else if guess_discovery conf = ''transparent'' then Ok Transparent
      else (let parts = split_on CHR '':'' (or_default (uc_algo conf) ''round_robin'') in
            if hd parts = ''hash'' \<and> length parts \<ge> 2
            then result_bind (build conf True) (\<lambda>lb.
                   Ok (Consistent lb (hash_strategy_from (parts ! 1) (if length parts > 2 then parts ! 2 else []))))
            else result_bind (build conf False) (\<lambda>lb. Ok (RoundRobin lb))))"

section \<open>The upstream\<close>

record ('lb, 'r, 's) upstream =
  up_tls :: bool
  up_sni :: string
  up_lb :: "'lb SelectionLb"
  up_alpn :: ALPN
  up_processing :: "32 word"
  up_backend_stats :: "('r, 's) BackendStats option"
  up_circuit_breaker_states :: "BackendCircuitStates option"

definition upstream_new ::
  "'r rate_lib \<Rightarrow> 's status_lib \<Rightarrow> (string \<Rightarrow> string) \<Rightarrow> (upstream_conf \<Rightarrow> bool \<Rightarrow> ('lb, string) result)
     \<Rightarrow> upstream_conf \<Rightarrow> (('lb, 'r, 's) upstream, string) result" where
  "upstream_new rl sl to_uppercase build conf =
     result_bind (new_load_balancer build conf) (\<lambda>lb.
     Ok \<lparr>up_tls = (or_empty (uc_sni conf) \<noteq> []), up_sni = or_empty (uc_sni conf), up_lb = lb,
         up_alpn = alpn_of to_uppercase (uc_alpn conf), up_processing = 0,
         up_backend_stats =
           (if or_default (uc_enable_backend_stats conf) False
            then Some (backend_stats_new rl sl (or_default (uc_backend_stats_interval conf) (60 * 10 ^ 9))
                         (failure_status_codes conf))
            else None),
         up_circuit_breaker_states = circuit_breaker_of conf\<rparr>)"

definition accept_backend ::
  "nat \<Rightarrow> bool \<Rightarrow> string list \<Rightarrow> bool \<Rightarrow> ('lb, 'r, 's) upstream \<Rightarrow> bool \<times> ('lb, 'r, 's) upstream" where
  "accept_backend now contested backend healthy up =
     (if \<not> healthy then (False, up)
      else (case up_circuit_breaker_states up of
              None \<Rightarrow> (True, up)
            | Some states \<Rightarrow>
                (let (accepted, states) = is_backend_acceptable now contested backend states in
                 (accepted, up\<lparr>up_circuit_breaker_states := Some states\<rparr>))))"

text \<open>The candidates are tried in turn until one is accepted.\<close>

fun select_with ::
  "nat \<Rightarrow> bool \<Rightarrow> (string list \<times> bool) list \<Rightarrow> ('lb, 'r, 's) upstream \<Rightarrow> string list option \<times> ('lb, 'r, 's) upstream" where
  "select_with now contested [] up = (None, up)"
| "select_with now contested ((backend, healthy) # candidates) up =
     (case accept_backend now contested backend healthy up of
        (True, up') \<Rightarrow> (Some backend, up')
      | (False, up') \<Rightarrow> select_with now contested candidates up')"

record http_peer =
  peer_address :: string
  peer_tls :: bool
  peer_sni :: string

record ('lb, 'n) lb_world =
  lw_ipnet :: "'n ipnet_lib"
  lw_http :: http_lib
  lw_proxies :: "'n proxy_state"
  lw_candidates :: "'lb \<Rightarrow> string \<Rightarrow> nat \<Rightarrow> (string list \<times> bool) list"

definition new_http_peer ::
  "('lb, 'n) lb_world \<Rightarrow> nat \<Rightarrow> bool \<Rightarrow> http_session \<Rightarrow> string option \<Rightarrow> bool \<Rightarrow> ('lb, 'r, 's) upstream
     \<Rightarrow> http_peer option \<times> string option \<times> ('lb, 'r, 's) upstream" where
  "new_http_peer w now contested s client_ip count_processing up =
     (let (peer, client_ip, up) =
        (case up_lb up of
           RoundRobin lb \<Rightarrow>
             (let (b, up) = select_with now contested (lw_candidates w lb [] 4) up in
              (map_option (\<lambda>b. \<lparr>peer_address = concat b, peer_tls = up_tls up, peer_sni = up_sni up\<rparr>) b, client_ip, up))
         | Consistent lb strategy \<Rightarrow>
             (let (key, client_ip) = hash_value (lw_ipnet w) (lw_http w) (lw_proxies w) strategy s client_ip;
                  (b, up) = select_with now contested (lw_candidates w lb key 4) up in
              (map_option (\<lambda>b. \<lparr>peer_address = concat b, peer_tls = up_tls up, peer_sni = up_sni up\<rparr>) b, client_ip, up))
         | Transparent \<Rightarrow>
             (map_option (\<lambda>host.
                \<lparr>peer_address = host @ (if up_tls up then '':443'' else '':80''), peer_tls = up_tls up,
                 peer_sni = (if up_sni up = ''$host'' then host else up_sni up)\<rparr>)
                (get_host (lw_http w) (session.truncate s)), client_ip, up)) in
      (peer, client_ip,
       if peer \<noteq> None \<and> count_processing then up\<lparr>up_processing := up_processing up + 1\<rparr> else up))"

definition completed :: "('lb, 'r, 's) upstream \<Rightarrow> 32 word \<times> ('lb, 'r, 's) upstream" where
  "completed up = (up_processing up - 1, up\<lparr>up_processing := up_processing up - 1\<rparr>)"

definition report ::
  "'r rate_lib \<Rightarrow> nat \<Rightarrow> bool \<Rightarrow> string \<Rightarrow> bool \<Rightarrow> ('r, 's) BackendStats \<Rightarrow> ('lb, 'r, 's) upstream
     \<Rightarrow> ('lb, 'r, 's) upstream" where
  "report rl now contested address is_failure stats up =
     up\<lparr>up_backend_stats := Some stats,
        up_circuit_breaker_states :=
          map_option (update_state_after_request rl now contested address is_failure stats)
            (up_circuit_breaker_states up)\<rparr>"

definition on_transport_failure ::
  "'r rate_lib \<Rightarrow> nat \<Rightarrow> bool \<Rightarrow> string \<Rightarrow> ('lb, 'r, 's) upstream \<Rightarrow> ('lb, 'r, 's) upstream" where
  "on_transport_failure rl now contested address up =
     (case up_backend_stats up of
        None \<Rightarrow> up
      | Some stats \<Rightarrow>
          report rl now contested address True (stats_transport_failure rl now address stats) up)"

definition on_response ::
  "'r rate_lib \<Rightarrow> 's status_lib \<Rightarrow> nat \<Rightarrow> bool \<Rightarrow> string \<Rightarrow> 's \<Rightarrow> ('lb, 'r, 's) upstream \<Rightarrow> ('lb, 'r, 's) upstream" where
  "on_response rl sl now contested address status up =
     (case up_backend_stats up of
        None \<Rightarrow> up
      | Some stats \<Rightarrow>
          (let (is_failure, stats) = stats_response rl sl now address status stats in
           report rl now contested address is_failure stats up))"

text \<open>\<open>stats\<close>, whose reading of the counters is the part that changes the upstream.\<close>

definition upstream_stats ::
  "'r rate_lib \<Rightarrow> nat \<Rightarrow> string list option \<Rightarrow> ('lb, 'r, 's) upstream
     \<Rightarrow> ((string \<times> WindowStats) list \<times> (string \<times> u8) list) \<times> ('lb, 'r, 's) upstream" where
  "upstream_stats rl now backends up =
     (case backends of
        None \<Rightarrow> (([], []), up)
      | Some pool \<Rightarrow>
          (let (windows, up) =
             (case up_backend_stats up of
                None \<Rightarrow> ([], up)
              | Some bs \<Rightarrow> (let (windows, bs) = get_all_stats rl now pool bs in
                            (windows, up\<lparr>up_backend_stats := Some bs\<rparr>)));
               codes = (case up_circuit_breaker_states up of None \<Rightarrow> [] | Some st \<Rightarrow> get_all_state_codes st);
               codes = (case up_circuit_breaker_states up of
                          None \<Rightarrow> codes
                        | Some st \<Rightarrow>
                            foldl (\<lambda>codes a. if map_of codes a = None then AList.update a (get_state_code st a) codes
                                             else codes) codes pool) in
           ((windows, codes), up)))"

end
