(* ===== verification/Plugin_Registry.thy ===== *)
theory Plugin_Registry
  imports Plugin_Core Decimal Complex_Main "HOL-Library.AList"
begin

text \<open>
  The plugins of a configuration: which failures must not be served around
  (\<open>pingap-core/src/plugin.rs\<close>), and the provider that builds, publishes and resolves the plugins
  (\<open>src/plugin/mod.rs\<close>). A plugin table is the tree of its TOML and JSON forms. Plugin instances are
  opaque: their constructors, the hash of a configuration and the duration and method parsers are
  parameters.
\<close>

section \<open>What must not be served around\<close>

datatype json =
    JNull | JBool bool | JInt int | JFloat rat | JString string | JArray "json list" | JObject "(string \<times> json) list"

definition json_get :: "json \<Rightarrow> string \<Rightarrow> json option" where
  "json_get v key = (case v of JObject table \<Rightarrow> map_of table key | _ \<Rightarrow> None)"

definition as_bool :: "json \<Rightarrow> bool option" where
  "as_bool v = (case v of JBool b \<Rightarrow> Some b | _ \<Rightarrow> None)"

definition as_str :: "json \<Rightarrow> string option" where
  "as_str v = (case v of JString s \<Rightarrow> Some s | _ \<Rightarrow> None)"

definition as_u64 :: "json \<Rightarrow> nat option" where
  "as_u64 v = (case v of JInt n \<Rightarrow> if 0 \<le> n \<and> n < 2 ^ 64 then Some (nat n) else None | _ \<Rightarrow> None)"

definition get_bool :: "json \<Rightarrow> string \<Rightarrow> bool option" where
  "get_bool v key = Option.bind (json_get v key) as_bool"

definition get_str :: "json \<Rightarrow> string \<Rightarrow> string option" where
  "get_str v key = Option.bind (json_get v key) as_str"

definition is_security_enforcing :: "string \<Rightarrow> bool" where
  "is_security_enforcing category \<longleftrightarrow>
     category \<in> set [''waf'', ''acl'', ''bot'', ''access_list'', ''challenge'']"

record intent_world =
  iw_parse_duration :: "string \<Rightarrow> nat option"
  iw_method_ok :: "string \<Rightarrow> bool"
  iw_trusted_proxies :: bool

definition positive_duration :: "intent_world \<Rightarrow> json option \<Rightarrow> bool" where
  "positive_duration w v =
     (case Option.bind (Option.bind v as_str) (iw_parse_duration w) of Some d \<Rightarrow> d \<noteq> 0 | None \<Rightarrow> False)"

definition advisory_capacity :: "json \<Rightarrow> string \<Rightarrow> nat \<Rightarrow> nat option" where
  "advisory_capacity conf key dflt =
     (case (case json_get conf key of None \<Rightarrow> Some dflt | Some v \<Rightarrow> as_u64 v) of
        None \<Rightarrow> None
      | Some capacity \<Rightarrow> if capacity > 0 \<and> capacity \<le> usize_max then Some capacity else None)"

definition advisory_field :: "json option \<Rightarrow> string \<times> nat \<Rightarrow> nat option" where
  "advisory_field table = (\<lambda>(key, dflt).
     case Option.bind table (\<lambda>f. json_get f key) of
       None \<Rightarrow> Some dflt
     | Some v \<Rightarrow> Option.bind (as_u64 v) (\<lambda>n. if n < 256 then Some n else None))"

fun advisory_values :: "json option \<Rightarrow> (string \<times> nat) list \<Rightarrow> nat list option" where
  "advisory_values table [] = Some []"
| "advisory_values table (d # ds) =
     Option.bind (advisory_field table d) (\<lambda>v. map_option ((#) v) (advisory_values table ds))"

definition advisory_field_values :: "json option \<Rightarrow> (string \<times> nat) list \<Rightarrow> nat list option" where
  "advisory_field_values v defaults =
     (case v of
        None \<Rightarrow> advisory_values None defaults
      | Some (JObject table) \<Rightarrow> advisory_values (Some (JObject table)) defaults
      | Some _ \<Rightarrow> None)"

definition valid_advisory_behaviour_base :: "intent_world \<Rightarrow> json \<Rightarrow> bool" where
  "valid_advisory_behaviour_base w conf \<longleftrightarrow>
     (json_get conf ''window'' = None \<or> positive_duration w (json_get conf ''window'')) \<and>
     list_all (\<lambda>(key, dflt). advisory_capacity conf key dflt \<noteq> None)
       [(''max_clients'', 5000), (''max_url_keys'', 64), (''max_user_agents'', 8),
        (''max_interval_samples'', 32), (''min_samples'', 6), (''budget_ms'', 2)] \<and>
     (case json_get conf ''client_ip_from_peer'' of None \<Rightarrow> True | Some v \<Rightarrow> as_bool v \<noteq> None) \<and>
     (get_bool conf ''client_ip_from_peer'' = Some True \<or> iw_trusted_proxies w) \<and>
     (case json_get conf ''step'' of None \<Rightarrow> True | Some v \<Rightarrow> as_str v = Some ''request'') \<and>
     (case advisory_field_values (json_get conf ''weights'')
        [(''timing_regularity'', 25), (''url_entropy'', 20), (''request_diversity'', 20),
         (''request_speed'', 15), (''error_pattern'', 10), (''user_agent_consistency'', 10)] of
        None \<Rightarrow> False | Some ws \<Rightarrow> sum_list ws = 100) \<and>
     (case advisory_field_values (json_get conf ''thresholds'')
        [(''human'', 55), (''suspicious'', 40), (''bot'', 20)] of
        None \<Rightarrow> False | Some ts \<Rightarrow> ts ! 0 \<ge> ts ! 1 \<and> ts ! 1 \<ge> ts ! 2)"

definition valid_detect_scenario :: "intent_world \<Rightarrow> string \<Rightarrow> json \<Rightarrow> nat \<Rightarrow> bool" where
  "valid_detect_scenario w name v capacity \<longleftrightarrow>
     (case v of JObject _ \<Rightarrow>
        get_str v ''mode'' = Some ''detect'' \<and>
        (case Option.bind (json_get v ''threshold'') as_u64 of None \<Rightarrow> False | Some n \<Rightarrow> n \<noteq> 0 \<and> n \<le> capacity) \<and>
        positive_duration w (json_get v ''window'') \<and> positive_duration w (json_get v ''ban_ttl'') \<and>
        (name \<noteq> ''failed_login'' \<or>
         (case (get_str v ''path'', get_str v ''method'', json_get v ''statuses'') of
            (Some path, Some method, Some (JArray statuses)) \<Rightarrow>
              prefix ''/'' path \<and> CHR ''?'' \<notin> set path \<and> CHR ''#'' \<notin> set path \<and> iw_method_ok w method \<and>
              statuses \<noteq> [] \<and>
              list_all (\<lambda>status. case as_u64 status of Some code \<Rightarrow> 400 \<le> code \<and> code \<le> 599 | None \<Rightarrow> False) statuses
          | _ \<Rightarrow> False))
      | _ \<Rightarrow> False)"

definition behaviour_failure_intent :: "intent_world \<Rightarrow> json \<Rightarrow> json \<Rightarrow> bool" where
  "behaviour_failure_intent w conf abuse \<longleftrightarrow>
     (case get_str conf ''abuse_namespace'' of None \<Rightarrow> True | Some namespace \<Rightarrow> str_trim namespace = []) \<or>
     \<not> valid_advisory_behaviour_base w conf \<or>
     (case (advisory_capacity conf ''max_interval_samples'' 32, advisory_capacity conf ''max_url_keys'' 64) of
        (Some login_capacity, Some path_capacity) \<Rightarrow>
          (case json_get abuse ''failed_login'' of
             Some scenario \<Rightarrow> \<not> valid_detect_scenario w ''failed_login'' scenario login_capacity | None \<Rightarrow> False) \<or>
          (case json_get abuse ''scan'' of
             Some scenario \<Rightarrow> \<not> valid_detect_scenario w ''scan'' scenario path_capacity | None \<Rightarrow> False) \<or>
          json_get abuse ''failed_login'' = None \<and> json_get abuse ''scan'' = None
      | _ \<Rightarrow> True)"

definition security_failure_intent :: "intent_world \<Rightarrow> string \<Rightarrow> json \<Rightarrow> bool" where
  "security_failure_intent w category conf =
     (if category = ''limit'' then get_bool conf ''enforcement_required'' = Some True
      else if category \<noteq> ''behaviour'' then is_security_enforcing category
      else if get_bool conf ''enabled'' = Some False then False
      else (case json_get conf ''abuse'' of
              None \<Rightarrow> False
            | Some abuse \<Rightarrow>
                if get_bool conf ''enabled'' \<noteq> Some True then True
                else (case abuse of
                        JObject table \<Rightarrow>
                          if get_bool abuse ''enabled'' = Some False then False
                          else (case json_get abuse ''enabled'' of
                                  Some v \<Rightarrow> as_bool v = None \<or> behaviour_failure_intent w conf abuse
                                | None \<Rightarrow> list_ex (\<lambda>(key, _). key \<noteq> ''enabled'') table)
                      | _ \<Rightarrow> True)))"

section \<open>The provider\<close>

datatype PluginMiss = Unknown | Failed string string bool

record DesiredPolicy =
  dp_key :: string
  dp_category :: string
  dp_required :: bool

type_synonym plugin_conf = "(string \<times> json) list"

record 'p snapshot =
  sn_plugins :: "(string \<times> 'p) list"
  sn_failures :: "(string \<times> PluginMiss) list"
  sn_desired :: "(string \<times> DesiredPolicy) list"

record 'p registry_world =
  gw_intent :: intent_world
  gw_hash_key :: "plugin_conf \<Rightarrow> string"
  gw_create :: "plugin_conf \<Rightarrow> ('p, string) result"
  gw_config_key :: "'p \<Rightarrow> string"

definition conf_category :: "plugin_conf \<Rightarrow> string" where
  "conf_category conf = (case get_str (JObject conf) ''category'' of Some c \<Rightarrow> c | None \<Rightarrow> [])"

definition resolve :: "'p registry_world \<Rightarrow> 'p snapshot \<Rightarrow> string \<Rightarrow> ('p, PluginMiss) result" where
  "resolve w sn name =
     (let ready = (case map_of (sn_desired sn) name of
             Some desired \<Rightarrow>
               dp_required desired \<longrightarrow>
                 (case map_of (sn_plugins sn) name of
                    Some plugin \<Rightarrow> gw_config_key w plugin = dp_key desired | None \<Rightarrow> False)
           | None \<Rightarrow> True) in
      if \<not> ready
      then Err (Failed (case map_of (sn_desired sn) name of Some desired \<Rightarrow> dp_category desired | None \<Rightarrow> [])
                  ''required desired policy is unavailable or awaiting publication'' True)
      else (case map_of (sn_plugins sn) name of
              Some plugin \<Rightarrow> Ok plugin
            | None \<Rightarrow> Err (case map_of (sn_failures sn) name of Some miss \<Rightarrow> miss | None \<Rightarrow> Unknown)))"

definition provider_store :: "(string \<times> 'p) list \<Rightarrow> (string \<times> PluginMiss) list \<Rightarrow> 'p snapshot \<Rightarrow> 'p snapshot" where
  "provider_store data failures sn = sn\<lparr>sn_plugins := data, sn_failures := failures\<rparr>"

definition desired_policy :: "'p registry_world \<Rightarrow> plugin_conf \<Rightarrow> DesiredPolicy" where
  "desired_policy w conf =
     \<lparr>dp_key = gw_hash_key w conf, dp_category = conf_category conf,
      dp_required = security_failure_intent (gw_intent w) (conf_category conf) (JObject conf)\<rparr>"

definition stage_desired :: "'p registry_world \<Rightarrow> (string \<times> plugin_conf) list \<Rightarrow> 'p snapshot \<Rightarrow> 'p snapshot" where
  "stage_desired w configs sn = sn\<lparr>sn_desired := map (\<lambda>(name, conf). (name, desired_policy w conf)) configs\<rparr>"

text \<open>The profiles that claim a namespace; a namespace claimed twice builds none of them.\<close>

definition namespace_claims :: "(string \<times> plugin_conf) list \<Rightarrow> string \<Rightarrow> nat" where
  "namespace_claims configs namespace =
     length (filter (\<lambda>(_, conf).
       get_str (JObject conf) ''category'' = Some ''behaviour'' \<and>
       Option.bind (json_get (JObject conf) ''abuse'') (\<lambda>a. get_bool a ''enabled'') = Some True \<and>
       get_str (JObject conf) ''abuse_namespace'' = Some namespace) configs)"

definition claims_duplicate :: "(string \<times> plugin_conf) list \<Rightarrow> plugin_conf \<Rightarrow> bool" where
  "claims_duplicate configs conf =
     (case get_str (JObject conf) ''abuse_namespace'' of Some n \<Rightarrow> namespace_claims configs n > 1 | None \<Rightarrow> False)"

definition parse_plugin :: "'p registry_world \<Rightarrow> (string \<times> plugin_conf) list \<Rightarrow> plugin_conf \<Rightarrow> ('p, PluginMiss) result" where
  "parse_plugin w configs conf =
     (let category = conf_category conf in
      if category = [] then Err (Failed [] ''no category'' False)
      else map_err (\<lambda>e. Failed category e (security_failure_intent (gw_intent w) category (JObject conf)))
             (if category = ''behaviour'' \<and> claims_duplicate configs conf
              then Err ''abuse_namespace must be unique'' else gw_create w conf))"

definition parse_plugins ::
  "'p registry_world \<Rightarrow> (string \<times> plugin_conf) list \<Rightarrow> (string \<times> 'p) list \<times> (string \<times> PluginMiss) list" where
  "parse_plugins w configs =
     foldl (\<lambda>(plugins, failures) (name, conf).
        case parse_plugin w configs conf of
          Ok plugin \<Rightarrow> (AList.update name plugin plugins, failures)
        | Err miss \<Rightarrow> (plugins, AList.update name miss failures)) ([], []) configs"

text \<open>
  A reload: the desired policies are published first; instances whose configuration is unchanged are
  kept, the others are built; \<open>extra\<close> are the admin and built-in plugins.
\<close>

definition kept_plugin ::
  "'p registry_world \<Rightarrow> (string \<times> plugin_conf) list \<Rightarrow> 'p snapshot \<Rightarrow> string \<times> plugin_conf \<Rightarrow> 'p option" where
  "kept_plugin w configs sn = (\<lambda>(name, conf).
     case map_of (sn_plugins sn) name of
       Some plugin \<Rightarrow>
         if \<not> claims_duplicate configs conf \<and> gw_config_key w plugin = gw_hash_key w conf then Some plugin else None
     | None \<Rightarrow> None)"

definition try_init_plugins ::
  "'p registry_world \<Rightarrow> (string \<times> plugin_conf) list \<Rightarrow> (string \<times> plugin_conf) list \<Rightarrow> 'p snapshot
     \<Rightarrow> string list \<times> 'p snapshot" where
  "try_init_plugins w extra configs sn =
     (let sn = stage_desired w configs sn;
          all_configs = configs @ extra;
          kept = foldl (\<lambda>m (name, conf). case kept_plugin w configs sn (name, conf) of
                     Some plugin \<Rightarrow> AList.update name plugin m | None \<Rightarrow> m) [] all_configs;
          changed = filter (\<lambda>c. kept_plugin w configs sn c = None) all_configs;
          (built, failures) = parse_plugins w changed in
      (map fst changed, provider_store (AList.updates (map fst built) (map snd built) kept) failures sn))"

end
