(* ===== verification/Proxy.thy ===== *)
theory Proxy
  imports Routing Upstream Plugin_Registry
begin

text \<open>
  The request's way through the proxy (\<open>pingap-proxy/src/server.rs\<close>): the plugin chain of its
  location, the callbacks in the order \<open>pingora\<close> calls them, the choice of an upstream and the
  retries, the body limit, and the release of the counters. A plugin is an opaque instance with its
  handlers as parameters; the context fields that no callback modelled here reads are one component.
  Plugin timings, tracing and metrics are left out.
\<close>

section \<open>Errors and context\<close>

datatype error_type = HTTPStatus nat | ConnectTimedout | ConnectionClosed | OtherError

datatype error_source = FromUpstream | FromDownstream | Internal | Unset

record proxy_error =
  pe_type :: error_type
  pe_source :: error_source

definition new_internal_error :: "nat \<Rightarrow> proxy_error" where
  "new_internal_error status = \<lparr>pe_type = HTTPStatus status, pe_source = Unset\<rparr>"

definition error_code :: "proxy_error \<Rightarrow> nat" where
  "error_code e =
     (case pe_type e of
        HTTPStatus code \<Rightarrow> code
      | _ \<Rightarrow>
          (case pe_source e of
             FromUpstream \<Rightarrow> 502
           | FromDownstream \<Rightarrow>
               (case pe_type e of ConnectTimedout \<Rightarrow> 408 | ConnectionClosed \<Rightarrow> 499 | _ \<Rightarrow> 500)
           | _ \<Rightarrow> 500))"

record ('re, 'p, 'x) proxy_ctx = "'re route_ctx" +
  px_session :: http_session
  px_plugins :: "(string \<times> 'p) list option"
  px_early_handled :: bool
  px_status :: "nat option"
  px_sent :: "response list"
  px_payload_size :: nat
  px_upstream_name :: string
  px_upstream :: "string option"
  px_address :: string
  px_retries :: u8
  px_client_ip :: "string option"
  px_extensions :: 'x

text \<open>The handlers of a plugin; \<open>pw_send\<close> is the error of a response that cannot be written.\<close>

record ('re, 'p, 'x) plugin_world =
  pw_resolve :: "string \<Rightarrow> ('p, PluginMiss) result"
  pw_fails_open :: bool
  pw_request :: "'p \<Rightarrow> PluginStep \<Rightarrow> ('re, 'p, 'x) proxy_ctx
    \<Rightarrow> (request_result, proxy_error) result \<times> ('re, 'p, 'x) proxy_ctx"
  pw_request_body :: "bool \<Rightarrow> 'p \<Rightarrow> string option \<times> ('re, 'p, 'x) proxy_ctx
    \<Rightarrow> (unit, proxy_error) result \<times> string option \<times> ('re, 'p, 'x) proxy_ctx"
  pw_upstream_response :: "'p \<Rightarrow> ('re, 'p, 'x) proxy_ctx \<Rightarrow> (unit, proxy_error) result \<times> ('re, 'p, 'x) proxy_ctx"
  pw_response_body :: "bool \<Rightarrow> 'p \<Rightarrow> string option \<times> ('re, 'p, 'x) proxy_ctx
    \<Rightarrow> (unit, proxy_error) result \<times> string option \<times> ('re, 'p, 'x) proxy_ctx"
  pw_send :: "response \<Rightarrow> http_session \<Rightarrow> proxy_error option"
  pw_grpc_bridge :: bool
  pw_admin :: "'p option"
  pw_special :: "('re, 'p, 'x) proxy_ctx \<Rightarrow> ((bool, proxy_error) result \<times> ('re, 'p, 'x) proxy_ctx) option"
  pw_uri_from_str :: "string \<Rightarrow> (string option \<times> string \<times> string option, unit) result"

section \<open>The plugin chain\<close>

fun context_plugins ::
  "(string \<Rightarrow> ('p, PluginMiss) result) \<Rightarrow> bool \<Rightarrow> string list \<Rightarrow> ((string \<times> 'p) list, proxy_error) result" where
  "context_plugins res fails_open [] = Ok []"
| "context_plugins res fails_open (name # names) =
     (case res name of
        Ok plugin \<Rightarrow> result_bind (context_plugins res fails_open names) (\<lambda>ps. Ok ((name, plugin) # ps))
      | Err Unknown \<Rightarrow> context_plugins res fails_open names
      | Err (Failed category reason enforcement_required) \<Rightarrow>
          if \<not> enforcement_required \<and> \<not> is_security_enforcing category then context_plugins res fails_open names
          else if fails_open then context_plugins res fails_open names
          else Err (new_internal_error 503))"

definition get_context_plugins ::
  "('re, 'p, 'x) plugin_world \<Rightarrow> 're location \<Rightarrow> ((string \<times> 'p) list option, proxy_error) result" where
  "get_context_plugins w lo =
     (case lo_plugins lo of
        None \<Rightarrow> Ok None
      | Some names \<Rightarrow>
          result_bind (context_plugins (pw_resolve w) (pw_fails_open w) names)
            (\<lambda>ps. Ok (if ps = [] then None else Some ps)))"

fun run_request_plugins ::
  "('re, 'p, 'x) plugin_world \<Rightarrow> PluginStep \<Rightarrow> (string \<times> 'p) list \<Rightarrow> ('re, 'p, 'x) proxy_ctx
     \<Rightarrow> (bool, proxy_error) result \<times> ('re, 'p, 'x) proxy_ctx" where
  "run_request_plugins w step [] ctx = (Ok False, ctx)"
| "run_request_plugins w step ((name, plugin) # ps) ctx =
     (case pw_request w plugin step ctx of
        (Err e, ctx) \<Rightarrow> (Err e, ctx)
      | (Ok Skipped, ctx) \<Rightarrow> run_request_plugins w step ps ctx
      | (Ok Continue, ctx) \<Rightarrow> run_request_plugins w step ps ctx
      | (Ok (Respond resp), ctx) \<Rightarrow>
          if rsp_status resp < 900
          then (let ctx = ctx\<lparr>px_status := Some (rsp_status resp)\<rparr> in
                case pw_send w resp (px_session ctx) of
                  Some e \<Rightarrow> (Err e, ctx)
                | None \<Rightarrow> (Ok True, ctx\<lparr>px_sent := px_sent ctx @ [resp]\<rparr>))
          else (Ok True, ctx))"

definition handle_request_plugin ::
  "('re, 'p, 'x) plugin_world \<Rightarrow> PluginStep \<Rightarrow> ('re, 'p, 'x) proxy_ctx
     \<Rightarrow> (bool, proxy_error) result \<times> ('re, 'p, 'x) proxy_ctx" where
  "handle_request_plugin w step ctx =
     (case px_plugins ctx of
        None \<Rightarrow> (Ok False, ctx)
      | Some ps \<Rightarrow>
          if ps = [] then (Ok False, ctx\<lparr>px_plugins := None\<rparr>)
          else (let (r, ctx) = run_request_plugins w step ps (ctx\<lparr>px_plugins := None\<rparr>) in
                (r, ctx\<lparr>px_plugins := Some ps\<rparr>)))"

text \<open>The other chains stop at the first error.\<close>

fun run_chain :: "('p \<Rightarrow> 'a \<Rightarrow> (unit, 'e) result \<times> 'a) \<Rightarrow> (string \<times> 'p) list \<Rightarrow> 'a \<Rightarrow> (unit, 'e) result \<times> 'a" where
  "run_chain f [] x = (Ok (), x)"
| "run_chain f ((name, plugin) # ps) x =
     (case f plugin x of (Err e, x) \<Rightarrow> (Err e, x) | (Ok _, x) \<Rightarrow> run_chain f ps x)"

definition handle_request_body_plugin ::
  "('re, 'p, 'x) plugin_world \<Rightarrow> bool \<Rightarrow> string option \<Rightarrow> ('re, 'p, 'x) proxy_ctx
     \<Rightarrow> (unit, proxy_error) result \<times> string option \<times> ('re, 'p, 'x) proxy_ctx" where
  "handle_request_body_plugin w eos body ctx =
     (case px_plugins ctx of
        None \<Rightarrow> (Ok (), body, ctx)
      | Some ps \<Rightarrow>
          (let (r, body, ctx) = run_chain (pw_request_body w eos) ps (body, ctx\<lparr>px_plugins := None\<rparr>) in
           (r, body, ctx\<lparr>px_plugins := Some ps\<rparr>)))"

text \<open>On the response side an error leaves the function before the chain is put back.\<close>

definition handle_upstream_response_plugin ::
  "('re, 'p, 'x) plugin_world \<Rightarrow> ('re, 'p, 'x) proxy_ctx \<Rightarrow> (unit, proxy_error) result \<times> ('re, 'p, 'x) proxy_ctx" where
  "handle_upstream_response_plugin w ctx =
     (case px_plugins ctx of
        None \<Rightarrow> (Ok (), ctx)
      | Some ps \<Rightarrow>
          if ps = [] then (Ok (), ctx\<lparr>px_plugins := None\<rparr>)
          else (case run_chain (pw_upstream_response w) ps (ctx\<lparr>px_plugins := None\<rparr>) of
                  (Err e, ctx) \<Rightarrow> (Err e, ctx)
                | (Ok _, ctx) \<Rightarrow> (Ok (), ctx\<lparr>px_plugins := Some ps\<rparr>)))"

definition handle_response_body_plugin ::
  "('re, 'p, 'x) plugin_world \<Rightarrow> bool \<Rightarrow> bool \<Rightarrow> string option \<Rightarrow> ('re, 'p, 'x) proxy_ctx
     \<Rightarrow> (unit, proxy_error) result \<times> string option \<times> ('re, 'p, 'x) proxy_ctx" where
  "handle_response_body_plugin w was_upgraded eos body ctx =
     (if was_upgraded then (Ok (), body, ctx)
      else (case px_plugins ctx of
              None \<Rightarrow> (Ok (), body, ctx)
            | Some ps \<Rightarrow>
                if ps = [] then (Ok (), body, ctx\<lparr>px_plugins := None\<rparr>)
                else (case run_chain (pw_response_body w eos) ps (body, ctx\<lparr>px_plugins := None\<rparr>) of
                        (Err e, body, ctx) \<Rightarrow> (Err e, body, ctx)
                      | (Ok _, body, ctx) \<Rightarrow> (Ok (), body, ctx\<lparr>px_plugins := Some ps\<rparr>))))"

section \<open>Request callbacks\<close>

definition find_and_apply_location ::
  "'re route_world \<Rightarrow> ('re, 'p, 'x) plugin_world \<Rightarrow> server_route option \<Rightarrow> (nat \<Rightarrow> u64)
     \<Rightarrow> ('re, 'p, 'x) proxy_ctx \<times> (string \<times> location_counters) list
     \<Rightarrow> (unit, proxy_error) result \<times> ('re, 'p, 'x) proxy_ctx \<times> (string \<times> location_counters) list" where
  "find_and_apply_location rw w route gen = (\<lambda>(ctx, ks).
     case admit_to_location rw route gen (px_session ctx) (ctx, ks) of
       (Err status, ctx, ks) \<Rightarrow> (Err (new_internal_error status), ctx, ks)
     | (Ok None, ctx, ks) \<Rightarrow> (Ok (), ctx, ks)
     | (Ok (Some lo), ctx, ks) \<Rightarrow>
         if lo_grpc_web lo \<and> \<not> pw_grpc_bridge w then (Err (new_internal_error 500), ctx, ks)
         else (case get_context_plugins w lo of
                 Err e \<Rightarrow> (Err e, ctx, ks)
               | Ok ps \<Rightarrow>
                   (case handle_request_plugin w EarlyRequest (ctx\<lparr>px_plugins := ps\<rparr>) of
                      (Err e, ctx) \<Rightarrow> (Err e, ctx, ks)
                    | (Ok handled, ctx) \<Rightarrow> (Ok (), ctx\<lparr>px_early_handled := handled\<rparr>, ks))))"

definition handle_standard_request ::
  "'re route_world \<Rightarrow> ('re, 'p, 'x) plugin_world \<Rightarrow> ('re, 'p, 'x) proxy_ctx
     \<Rightarrow> (bool, proxy_error) result \<times> ('re, 'p, 'x) proxy_ctx" where
  "handle_standard_request rw w ctx =
     (case rx_location ctx of
        None \<Rightarrow> (Err (new_internal_error 500), ctx)
      | Some lo \<Rightarrow>
          (let ((_, vars), s) = rewrite (rw_regex rw) (pw_uri_from_str w) lo (px_session ctx) (rx_variables ctx);
               ctx = ctx\<lparr>rx_variables := None, px_session := s\<rparr>;
               ctx = (case vars of Some vs \<Rightarrow> extend_variables vs ctx | None \<Rightarrow> ctx) in
           handle_request_plugin w Request ctx))"

definition serve_admin ::
  "('re, 'p, 'x) plugin_world \<Rightarrow> 'p \<Rightarrow> ('re, 'p, 'x) proxy_ctx
     \<Rightarrow> (bool, proxy_error) result \<times> ('re, 'p, 'x) proxy_ctx" where
  "serve_admin w plugin ctx =
     (case pw_request w plugin Request ctx of
        (Err e, ctx) \<Rightarrow> (Err e, ctx)
      | (Ok (Respond resp), ctx) \<Rightarrow>
          (let ctx = ctx\<lparr>px_status := Some (rsp_status resp)\<rparr> in
           case pw_send w resp (px_session ctx) of
             Some e \<Rightarrow> (Err e, ctx)
           | None \<Rightarrow> (Ok True, ctx\<lparr>px_sent := px_sent ctx @ [resp]\<rparr>))
      | (Ok _, ctx) \<Rightarrow> (Ok False, ctx))"

definition request_filter ::
  "'re route_world \<Rightarrow> ('re, 'p, 'x) plugin_world \<Rightarrow> ('re, 'p, 'x) proxy_ctx
     \<Rightarrow> (bool, proxy_error) result \<times> ('re, 'p, 'x) proxy_ctx" where
  "request_filter rw w ctx =
     (if px_early_handled ctx then (Ok True, ctx)
      else (let (admin, ctx) = (case pw_admin w of Some plugin \<Rightarrow> serve_admin w plugin ctx | None \<Rightarrow> (Ok False, ctx)) in
            if admin \<noteq> Ok False then (admin, ctx)
            else (case pw_special w ctx of
                    Some handled \<Rightarrow> handled
                  | None \<Rightarrow> handle_standard_request rw w ctx)))"

definition proxy_upstream_filter ::
  "('re, 'p, 'x) plugin_world \<Rightarrow> ('re, 'p, 'x) proxy_ctx \<Rightarrow> (bool, proxy_error) result \<times> ('re, 'p, 'x) proxy_ctx" where
  "proxy_upstream_filter w ctx =
     (case handle_request_plugin w ProxyUpstream ctx of
        (Err e, ctx) \<Rightarrow> (Err e, ctx) | (Ok handled, ctx) \<Rightarrow> (Ok (\<not> handled), ctx))"

definition request_body_filter ::
  "('re, 'p, 'x) plugin_world \<Rightarrow> string option \<times> bool \<Rightarrow> ('re, 'p, 'x) proxy_ctx
     \<Rightarrow> (unit, proxy_error) result \<times> string option \<times> ('re, 'p, 'x) proxy_ctx" where
  "request_body_filter w = (\<lambda>(body, eos) ctx.
     let ctx = (case body of Some buf \<Rightarrow> ctx\<lparr>px_payload_size := px_payload_size ctx + length buf\<rparr> | None \<Rightarrow> ctx) in
     case (body, rx_location ctx) of
       (Some _, Some lo) \<Rightarrow>
         if lo_client_max_body_size lo > 0 \<and> px_payload_size ctx > lo_client_max_body_size lo
         then (Err (new_internal_error 413), body, ctx)
         else handle_request_body_plugin w eos body ctx
     | _ \<Rightarrow> handle_request_body_plugin w eos body ctx)"

section \<open>Upstreams\<close>

type_synonym ('lb, 'r, 's) upstreams = "(string \<times> ('lb, 'r, 's) upstream) list"

definition get_variable :: "('re, 'z) route_ctx_scheme \<Rightarrow> string \<Rightarrow> string option" where
  "get_variable ctx key = (case rx_variables ctx of Some vs \<Rightarrow> map_of vs key | None \<Rightarrow> None)"

definition upstream_key :: "string \<Rightarrow> ('re, 'z) route_ctx_scheme \<Rightarrow> string" where
  "upstream_key name ctx =
     (case Option.bind (strip_prefix ''$'' name) (get_variable ctx) of Some key \<Rightarrow> key | None \<Rightarrow> name)"

definition upstream_peer ::
  "('lb, 'n) lb_world \<Rightarrow> nat \<Rightarrow> bool \<Rightarrow> ('re, 'p, 'x) proxy_ctx \<times> ('lb, 'r, 's) upstreams
     \<Rightarrow> (http_peer, proxy_error) result \<times> ('re, 'p, 'x) proxy_ctx \<times> ('lb, 'r, 's) upstreams" where
  "upstream_peer lw now contested = (\<lambda>(ctx, ups).
     case rx_location ctx of
       None \<Rightarrow> (Err (new_internal_error 503), ctx, ups)
     | Some lo \<Rightarrow>
         (let key = upstream_key (if px_upstream_name ctx = [] then lo_upstream lo else px_upstream_name ctx) ctx in
          case map_of ups key of
            None \<Rightarrow> (Err (new_internal_error 503), ctx, ups)
          | Some up \<Rightarrow>
              (let (peer, client_ip, up) =
                     new_http_peer lw now contested (px_session ctx) (px_client_ip ctx) (px_retries ctx = 0) up;
                   ctx = ctx\<lparr>px_upstream := Some key, px_upstream_name := key, px_client_ip := client_ip\<rparr>;
                   ups = AList.update key up ups in
               case peer of
                 None \<Rightarrow> (Err (new_internal_error 503), ctx, ups)
               | Some peer \<Rightarrow> (Ok peer, ctx\<lparr>px_address := peer_address peer\<rparr>, ups))))"

definition fail_to_connect ::
  "'r rate_lib \<Rightarrow> nat \<Rightarrow> bool \<Rightarrow> nat \<Rightarrow> http_peer \<Rightarrow> ('re, 'p, 'x) proxy_ctx \<times> ('lb, 'r, 's) upstreams
     \<Rightarrow> bool \<times> ('re, 'p, 'x) proxy_ctx \<times> ('lb, 'r, 's) upstreams" where
  "fail_to_connect rl now contested elapsed peer = (\<lambda>(ctx, ups).
     let ups = (case px_upstream ctx of
            None \<Rightarrow> ups
          | Some key \<Rightarrow>
              (case map_of ups key of
                 None \<Rightarrow> ups
               | Some up \<Rightarrow> AList.update key (on_transport_failure rl now contested (peer_address peer) up) ups)) in
     case rx_max_retries ctx of
       None \<Rightarrow> (False, ctx, ups)
     | Some max_retries \<Rightarrow>
         if px_retries ctx \<ge> max_retries then (False, ctx, ups)
         else if (case rx_max_retry_window ctx of Some window \<Rightarrow> elapsed > window | None \<Rightarrow> False) then (False, ctx, ups)
         else (True, ctx\<lparr>px_retries := px_retries ctx + 1\<rparr>, ups))"

definition upstream_response_filter ::
  "('re, 'p, 'x) plugin_world \<Rightarrow> 'r rate_lib \<Rightarrow> 's status_lib \<Rightarrow> nat \<Rightarrow> bool \<Rightarrow> 's \<Rightarrow> nat
     \<Rightarrow> ('re, 'p, 'x) proxy_ctx \<times> ('lb, 'r, 's) upstreams
     \<Rightarrow> (unit, proxy_error) result \<times> ('re, 'p, 'x) proxy_ctx \<times> ('lb, 'r, 's) upstreams" where
  "upstream_response_filter w rl sl now contested status code = (\<lambda>(ctx, ups).
     case handle_upstream_response_plugin w ctx of
       (Err e, ctx) \<Rightarrow> (Err e, ctx, ups)
     | (Ok _, ctx) \<Rightarrow>
         (Ok (), ctx\<lparr>px_status := (case px_status ctx of None \<Rightarrow> Some code | Some c \<Rightarrow> Some c)\<rparr>,
          case px_upstream ctx of
            None \<Rightarrow> ups
          | Some key \<Rightarrow>
              (case map_of ups key of
                 None \<Rightarrow> ups
               | Some up \<Rightarrow> AList.update key (on_response rl sl now contested (px_address ctx) status up) ups)))"

text \<open>What the end of the request releases.\<close>

definition logging ::
  "('re, 'p, 'x) proxy_ctx \<Rightarrow> (string \<times> location_counters) list \<times> ('lb, 'r, 's) upstreams
     \<Rightarrow> (string \<times> location_counters) list \<times> ('lb, 'r, 's) upstreams" where
  "logging ctx = (\<lambda>(ks, ups).
     (release_location ctx ks,
      case px_upstream ctx of
        None \<Rightarrow> ups
      | Some key \<Rightarrow>
          (case map_of ups key of None \<Rightarrow> ups | Some up \<Rightarrow> AList.update key (snd (completed up)) ups)))"

section \<open>The life of a request\<close>

text \<open>
  The order in which \<open>pingora\<close> calls the callbacks: \<open>early_request_filter\<close>, \<open>request_filter\<close> and
  \<open>proxy_upstream_filter\<close>, where an error ends the request and an answer does not go on to the
  upstream.
\<close>

datatype request_outcome = Refused proxy_error | Answered | ToUpstream

definition serve_request ::
  "'re route_world \<Rightarrow> ('re, 'p, 'x) plugin_world \<Rightarrow> server_route option \<Rightarrow> (nat \<Rightarrow> u64)
     \<Rightarrow> ('re, 'p, 'x) proxy_ctx \<times> (string \<times> location_counters) list
     \<Rightarrow> request_outcome \<times> ('re, 'p, 'x) proxy_ctx \<times> (string \<times> location_counters) list" where
  "serve_request rw w route gen st =
     (case find_and_apply_location rw w route gen st of
        (Err e, ctx, ks) \<Rightarrow> (Refused e, ctx, ks)
      | (Ok _, ctx, ks) \<Rightarrow>
          (case request_filter rw w ctx of
             (Err e, ctx) \<Rightarrow> (Refused e, ctx, ks)
           | (Ok True, ctx) \<Rightarrow> (Answered, ctx, ks)
           | (Ok False, ctx) \<Rightarrow>
               (case proxy_upstream_filter w ctx of
                  (Err e, ctx) \<Rightarrow> (Refused e, ctx, ks)
                | (Ok False, ctx) \<Rightarrow> (Answered, ctx, ks)
                | (Ok True, ctx) \<Rightarrow> (ToUpstream, ctx, ks))))"

text \<open>
  The attempts to reach an upstream: a failed connection is tried again when \<open>fail_to_connect\<close> says
  so. \<open>env n\<close> is what the attempt after \<open>n\<close> retries meets: the load balancer's candidates, the
  clock, a contended breaker entry, the time since the request began, and which peers answer.
\<close>

record ('lb, 'n) attempt_env =
  ae_lb :: "('lb, 'n) lb_world"
  ae_now :: nat
  ae_contested :: bool
  ae_elapsed :: nat
  ae_connects :: "http_peer \<Rightarrow> bool"

definition one_attempt ::
  "'r rate_lib \<Rightarrow> (u8 \<Rightarrow> ('lb, 'n) attempt_env) \<Rightarrow> ('re, 'p, 'x) proxy_ctx \<times> ('lb, 'r, 's) upstreams
     \<Rightarrow> bool \<times> http_peer option \<times> ('re, 'p, 'x) proxy_ctx \<times> ('lb, 'r, 's) upstreams" where
  "one_attempt rl env = (\<lambda>(ctx, ups).
     let e = env (px_retries ctx) in
     case upstream_peer (ae_lb e) (ae_now e) (ae_contested e) (ctx, ups) of
       (Err _, ctx, ups) \<Rightarrow> (False, None, ctx, ups)
     | (Ok peer, ctx, ups) \<Rightarrow>
         if ae_connects e peer then (False, Some peer, ctx, ups)
         else (let (again, ctx, ups) = fail_to_connect rl (ae_now e) (ae_contested e) (ae_elapsed e) peer (ctx, ups) in
               (again, None, ctx, ups)))"

definition retries_left :: "('re, 'p, 'x) proxy_ctx \<Rightarrow> nat" where
  "retries_left ctx = (case rx_max_retries ctx of None \<Rightarrow> 0 | Some m \<Rightarrow> unat m - unat (px_retries ctx))"

lemma upstream_peer_keeps:
  assumes "upstream_peer lw now contested (ctx, ups) = (r, ctx', ups')"
  shows "rx_max_retries ctx' = rx_max_retries ctx" "px_retries ctx' = px_retries ctx"
    "rx_location ctx' = rx_location ctx" "rx_variables ctx' = rx_variables ctx"
  using assms by (auto simp: upstream_peer_def Let_def split: option.splits prod.splits)

lemma fail_to_connect_again:
  assumes "fail_to_connect rl now contested elapsed peer (ctx, ups) = (True, ctx', ups')"
  shows "px_retries ctx' = px_retries ctx + 1" "rx_max_retries ctx' = rx_max_retries ctx"
    "\<exists>m. rx_max_retries ctx = Some m \<and> px_retries ctx < m"
  using assms by (auto simp: fail_to_connect_def Let_def not_le split: option.splits if_splits)

lemma one_attempt_left:
  assumes "one_attempt rl env (ctx, ups) = (True, peer, ctx', ups')"
  shows "retries_left ctx' < retries_left ctx" "px_retries ctx' \<noteq> 0"
proof -
  let ?e = "env (px_retries ctx)"
  from assms obtain p c1 u1 where u: "upstream_peer (ae_lb ?e) (ae_now ?e) (ae_contested ?e) (ctx, ups) = (Ok p, c1, u1)"
    and f: "fail_to_connect rl (ae_now ?e) (ae_contested ?e) (ae_elapsed ?e) p (c1, u1) = (True, ctx', ups')"
    unfolding one_attempt_def by (auto simp: Let_def split: result.splits prod.splits if_splits)
  note keep = upstream_peer_keeps [OF u] and again = fail_to_connect_again [OF f]
  from again(3) obtain m where m: "rx_max_retries c1 = Some m" "px_retries c1 < m" by blast
  have "unat m < 256" using unsigned_less [of m, where ?'a = nat] by simp
  with m(2) have "unat (px_retries c1 + 1) = unat (px_retries c1) + 1"
    by (simp add: unat_word_ariths word_less_nat_alt)
  then show "retries_left ctx' < retries_left ctx" "px_retries ctx' \<noteq> 0"
    using m keep again by (auto simp: retries_left_def word_less_nat_alt)
qed

function proxy_attempts ::
  "'r rate_lib \<Rightarrow> (u8 \<Rightarrow> ('lb, 'n) attempt_env) \<Rightarrow> ('re, 'p, 'x) proxy_ctx \<times> ('lb, 'r, 's) upstreams
     \<Rightarrow> nat \<times> http_peer option \<times> ('re, 'p, 'x) proxy_ctx \<times> ('lb, 'r, 's) upstreams" where
  "proxy_attempts rl env st =
     (case one_attempt rl env st of
        (False, peer, st) \<Rightarrow> (1, peer, st)
      | (True, _, st) \<Rightarrow> (let (n, r) = proxy_attempts rl env st in (n + 1, r)))"
  by pat_completeness auto
termination
  by (relation "measure (\<lambda>(rl, env, ctx, ups). retries_left ctx)") (auto dest: one_attempt_left(1) [OF sym])

declare proxy_attempts.simps [simp del]

end
