(* ===== verification/Upstream_Props.thy ===== *)
theory Upstream_Props
  imports Upstream
begin

text \<open>
  The circuit breaker as a state machine over one address: the steps of the proxy as an inductive
  relation that also counts the requests still unanswered, its invariant, and what it means for
  recovery.
\<close>

section \<open>One backend\<close>


lemma unat_Suc_less: "(p :: u32) < th \<Longrightarrow> unat (p + 1) = Suc (unat p)"
  using unat_less_exp [of th] by (simp add: word_less_nat_alt unat_word_ariths)





section \<open>One address of an upstream\<close>

lemma get_or_create_map_of:
  assumes "get_or_create_backend_circuit_state now k bcs = (st, bcs')"
  shows "bcs_config bcs' = bcs_config bcs"
    and "st = (case map_of (bcs_backend_states bcs) k of Some st \<Rightarrow> st | None \<Rightarrow> backend_circuit_state_new now)"
    and "a \<noteq> k \<Longrightarrow> map_of (bcs_backend_states bcs') a = map_of (bcs_backend_states bcs) a"
  using assms by (auto simp: get_or_create_backend_circuit_state_def Let_def update_conv' split: option.splits)

lemma put_state_map_of [simp]:
  "map_of (bcs_backend_states (put_state k st bcs)) a = (if a = k then Some st else map_of (bcs_backend_states bcs) a)"
  "bcs_config (put_state k st bcs) = bcs_config bcs"
  by (simp_all add: put_state_def update_conv')

definition circuit_at :: "nat \<Rightarrow> BackendCircuitStates \<Rightarrow> string \<Rightarrow> BackendCircuitState" where
  "circuit_at now bcs a =
     (case map_of (bcs_backend_states bcs) a of Some st \<Rightarrow> st | None \<Rightarrow> backend_circuit_state_new now)"

lemma is_backend_acceptable_at:
  assumes "is_backend_acceptable now contested b bcs = (accepted, bcs')"
  shows "bcs_config bcs' = bcs_config bcs"
    and "judge_state (bcs_config bcs) now contested (circuit_at now bcs (addr_key b)) =
      (accepted, circuit_at now' bcs' (addr_key b))"
    and "a \<noteq> addr_key b \<Longrightarrow> circuit_at now' bcs' a = circuit_at now' bcs a"
proof -
  obtain st bcs1 where g: "get_or_create_backend_circuit_state now (addr_key b) bcs = (st, bcs1)"
    by (cases "get_or_create_backend_circuit_state now (addr_key b) bcs")
  note get_or_create_map_of [OF g] and assms [unfolded is_backend_acceptable_def Let_def g]
  then show "bcs_config bcs' = bcs_config bcs"
    and "judge_state (bcs_config bcs) now contested (circuit_at now bcs (addr_key b)) =
      (accepted, circuit_at now' bcs' (addr_key b))"
    and "a \<noteq> addr_key b \<Longrightarrow> circuit_at now' bcs' a = circuit_at now' bcs a"
    by (auto simp: circuit_at_def split: prod.splits)
qed

lemma update_after_request_at:
  assumes "update_state_after_request rl now contested k failure stats bcs = bcs'"
  shows "bcs_config bcs' = bcs_config bcs"
    and "circuit_at now' bcs' k =
      update_state rl now contested (bcs_config bcs) k failure stats (circuit_at now bcs k)"
    and "a \<noteq> k \<Longrightarrow> circuit_at now' bcs' a = circuit_at now' bcs a"
proof -
  obtain st bcs1 where g: "get_or_create_backend_circuit_state now k bcs = (st, bcs1)"
    by (cases "get_or_create_backend_circuit_state now k bcs")
  note get_or_create_map_of [OF g] and assms [unfolded update_state_after_request_def Let_def g, symmetric]
  then show "bcs_config bcs' = bcs_config bcs"
    and "circuit_at now' bcs' k =
      update_state rl now contested (bcs_config bcs) k failure stats (circuit_at now bcs k)"
    and "a \<noteq> k \<Longrightarrow> circuit_at now' bcs' a = circuit_at now' bcs a"
    by (auto simp: circuit_at_def)
qed

section \<open>Steps\<close>







section \<open>Recovery\<close>






section \<open>Probes\<close>

text \<open>Requests for one backend at the given times, with the lock free, and nothing reported between them.\<close>

fun arrivals :: "string list \<Rightarrow> nat list \<Rightarrow> ('lb, 'r, 's) upstream \<Rightarrow> bool list \<times> ('lb, 'r, 's) upstream" where
  "arrivals b [] up = ([], up)"
| "arrivals b (t # ts) up =
     (case accept_backend t False b True up of (passed, up') \<Rightarrow>
        (case arrivals b ts up' of (passes, up'') \<Rightarrow> (passed # passes, up'')))"

definition probes_left :: "('lb, 'r, 's) upstream \<Rightarrow> string \<Rightarrow> nat" where
  "probes_left up a =
     (case up_circuit_breaker_states up of
        None \<Rightarrow> 0
      | Some bcs \<Rightarrow> unat (cb_half_open_consecutive_success_threshold (bcs_config bcs)) -
                     unat (bd_probes_sent (bc_data (circuit_at 0 bcs a))))"

definition half_open :: "('lb, 'r, 's) upstream \<Rightarrow> string \<Rightarrow> bool" where
  "half_open up a = (case up_circuit_breaker_states up of
     None \<Rightarrow> False | Some bcs \<Rightarrow> get_state_code bcs a = STATE_HALF_OPEN)"

lemma half_open_arrival:
  assumes "half_open up (addr_key b)" and "accept_backend t False b True up = (passed, up')"
  shows "half_open up' (addr_key b)" "passed = (0 < probes_left up (addr_key b))"
    "probes_left up' (addr_key b) = probes_left up (addr_key b) - 1"
proof -
  obtain bcs st where bcs: "up_circuit_breaker_states up = Some bcs"
    and st: "map_of (bcs_backend_states bcs) (addr_key b) = Some st" "bc_current_state st = STATE_HALF_OPEN"
    using assms(1) by (auto simp: half_open_def get_state_code_def state_codes split: option.splits)
  obtain bcs' where acc: "is_backend_acceptable t False b bcs = (passed, bcs')"
    and up': "up' = up\<lparr>up_circuit_breaker_states := Some bcs'\<rparr>"
    using assms(2) bcs by (auto simp: accept_backend_def Let_def split: prod.splits)
  note at = is_backend_acceptable_at [OF acc]
  have "map_of (bcs_backend_states bcs') (addr_key b) \<noteq> None"
    using acc by (auto simp: is_backend_acceptable_def Let_def split: prod.splits)
  then obtain st' where st': "map_of (bcs_backend_states bcs') (addr_key b) = Some st'" by blast
  then have j: "check_half_open_state_non_blocking (bcs_config bcs) False st = (passed, st')"
    using at(2) [of 0] st by (simp add: circuit_at_def judge_state_def state_codes)
  show "half_open up' (addr_key b)" "passed = (0 < probes_left up (addr_key b))"
    "probes_left up' (addr_key b) = probes_left up (addr_key b) - 1"
    using j st st' at(1) bcs
      unat_Suc_less [of "bd_probes_sent (bc_data st)" "cb_half_open_consecutive_success_threshold (bcs_config bcs)"]
    by (auto simp: half_open_def probes_left_def up' get_state_code_def circuit_at_def word_less_nat_alt
        check_half_open_state_non_blocking_def split: if_splits)
qed

text \<open>
  C36: a half-open breaker lets through exactly the probes it has left. Of requests that arrive while it
  is half open and whose outcome is never reported, the first are let through until the threshold of
  probes is sent, and every later one is refused, at whatever time it arrives: a half-open breaker
  whose probes get no answer stays shut for good.
\<close>

theorem breaker_probe_budget:
  assumes "half_open up (addr_key b)"
  shows "fst (arrivals b ts up) = map (\<lambda>i. i < probes_left up (addr_key b)) [0..<length ts]"
  using assms
proof (induction ts arbitrary: up)
  case (Cons t ts)
  obtain passed up' where step: "accept_backend t False b True up = (passed, up')" by fastforce
  note h = half_open_arrival [OF Cons.prems step]
  have "map (\<lambda>i. i < probes_left up (addr_key b)) [0..<length (t # ts)] =
      (0 < probes_left up (addr_key b)) # map (\<lambda>i. i < probes_left up (addr_key b) - 1) [0..<length ts]"
    by (auto simp: map_upt_Suc simp del: upt_Suc)
  with Cons.IH [OF h(1)] h(2,3) show ?case
    by (cases "arrivals b ts up'") (simp add: step)
qed simp

section \<open>Tripping\<close>

text \<open>
  A breaker configured by consecutive failures alone trips on a single failed answer. The unset
  failure percentage is read as 0, which every failure rate reaches: as soon as the window holds the
  minimum number of requests (10 unless set), one failed answer to a closed backend trips its breaker,
  whatever number of consecutive failures the configuration asks for. It trips into the half-open
  state, so the next requests still reach the backend.
\<close>

theorem breaker_trips_on_one_failure:
  assumes "0 < n" and "uc_max_consecutive_failures conf = Some n" and "uc_max_failure_percent conf = None"
    and "circuit_breaker_of conf = Some bcs0" and "bcs_config bcs = bcs_config bcs0"
    and "get_state_code bcs a = STATE_CLOSED"
    and "or_default (uc_min_requests_threshold conf) 10 \<le> win_total_requests (get_window_stats rl now stats a)"
    and "0 \<le> win_failure_rate_percent (get_window_stats rl now stats a)"
  shows "get_state_code (update_state_after_request rl now False a True stats bcs) a = STATE_HALF_OPEN"
proof -
  have config: "cb_max_failure_percent (bcs_config bcs) = 0"
    "cb_min_requests_threshold (bcs_config bcs) = or_default (uc_min_requests_threshold conf) 10"
    using assms(1-5)
    by (auto simp: circuit_breaker_of_def Let_def or_default_def backend_circuit_states_new_def split: if_splits)
  have "bc_current_state (circuit_at now bcs a) = STATE_CLOSED"
    using assms(6) by (auto simp: get_state_code_def circuit_at_def backend_circuit_state_new_def split: option.splits)
  moreover have "should_trip rl now (bcs_config bcs) a stats"
    using config assms(7,8) by (simp add: should_trip_def Let_def)
  ultimately have "bc_current_state (circuit_at now (update_state_after_request rl now False a True stats bcs) a) =
      STATE_HALF_OPEN"
    unfolding update_after_request_at(2) [OF refl] by (simp add: update_state_def)
  then show ?thesis
    by (auto simp: get_state_code_def circuit_at_def backend_circuit_state_new_def state_codes split: option.splits)
qed

text \<open>
  C37: a backend that refuses every connection never trips a breaker configured by consecutive failures.
  A connection failure moves no consecutive counter, so with the failure rate switched off, as the
  configuration documents, by a percentage above 100, any number of them leaves the backend closed.
\<close>

theorem breaker_blind_to_transport_failures:
  assumes "up_circuit_breaker_states up = Some bcs" and "cb_max_failure_percent (bcs_config bcs) > 100"
    and "up_backend_stats up = Some stats" and "get_state_code bcs a = STATE_CLOSED"
    and "get_consecutive_failures stats a < cb_max_consecutive_failures (bcs_config bcs)"
  shows "map_option (\<lambda>bcs. get_state_code bcs a)
    (up_circuit_breaker_states (foldl (\<lambda>up now. on_transport_failure rl now False a up) up nows)) = Some STATE_CLOSED"
  using assms
proof (induction nows arbitrary: up bcs stats)
  case (Cons now nows)
  let ?stats = "stats_transport_failure rl now a stats"
  let ?bcs = "update_state_after_request rl now False a True ?stats bcs"
  have up': "on_transport_failure rl now False a up =
      up\<lparr>up_backend_stats := Some ?stats, up_circuit_breaker_states := Some ?bcs\<rparr>"
    using Cons.prems by (simp add: on_transport_failure_def report_def)
  have count: "get_consecutive_failures ?stats a = get_consecutive_failures stats a"
    by (simp add: get_consecutive_counters stats_simps)
  have "bc_current_state (circuit_at now bcs a) = STATE_CLOSED"
    using Cons.prems(4) by (auto simp: get_state_code_def circuit_at_def backend_circuit_state_new_def split: option.splits)
  moreover have "\<not> should_trip rl now (bcs_config bcs) a ?stats"
    using Cons.prems(2,5) count by (auto simp: should_trip_def Let_def)
  ultimately have "bc_current_state (circuit_at now ?bcs a) = STATE_CLOSED"
    unfolding update_after_request_at(2) [OF refl] by (simp add: update_state_def)
  then have closed: "get_state_code ?bcs a = STATE_CLOSED"
    by (auto simp: get_state_code_def circuit_at_def split: option.splits)
  have config: "bcs_config ?bcs = bcs_config bcs" by (rule update_after_request_at(1) [OF refl])
  show ?case
    using Cons.IH [of "on_transport_failure rl now False a up" ?bcs ?stats] Cons.prems config closed count
    by (simp add: up')
qed simp

section \<open>Instances\<close>

definition demo_rates :: "unit rate_lib" where
  "demo_rates = \<lparr>rt_new = (\<lambda>_. ()), rt_observe = (\<lambda>_ _ r. r), rt_rate = (\<lambda>_ _ _. 1)\<rparr>"

definition demo_statuses :: "nat status_lib" where
  "demo_statuses = \<lparr>sl_from_u16 = Some \<circ> unat, sl_is_server_error = (\<lambda>s. 500 \<le> s)\<rparr>"

definition demo_upstream_conf :: upstream_conf where
  "demo_upstream_conf =
     \<lparr>uc_addrs = [''10.0.0.1:80''], uc_discovery = Some [], uc_algo = None, uc_sni = None, uc_alpn = None,
      uc_enable_backend_stats = Some True, uc_backend_failure_status_code = None,
      uc_backend_stats_interval = Some 60, uc_max_consecutive_failures = Some 1, uc_max_failure_percent = None,
      uc_min_requests_threshold = None, uc_half_open_success_threshold = Some 2, uc_open_duration = Some 10\<rparr>"

definition demo_upstream :: "(unit, unit, nat) upstream" where
  "demo_upstream = \<lparr>up_tls = False, up_sni = [], up_lb = RoundRobin (), up_alpn = ALPN_H1, up_processing = 0,
     up_backend_stats =
       Some \<lparr>bs_failure_status_codes = None, bs_interval = 60, bs_rate = (), bs_counters = []\<rparr>,
     up_circuit_breaker_states = Some \<lparr>bcs_backend_states = [], bcs_config =
       \<lparr>cb_max_consecutive_failures = 1, cb_max_failure_percent = 0, cb_min_requests_threshold = 10,
        cb_half_open_consecutive_success_threshold = 2, cb_open_duration = 10\<rparr>\<rparr>\<rparr>"

definition demo_accepted :: "(unit, unit, nat) upstream" where
  "demo_accepted = snd (accept_backend 0 False [''10.0.0.1:80''] True demo_upstream)"

definition demo_tripped :: "(unit, unit, nat) upstream" where
  "demo_tripped = on_response demo_rates demo_statuses 5 False ''10.0.0.1:80'' 502 demo_accepted"

lemma demo_half_open: "half_open demo_tripped ''10.0.0.1:80''"
  by code_simp

lemma demo_key: "addr_key [''10.0.0.1:80''] = ''10.0.0.1:80''" "utf8_valid ''10.0.0.1:80''"
  by code_simp+


theorem breaker_probe_budget_witness:
  "fst (arrivals [''10.0.0.1:80''] [5, 6, 7, 1000000000000] demo_tripped) = [True, True, False, False]"
proof -
  have "probes_left demo_tripped ''10.0.0.1:80'' = 2" by code_simp
  with breaker_probe_budget [of demo_tripped "[''10.0.0.1:80'']" "[5, 6, 7, 1000000000000]"] demo_half_open
  show ?thesis by (simp add: demo_key upt_rec)
qed

theorem breaker_trips_on_one_failure_witness:
  "get_state_code (update_state_after_request demo_rates 5 False ''10.0.0.1:80'' True
     (backend_stats_new demo_rates demo_statuses (60 * 10 ^ 9) [])
     (the (circuit_breaker_of (demo_upstream_conf\<lparr>uc_max_consecutive_failures := Some 3\<rparr>)))) ''10.0.0.1:80'' =
   STATE_HALF_OPEN"
proof -
  let ?conf = "demo_upstream_conf\<lparr>uc_max_consecutive_failures := Some 3\<rparr>"
  let ?stats = "backend_stats_new demo_rates demo_statuses (60 * 10 ^ 9) []"
  have conf: "uc_max_consecutive_failures ?conf = Some 3" "uc_max_failure_percent ?conf = None"
    by (simp_all add: demo_upstream_conf_def)
  obtain bcs where bcs: "circuit_breaker_of ?conf = Some bcs" "bcs_backend_states bcs = []"
    by (simp add: circuit_breaker_of_def demo_upstream_conf_def or_default_def backend_circuit_states_new_def)
  have window: "get_window_stats demo_rates 5 ?stats ''10.0.0.1:80'' =
      \<lparr>win_failure_rate_percent = 100, win_rps = 1, win_total_requests = 60\<rparr>"
    by (simp add: get_window_stats_def backend_stats_new_def demo_rates_def f64_as_u64_def)
  have closed: "get_state_code bcs ''10.0.0.1:80'' = STATE_CLOSED" by (simp add: get_state_code_def bcs)
  have "get_state_code (update_state_after_request demo_rates 5 False ''10.0.0.1:80'' True ?stats bcs) ''10.0.0.1:80'' =
      STATE_HALF_OPEN"
    by (rule breaker_trips_on_one_failure [OF _ conf bcs(1) refl closed])
      (unfold window, simp_all add: demo_upstream_conf_def or_default_def)
  then show ?thesis by (simp add: bcs)
qed

theorem breaker_blind_to_transport_failures_witness:
  "map_option (\<lambda>bcs. get_state_code bcs ''10.0.0.1:80'')
     (up_circuit_breaker_states (foldl (\<lambda>up now. on_transport_failure demo_rates now False ''10.0.0.1:80'' up)
        (demo_upstream\<lparr>up_circuit_breaker_states :=
           Some (backend_circuit_states_new (circuit_breaker_config_default\<lparr>cb_max_failure_percent := 101\<rparr>)),
           up_backend_stats := Some (backend_stats_new demo_rates demo_statuses 60 [])\<rparr>) [1, 2, 3, 4, 5])) =
   Some STATE_CLOSED"
  by (rule breaker_blind_to_transport_failures
      [where bcs = "backend_circuit_states_new (circuit_breaker_config_default\<lparr>cb_max_failure_percent := 101\<rparr>)" and
        stats = "backend_stats_new demo_rates demo_statuses 60 []"])
    (simp_all add: backend_circuit_states_new_def get_state_code_def circuit_breaker_config_default_def
      backend_stats_new_def get_consecutive_failures_def)

end
