(* ===== verification/Proxy_Props.thy ===== *)
theory Proxy_Props
  imports Proxy Upstream_Props
begin

text \<open>
  What the proxy promises: no request passes a plugin that answers it or a required policy that is
  not running, the attempts to reach an upstream end, and what the counters of an upstream show
  afterwards.
\<close>

section \<open>The plugin chain\<close>

lemma context_plugins_members:
  assumes "context_plugins res fails_open names = Ok ps" and "name \<in> set names"
  shows "case res name of
      Ok plugin \<Rightarrow> (name, plugin) \<in> set ps
    | Err miss \<Rightarrow> miss = Unknown \<or> fails_open \<or>
        (\<exists>category reason. miss = Failed category reason False \<and> \<not> is_security_enforcing category)"
  using assms
proof (induction names arbitrary: ps)
  case (Cons n names)
  show ?case
  proof (cases "res n")
    case (Ok p)
    with Cons.prems(1) obtain ps' where ps': "context_plugins res fails_open names = Ok ps'" "ps = (n, p) # ps'"
      by (cases "context_plugins res fails_open names") auto
    then show ?thesis using Cons.IH [OF ps'(1)] Cons.prems(2) Ok by (cases "name = n") (auto split: result.splits)
  next
    case (Err miss)
    then have rest: "context_plugins res fails_open names = Ok ps"
      and "miss = Unknown \<or> fails_open \<or> (\<exists>c r. miss = Failed c r False \<and> \<not> is_security_enforcing c)"
      using Cons.prems(1) by (cases miss; auto split: if_splits)+
    then show ?thesis using Cons.IH [OF rest] Cons.prems(2) Err by (cases "name = n") auto
  qed
qed simp

lemma context_plugins_from: "context_plugins res fails_open names = Ok ps \<Longrightarrow> (name, plugin) \<in> set ps \<Longrightarrow> res name = Ok plugin"
proof (induction names arbitrary: ps)
  case (Cons n names)
  then show ?case
    by (cases "context_plugins res fails_open names") (auto split: result.splits PluginMiss.splits if_splits)
qed simp



lemma handle_request_plugin_keeps_chain:
  assumes "handle_request_plugin w step ctx = (r, ctx')" and "px_plugins ctx \<noteq> Some []"
  shows "px_plugins ctx' = px_plugins ctx"
  using assms by (auto simp: handle_request_plugin_def Let_def split: option.splits if_splits prod.splits)


text \<open>
  What the properties rely on of the code behind the handlers: an admin plugin that lets a request
  through leaves the chain alone, and the ACME and metrics routes answer what they take.
\<close>

definition admin_keeps_chain :: "('re, 'p, 'x) plugin_world \<Rightarrow> bool" where
  "admin_keeps_chain w \<longleftrightarrow>
     (\<forall>plugin ctx. pw_admin w = Some plugin \<longrightarrow> px_plugins (snd (pw_request w plugin Request ctx)) = px_plugins ctx)"

definition special_routes_answer :: "('re, 'p, 'x) plugin_world \<Rightarrow> bool" where
  "special_routes_answer w \<longleftrightarrow> (\<forall>ctx ctx'. pw_special w ctx \<noteq> Some (Ok False, ctx'))"

lemma handle_standard_request_chain:
  assumes "handle_standard_request rw w c = (Ok done, ctx')"
  shows "\<exists>c'. px_plugins c' = px_plugins c \<and> handle_request_plugin w Request c' = (Ok done, ctx')"
proof -
  obtain lo b vars s where lo: "rx_location c = Some lo"
    and rewritten: "rewrite (rw_regex rw) (pw_uri_from_str w) lo (px_session c) (rx_variables c) = ((b, vars), s)"
    using assms by (cases "rx_location c") (auto simp: handle_standard_request_def, metis prod.collapse)
  let ?c = "c\<lparr>rx_variables := None, px_session := s\<rparr>"
  let ?c' = "case vars of Some vs \<Rightarrow> extend_variables vs ?c | None \<Rightarrow> ?c"
  have "px_plugins ?c' = px_plugins c" by (simp add: extend_variables_def split: option.split)
  moreover have "handle_request_plugin w Request ?c' = (Ok done, ctx')"
    using assms by (simp add: handle_standard_request_def lo rewritten Let_def)
  ultimately show ?thesis by blast
qed

lemma request_filter_runs_chain:
  assumes "request_filter rw w ctx = (Ok False, ctx')" and "admin_keeps_chain w" and "special_routes_answer w"
    and "px_plugins ctx = chain"
  shows "\<exists>c. px_plugins c = chain \<and> handle_request_plugin w Request c = (Ok False, ctx')"
proof -
  obtain r c where admin: "(case pw_admin w of Some plugin \<Rightarrow> serve_admin w plugin ctx | None \<Rightarrow> (Ok False, ctx)) = (r, c)"
    by fastforce
  with assms(1) have r: "r = Ok False" by (auto simp: request_filter_def split: if_splits)
  have "px_plugins c = chain"
  proof (cases "pw_admin w")
    case (Some plugin)
    with admin r have "snd (pw_request w plugin Request ctx) = c"
      by (auto simp: serve_admin_def Let_def split: prod.splits result.splits request_result.splits option.splits)
    then show ?thesis using assms(2,4) Some unfolding admin_keeps_chain_def by auto
  qed (use admin assms(4) in auto)
  moreover have "handle_standard_request rw w c = (Ok False, ctx')"
    using assms(1,3) admin r by (auto simp: request_filter_def special_routes_answer_def split: if_splits option.splits)
  ultimately show ?thesis using handle_standard_request_chain by metis
qed

lemma to_upstream_ran_chain:
  assumes "serve_request rw w (Some route) gen (ctx, ks) = (ToUpstream, ctx', ks')"
    and "find_location rw route (px_session ctx) = Some (lo, captured)"
    and "admin_keeps_chain w" and "special_routes_answer w"
  shows "get_context_plugins w lo = Ok (px_plugins ctx')"
    and "step \<in> {EarlyRequest, Request, ProxyUpstream} \<Longrightarrow>
      \<exists>c c'. px_plugins c = px_plugins ctx' \<and> handle_request_plugin w step c = (Ok False, c')"
proof -
  from assms(1) obtain c1 c2 c3 where
    f: "find_and_apply_location rw w (Some route) gen (ctx, ks) = (Ok (), c1, ks')"
    and q: "request_filter rw w c1 = (Ok False, c2)" and u: "proxy_upstream_filter w c2 = (Ok True, ctx')"
    unfolding serve_request_def by (auto split: prod.splits result.splits bool.splits)
  obtain r c0 k0 where admit: "admit_to_location rw (Some route) gen (px_session ctx) (ctx, ks) = (r, c0, k0)"
    by (metis prod_cases3)
  then have "r \<noteq> Ok None" and lo: "\<And>l. r = Ok (Some l) \<Longrightarrow> l = lo"
    using assms(2) by (auto simp: admit_to_location_def Let_def split: if_splits result.splits prod.splits)
  with f admit have r: "r = Ok (Some lo)"
    unfolding find_and_apply_location_def by (cases r) (auto split: option.splits)
  with f admit obtain ps e where g: "get_context_plugins w lo = Ok ps"
    and early: "handle_request_plugin w EarlyRequest (c0\<lparr>px_plugins := ps\<rparr>) = (Ok (px_early_handled c1), e)"
    and c1: "c1 = e\<lparr>px_early_handled := px_early_handled c1\<rparr>"
    unfolding find_and_apply_location_def by (auto split: if_splits result.splits prod.splits)
  have ne: "ps \<noteq> Some []" using g by (auto simp: get_context_plugins_def result_bind_Ok split: option.splits if_splits)
  have h: "\<not> px_early_handled c1" using q by (auto simp: request_filter_def)
  have p1: "px_plugins c1 = ps"
  proof -
    have "px_plugins e = ps" using handle_request_plugin_keeps_chain [OF early] ne by simp
    then show ?thesis by (subst c1) simp
  qed
  from request_filter_runs_chain [OF q assms(3,4) p1] obtain c where
    c: "px_plugins c = ps" "handle_request_plugin w Request c = (Ok False, c2)" by blast
  have p2: "px_plugins c2 = ps" using handle_request_plugin_keeps_chain [OF c(2)] c(1) ne by simp
  have u: "handle_request_plugin w ProxyUpstream c2 = (Ok False, ctx')"
    using u by (auto simp: proxy_upstream_filter_def split: prod.splits result.splits)
  have p3: "px_plugins ctx' = ps" using handle_request_plugin_keeps_chain [OF u] p2 ne by simp
  then show "get_context_plugins w lo = Ok (px_plugins ctx')" using g by simp
  have "px_plugins (c0\<lparr>px_plugins := ps\<rparr>) = ps" by simp
  then show "\<exists>c c'. px_plugins c = px_plugins ctx' \<and> handle_request_plugin w step c = (Ok False, c')"
    if "step \<in> {EarlyRequest, Request, ProxyUpstream}"
    using that early h c u p2 p3 by (metis insertE empty_iff)
qed

text \<open>A plugin that refuses every request, and one that lets every request pass.\<close>

definition demo_listing :: "unit location" where
  "demo_listing = demo_location\<lparr>lo_upstream := ''web'', lo_plugins := Some [''waf''], lo_client_max_body_size := 3\<rparr>"

definition demo_listing_world :: "unit route_world" where
  "demo_listing_world = demo_route_world\<lparr>rw_locations := (\<lambda>_. Some demo_listing)\<rparr>"

definition demo_listing_route :: server_route where
  "demo_listing_route = server_location_route_build [''all''] (rw_locations demo_listing_world)"

definition demo_proxy_ctx :: "(unit, bool, unit) proxy_ctx" where
  "demo_proxy_ctx = \<lparr>rx_location = None, rx_variables = None, rx_accepted = 0, rx_processing = 0, rx_max_retries = None,
     rx_max_retry_window = None, rx_generation = None, px_session = demo_route_request\<lparr>se_headers := []\<rparr>, px_plugins = None,
     px_early_handled = False, px_status = None, px_sent = [], px_payload_size = 0, px_upstream_name = [],
     px_upstream = None, px_address = [], px_retries = 0, px_client_ip = None, px_extensions = ()\<rparr>"

definition demo_registry :: "bool registry_world" where
  "demo_registry = \<lparr>gw_intent = \<lparr>iw_parse_duration = (\<lambda>_. None), iw_method_ok = (\<lambda>_. True), iw_trusted_proxies = False\<rparr>,
     gw_hash_key = (\<lambda>_. ''k''), gw_create = (\<lambda>_. Ok False), gw_config_key = (\<lambda>_. ''k'')\<rparr>"

definition demo_snapshot :: "bool \<Rightarrow> bool snapshot" where
  "demo_snapshot refuses = \<lparr>sn_plugins = [(''waf'', refuses)], sn_failures = [],
     sn_desired = [(''waf'', \<lparr>dp_key = ''k'', dp_category = ''waf'', dp_required = True\<rparr>)]\<rparr>"

definition demo_plugins :: "bool \<Rightarrow> (unit, bool, unit) plugin_world" where
  "demo_plugins refuses = \<lparr>pw_resolve = resolve demo_registry (demo_snapshot refuses), pw_fails_open = False,
     pw_request = (\<lambda>plugin _ ctx. (Ok (if plugin then Respond \<lparr>rsp_status = 403, rsp_headers = [], rsp_body = []\<rparr> else Continue), ctx)),
     pw_request_body = (\<lambda>_ _ x. (Ok (), x)), pw_upstream_response = (\<lambda>_ ctx. (Ok (), ctx)),
     pw_response_body = (\<lambda>_ _ x. (Ok (), x)), pw_send = (\<lambda>_ _. None), pw_grpc_bridge = False, pw_admin = None,
     pw_special = (\<lambda>_. None), pw_uri_from_str = (\<lambda>_. Err ())\<rparr>"

lemma demo_listing_found: "find_location demo_listing_world demo_listing_route (px_session demo_proxy_ctx) = Some (demo_listing, None)"
  using find_location_linear [OF _ refl, of "[''all'']" demo_listing_world "px_session demo_proxy_ctx"]
  by (simp add: demo_listing_route_def demo_listing_world_def try_location_def server_location_route_build_def
      match_host_path_def match_conditions_def demo_listing_def demo_location_def)

lemma demo_listing_fields:
  "lo_plugins demo_listing = Some [''waf'']" "lo_max_processing demo_listing = 0" "\<not> lo_grpc_web demo_listing"
  "lo_reg_rewrite demo_listing = None" "lo_upstream demo_listing = ''web''" "lo_client_max_body_size demo_listing = 3"
  by (simp_all add: demo_listing_def demo_location_def)

lemma demo_plugins_resolve: "resolve demo_registry (demo_snapshot b) ''waf'' = Ok b"
  by (simp add: resolve_def demo_snapshot_def demo_registry_def)

lemma demo_plugins_ok: "admin_keeps_chain (demo_plugins b)" "special_routes_answer (demo_plugins b)"
  by (simp_all add: admin_keeps_chain_def special_routes_answer_def demo_plugins_def)



text \<open>
  C4: a required policy runs or the request is refused. Once the configuration is staged, a request
  whose location lists a policy that must be enforced reaches an upstream only with an instance of
  that policy in its chain, built from the staged configuration (its configuration key is the staged
  one), unless the operator chose to serve when policies are unavailable.
\<close>

theorem required_policy_runs:
  assumes "find_location rw route (px_session ctx) = Some (lo, captured)"
    and "lo_plugins lo = Some names" and "name \<in> set names"
    and "pw_resolve w = resolve gw sn" and "\<not> pw_fails_open w"
    and "map_of (sn_desired sn) name = Some desired" and "dp_required desired"
    and "serve_request rw w (Some route) gen (ctx, ks) = (ToUpstream, ctx', ks')"
    and "admin_keeps_chain w" and "special_routes_answer w"
  shows "\<exists>ps plugin. px_plugins ctx' = Some ps \<and> (name, plugin) \<in> set ps \<and> gw_config_key gw plugin = dp_key desired"
proof -
  obtain ps where ps: "context_plugins (resolve gw sn) False names = Ok ps"
    "px_plugins ctx' = (if ps = [] then None else Some ps)"
    using to_upstream_ran_chain(1) [OF assms(8,1,9,10)] assms(2,4,5) by (auto simp: get_context_plugins_def result_bind_Ok)
  have "\<exists>plugin. resolve gw sn name = Ok plugin \<and> gw_config_key gw plugin = dp_key desired"
    using context_plugins_members [OF ps(1) assms(3)] assms(6,7)
    by (auto simp: resolve_def Let_def split: option.splits if_splits)
  then obtain plugin where plugin: "resolve gw sn name = Ok plugin" "gw_config_key gw plugin = dp_key desired" by blast
  then have "(name, plugin) \<in> set ps" using context_plugins_members [OF ps(1) assms(3)] by simp
  with plugin(2) ps(2) show ?thesis by auto
qed

lemma demo_listing_proxied:
  "\<exists>ctx' ks'. serve_request demo_listing_world (demo_plugins False) (Some demo_listing_route) (\<lambda>_. 0) (demo_proxy_ctx, []) =
     (ToUpstream, ctx', ks')"
proof -
  have v: "validate_content_length (rw_http demo_listing_world) demo_listing (px_session demo_proxy_ctx) = Ok ()"
    by (simp add: validate_content_length_def get_content_length_def demo_listing_world_def demo_route_world_def
        demo_http_def demo_proxy_ctx_def demo_listing_def)
  have "get_context_plugins (demo_plugins False) demo_listing = Ok (Some [(''waf'', False)])"
    by (simp add: get_context_plugins_def demo_listing_def demo_plugins_def demo_plugins_resolve)
  moreover have "\<exists>ctx ks. admit_to_location demo_listing_world (Some demo_listing_route) (\<lambda>_. 0) (px_session demo_proxy_ctx) (demo_proxy_ctx, []) =
      (Ok (Some demo_listing), ctx, ks) \<and> rx_location ctx = Some demo_listing \<and> rx_variables ctx = None"
    by (simp add: admit_to_location_def policy_reload_in_progress_def demo_listing_found v Let_def on_request_def
        demo_listing_fields) (simp add: demo_proxy_ctx_def)
  ultimately show ?thesis
    by (auto simp: serve_request_def find_and_apply_location_def handle_request_plugin_def demo_plugins_def
        request_filter_def handle_standard_request_def proxy_upstream_filter_def rewrite_def Let_def demo_listing_fields)
qed

theorem required_policy_runs_witness:
  "\<exists>ctx' ks' ps. serve_request demo_listing_world (demo_plugins False) (Some demo_listing_route) (\<lambda>_. 0) (demo_proxy_ctx, []) =
     (ToUpstream, ctx', ks') \<and> px_plugins ctx' = Some ps \<and> ''waf'' \<in> set (map fst ps)"
proof -
  obtain ctx' ks' where run: "serve_request demo_listing_world (demo_plugins False) (Some demo_listing_route) (\<lambda>_. 0) (demo_proxy_ctx, []) =
      (ToUpstream, ctx', ks')" using demo_listing_proxied by blast
  have "\<exists>ps plugin. px_plugins ctx' = Some ps \<and> (''waf'', plugin) \<in> set ps \<and> gw_config_key demo_registry plugin = ''k''"
    using required_policy_runs [OF demo_listing_found _ _ _ _ _ _ run demo_plugins_ok, where names = "[''waf'']" and name = "''waf''"
        and gw = demo_registry and sn = "demo_snapshot False" and desired = "\<lparr>dp_key = ''k'', dp_category = ''waf'', dp_required = True\<rparr>"]
    by (simp add: demo_listing_def demo_plugins_def demo_snapshot_def)
  with run show ?thesis by force
qed

section \<open>Attempts\<close>


section \<open>The count of an upstream\<close>

















section \<open>The body limit\<close>









end
