(* ===== verification/Spec2Isabelle.thy ===== *)
theory Spec2Isabelle
  imports Scoped_Map Acl_Props Waf_Rule_Props Waf_Native_Ids Waf_Interleave Waf_Plugin_Props Reload Proxy_Props
begin

text \<open>
  A verification library for pingap-waf, a reverse proxy with security controls. Paths below are
  relative to the source tree.

  \<^bold>\<open>The program.\<close> A request is routed to a location by host, path and conditions
  (\<open>pingap-location\<close>, \<open>pingap-proxy\<close>), passes the plugins the location lists, among them the access
  control (\<open>crates/pingap-acl\<close>) and the web application firewall (\<open>crates/pingap-waf\<close>), and is sent to
  a backend chosen by an upstream with a circuit breaker (\<open>pingap-upstream\<close>). The firewall consults
  threat-intelligence feeds (\<open>crates/pingap-intel\<close>), reports to an event queue
  (\<open>crates/pingap-events\<close>), and state per client is kept in a bounded container
  (\<open>crates/pingap-domainstate\<close>). A configuration is published while requests run (\<open>src/\<close>).

  \<^bold>\<open>The theories.\<close>

  \<^item> \<open>Prelude\<close>, \<open>Decimal\<close>, \<open>Utf8\<close>, \<open>Ip_Addr\<close>, \<open>Ip_Display\<close>, \<open>Ord_Map\<close>: what the sources use of the
    Rust language and its standard library. Strings are byte strings; \<open>Result\<close> is \<open>result\<close>; integers of
    a fixed width are words where they wrap or saturate; \<open>usize\<close> and times are natural numbers; an
    \<open>f64\<close> is a rational number; hash maps are association lists.
  \<^item> \<open>Ip_Rules\<close> (\<open>pingap-util/src/ip.rs\<close>), \<open>Client_Ip\<close> and \<open>Http_Header\<close>
    (\<open>pingap-core/src/http_header.rs\<close>), \<open>Plugin_Core\<close> (\<open>pingap-plugin/src/lib.rs\<close>): address sets, the
    client address behind trusted proxies, readers of headers, cookies and queries, plugin steps. An
    untrusted peer cannot choose the address it is judged by.
  \<^item> \<open>Acl_Rule\<close>, \<open>Acl_Evaluate\<close>, \<open>Acl_Access\<close>, \<open>Acl_Plugin\<close>, \<open>Acl_Props\<close> (\<open>crates/pingap-acl\<close>): the
    rule table, the access list and the plugin; the plugin answers as the written policy says.
  \<^item> \<open>Host_Policy\<close>, \<open>Scoped_Store\<close>, \<open>Scoped_Store_Inv\<close>, \<open>Scoped_Store_Ops\<close>, \<open>Scoped_Store_Run\<close>,
    \<open>Scoped_Map\<close> (\<open>crates/pingap-domainstate\<close>): the container, one operation per lock hold with the
    clock as an argument. It refines a map of expiring entries, keeps domains apart and stays within
    its bounds over every run.
  \<^item> \<open>Waf_Rule\<close>, \<open>Waf_Config\<close>, \<open>Waf_Body\<close>, \<open>Waf_Match\<close>, \<open>Waf_Detectors\<close>, \<open>Waf_Prefilter\<close>, \<open>Waf_Gate\<close>,
    \<open>Waf_Engine\<close>, \<open>Waf_Engine_Built\<close> (\<open>crates/pingap-waf\<close>): configuration, rules, the literal
    prefilter, budget and scoring. \<open>Waf_Engine_Ref\<close>, \<open>Waf_Props\<close>, \<open>Waf_Rule_Props\<close>, \<open>Waf_Interleave\<close>,
    \<open>Waf_Native_Ids\<close>: the engine refines a reference that tries every rule; the prefilter is
    invisible; identifiers are unique; which configurations are accepted.
  \<^item> \<open>Waf_Ip_Filter\<close>, \<open>Waf_Plugin\<close>, \<open>Waf_Plugin_Props\<close> (\<open>ip_filter.rs\<close> and \<open>plugin.rs\<close> there): the
    plugin over engine, body buffer, address list, feeds and events. A body passes whole or not at
    all; a response is changed only inside recorded hits.
  \<^item> \<open>Intel_Families\<close>, \<open>Intel_Config\<close>, \<open>Intel_Parse\<close>, \<open>Intel_Egress\<close>, \<open>Intel_Feed\<close>, \<open>Intel_Set\<close>,
    \<open>Intel_History\<close>, \<open>Intel_Props\<close> (\<open>crates/pingap-intel\<close>): parsing, limits, the egress guard,
    fetching and the published snapshot. No fetch reaches a reserved address; the snapshot is a
    function of the history of fetches.
  \<^item> \<open>Event_Queue\<close> (\<open>crates/pingap-events\<close>): the bounded queue, its accounting, and what it may evict.
  \<^item> \<open>Backend_Stats\<close>, \<open>Circuit_Breaker\<close>, \<open>Upstream\<close>, \<open>Upstream_Props\<close> (\<open>pingap-upstream\<close>): statistics,
    the breaker as a state machine whose contended locks are arguments of its steps, the choice of a
    backend. The breaker recovers; its probes are budgeted.
  \<^item> \<open>Location\<close>, \<open>Routing\<close> (\<open>pingap-location\<close>, \<open>src/server_locations.rs\<close>, and
    \<open>find_and_apply_location\<close> of \<open>pingap-proxy/src/server.rs\<close>): selectors, conditions, weights, the host
    index, admission. The index is the linear scan; the heaviest match wins.
  \<^item> \<open>Reload\<close> (\<open>src/locations.rs\<close>, \<open>src/process/auto_restart.rs\<close>, \<open>pingap-core/src/lib.rs\<close>): publishing
    a configuration beside running requests. Admitted requests see one policy; an index that a reload
    does not rebuild goes stale.
  \<^item> \<open>Plugin_Registry\<close> (\<open>src/plugin/mod.rs\<close>, \<open>pingap-core/src/plugin.rs\<close>): which failed plugins may not
    be served around, and the provider of plugins.
  \<^item> \<open>Proxy\<close>, \<open>Proxy_Props\<close> (\<open>pingap-proxy/src/server.rs\<close>): the plugin chains, the callbacks in the
    order pingora calls them, retries, the body limit, the release of counters. A plugin that answers
    stops the request; a required policy runs or the request is refused; the attempts end.

  \<^bold>\<open>Parameters.\<close> Third-party code is an argument: the regular expressions, Aho-Corasick, URL, IP
  network, HTTP header and HTTP client libraries, SHA-256, GeoIP, the sliding rate and the load
  balancer. Hypotheses on them are named (\<open>libs_sound\<close> and the like) and instantiated in the
  witnesses. Time and lock contention are arguments of the steps that meet them. Plugin instances of
  the proxy are opaque; \<open>admin_keeps_chain\<close>, \<open>special_routes_answer\<close> and \<open>plugins_keep_accounting\<close>
  say what the properties rely on of the handlers behind them.

  \<^bold>\<open>Bounds.\<close> Loops over data are structural. \<open>replace_from\<close> has the length of its text as fuel, which
  \<open>replace_from_fuel\<close> shows to be enough. \<open>proxy_attempts\<close> terminates by the retries left, and
  \<open>drop_forms\<close> of \<open>Prelude\<close>, like the other scanning loops (\<open>valid_up_to\<close>, \<open>hq_loop\<close>, \<open>ul_loop\<close>,
  \<open>drain_loop\<close>), by the text or queue left. The host index is the scan up to the
  65536 locations its 16-bit positions can name. The generation argument of \<open>Reload\<close> holds for fewer
  than \<open>2 ^ 64\<close> reloads during one request.

  \<^bold>\<open>Not modelled.\<close> Behaviour scoring and adaptive limits, which are statistics in \<open>f64\<close> whose rounding
  matters; bot management and challenges, which rest on fingerprints and cryptographic tokens; the
  control plane and the admin interface (SQL and HTTP handlers off the request path); configuration
  sources and formats; the other plugins, which the proxy model takes as opaque; certificates,
  caching, discovery, health checks, image optimisation, logging, tracing and metrics; header
  templates and error pages; start-up and the command line. Of the reload, the comparison of
  configurations and the reload of upstreams and certificates; of the provider, the behaviour
  profiles kept across a failed reload. The counters of a location are kept by its name, so a request
  that outlives a reload of its location is outside the statements about them.
\<close>

end
